(* ===== verification/Elucid_Prelude.thy ===== *)
theory Elucid_Prelude
  imports Main "HOL-Library.Word"
begin

text \<open>
  Shared vocabulary of the development.
  \<^item> Rust's \<open>Result<T, E>\<close> is the sum \<open>'e + 'a\<close> (\<open>Inl\<close> the error); the question-mark
    operator is \<open>sbind\<close>, \<open>ok_or\<close> and \<open>map_err\<close> are the standard combinators, and
    \<open>traverse\<close> is \<open>iter().map(f).collect::<Result<Vec<_>, _>>()\<close>.
  \<^item> Unsigned machine integers whose arithmetic the code always checks are \<open>nat\<close> with the
    width written out in \<open>checked_add\<close>; signed ones are \<open>int\<close> with range predicates.
    Bytes are \<open>8 word\<close>.
  \<^item> \<open>to_be_bytes\<close>/\<open>from_be_bytes\<close> and their round trips.
  \<^item> The interface locales \<open>codec\<close> (a parser that inverts a printer) and
    \<open>invariant_system\<close> (an invariant that every step keeps).
\<close>

named_theorems result_simps \<open>equations that read a result apart\<close>

section \<open>Results\<close>

fun sbind :: "'e + 'a \<Rightarrow> ('a \<Rightarrow> 'e + 'b) \<Rightarrow> 'e + 'b" where
  "sbind (Inl e) f = Inl e"
| "sbind (Inr x) f = f x"

fun ok_or :: "'a option \<Rightarrow> 'e \<Rightarrow> 'e + 'a" where
  "ok_or None e = Inl e"
| "ok_or (Some x) e = Inr x"

fun map_err :: "('e \<Rightarrow> 'f) \<Rightarrow> 'e + 'a \<Rightarrow> 'f + 'a" where
  "map_err f (Inl e) = Inl (f e)"
| "map_err f (Inr x) = Inr x"

definition ensure :: "bool \<Rightarrow> 'e \<Rightarrow> 'e + unit" where
  "ensure b e = (if b then Inr () else Inl e)"

primrec traverse :: "('a \<Rightarrow> 'e + 'b) \<Rightarrow> 'a list \<Rightarrow> 'e + 'b list" where
  "traverse f [] = Inr []"
| "traverse f (x # xs) = sbind (f x) (\<lambda>y. sbind (traverse f xs) (\<lambda>ys. Inr (y # ys)))"

primrec for_each :: "('a \<Rightarrow> 'e + unit) \<Rightarrow> 'a list \<Rightarrow> 'e + unit" where
  "for_each f [] = Inr ()"
| "for_each f (x # xs) = sbind (f x) (\<lambda>_. for_each f xs)"

primrec fold_result :: "('s \<Rightarrow> 'a \<Rightarrow> 'e + 's) \<Rightarrow> 'a list \<Rightarrow> 's \<Rightarrow> 'e + 's" where
  "fold_result f [] s = Inr s"
| "fold_result f (x # xs) s = sbind (f s x) (\<lambda>s. fold_result f xs s)"

lemma sbind_cong [fundef_cong]:
  "r = r' \<Longrightarrow> (\<And>x. r' = Inr x \<Longrightarrow> f x = g x) \<Longrightarrow> sbind r f = sbind r' g"
  by (cases r') auto

lemma sbind_eq_Inr [result_simps]: "sbind r f = Inr y \<longleftrightarrow> (\<exists>x. r = Inr x \<and> f x = Inr y)"
  by (cases r) auto

lemma sbind_eq_Inl [result_simps]:
  "sbind r f = Inl e \<longleftrightarrow> r = Inl e \<or> (\<exists>x. r = Inr x \<and> f x = Inl e)"
  by (cases r) auto

lemma sbind_assoc: "sbind (sbind r f) g = sbind r (\<lambda>x. sbind (f x) g)"
  by (cases r) auto

lemma sbind_map_sum: "sbind (map_sum id f r) g = sbind r (\<lambda>x. g (f x))"
  by (cases r) simp_all

lemma ok_or_eq_Inr [result_simps]: "ok_or x e = Inr y \<longleftrightarrow> x = Some y"
  by (cases x) auto

lemma ok_or_eq_Inl [result_simps]: "ok_or x e = Inl f \<longleftrightarrow> x = None \<and> e = f"
  by (cases x) auto

lemma map_err_eq_Inr [result_simps]: "map_err f r = Inr y \<longleftrightarrow> r = Inr y"
  by (cases r) auto

lemma ensure_eq_Inr [result_simps]: "ensure b e = Inr u \<longleftrightarrow> b"
  by (simp add: ensure_def)

lemma ensure_eq_Inl [result_simps]: "ensure b e = Inl f \<longleftrightarrow> \<not> b \<and> e = f"
  by (simp add: ensure_def)

lemma ensure_True [simp]: "ensure True e = Inr ()"
  by (simp add: ensure_def)

lemma ensure_False [simp]: "ensure False e = Inl e"
  by (simp add: ensure_def)

lemma traverse_eq_Inr:
  "traverse f xs = Inr ys \<longleftrightarrow> list_all2 (\<lambda>x y. f x = Inr y) xs ys"
proof (induction xs arbitrary: ys)
  case Nil
  then show ?case by auto
next
  case (Cons x xs)
  then show ?case
    by (auto simp: result_simps list_all2_Cons1)
qed

lemma traverse_cong: "(\<And>x. x \<in> set xs \<Longrightarrow> f x = g x) \<Longrightarrow> traverse f xs = traverse g xs"
  by (induction xs) simp_all

lemma traverse_guard:
  "traverse (\<lambda>x. if P x then Inr (f x) else Inl e) xs = (if list_all P xs then Inr (map f xs) else Inl e)"
  by (induction xs) auto

lemma fold_result_append:
  "fold_result f (xs @ ys) s = sbind (fold_result f xs s) (\<lambda>s. fold_result f ys s)"
  by (induction xs arbitrary: s) (simp_all add: sbind_assoc)

lemma traverse_append:
  "traverse f (xs @ ys) = sbind (traverse f xs) (\<lambda>us. sbind (traverse f ys) (\<lambda>vs. Inr (us @ vs)))"
proof (induction xs)
  case (Cons x xs)
  then show ?case by (simp add: sbind_assoc)
qed (cases "traverse f ys"; simp)

lemma traverse_total: "(\<And>x. x \<in> set xs \<Longrightarrow> \<exists>y. f x = Inr y) \<Longrightarrow> \<exists>ys. traverse f xs = Inr ys"
  by (induction xs) (auto, metis sbind.simps(2))

lemma traverse_length: "traverse f xs = Inr ys \<Longrightarrow> length ys = length xs"
  by (auto simp: traverse_eq_Inr dest: list_all2_lengthD)

lemma for_each_eq_Inr: "for_each f xs = Inr u \<longleftrightarrow> (\<forall>x \<in> set xs. f x = Inr ())"
  by (induction xs) (auto simp: result_simps)

section \<open>Positions\<close>

primrec find_position :: "('a \<Rightarrow> bool) \<Rightarrow> 'a list \<Rightarrow> nat option" where
  "find_position P [] = None"
| "find_position P (x # xs) = (if P x then Some 0 else map_option Suc (find_position P xs))"

lemma find_position_Some: "find_position P xs = Some i \<Longrightarrow> i < length xs \<and> P (xs ! i)"
  by (induction xs arbitrary: i) (auto split: if_split_asm)

lemma find_position_None: "find_position P xs = None \<longleftrightarrow> (\<forall>x \<in> set xs. \<not> P x)"
  by (induction xs) auto

section \<open>Checked machine arithmetic\<close>

definition u64_max :: nat where
  "u64_max = 18446744073709551615"

definition checked_add :: "nat \<Rightarrow> nat \<Rightarrow> nat option" where
  "checked_add a b = (if a + b \<le> u64_max then Some (a + b) else None)"

lemma checked_add_eq_Some [result_simps]:
  "checked_add a b = Some c \<longleftrightarrow> c = a + b \<and> a + b \<le> u64_max"
  by (auto simp: checked_add_def)

lemma checked_add_eq_None [result_simps]: "checked_add a b = None \<longleftrightarrow> u64_max < a + b"
  by (auto simp: checked_add_def)

section \<open>Bytes and big-endian fields\<close>

type_synonym u8 = "8 word"
type_synonym bytes = "u8 list"

primrec be_bytes :: "nat \<Rightarrow> nat \<Rightarrow> bytes" where
  "be_bytes 0 n = []"
| "be_bytes (Suc k) n = be_bytes k (n div 256) @ [word_of_nat n]"

definition be_nat :: "bytes \<Rightarrow> nat" where
  "be_nat bs = foldl (\<lambda>a b. a * 256 + unat b) 0 bs"

lemma be_nat_Nil [simp]: "be_nat [] = 0"
  by (simp add: be_nat_def)

lemma be_nat_snoc [simp]: "be_nat (bs @ [b]) = be_nat bs * 256 + unat b"
  by (simp add: be_nat_def)

lemma length_be_bytes [simp]: "length (be_bytes k n) = k"
  by (induction k arbitrary: n) auto

lemma unat_word_of_nat_u8 [simp]: "unat (word_of_nat n :: u8) = n mod 256"
  by (simp add: unat_of_nat)

lemma be_nat_be_bytes: "be_nat (be_bytes k n) = n mod 256 ^ k"
proof (induction k arbitrary: n)
  case 0
  then show ?case by simp
next
  case (Suc k)
  have "be_nat (be_bytes (Suc k) n) = (n div 256 mod 256 ^ k) * 256 + n mod 256"
    by (simp add: Suc)
  also have "\<dots> = n mod (256 * 256 ^ k)"
    by (simp add: mod_mult2_eq)
  finally show ?case by simp
qed

lemma be_nat_be_bytes_id: "n < 256 ^ k \<Longrightarrow> be_nat (be_bytes k n) = n"
  by (simp add: be_nat_be_bytes)

lemma be_bytes_be_nat: "be_bytes (length bs) (be_nat bs) = bs"
proof (induction bs rule: rev_induct)
  case Nil
  then show ?case by simp
next
  case (snoc b bs)
  have b: "unat b < 256"
    using unsigned_less [of b] by simp
  then have "(be_nat bs * 256 + unat b) div 256 = be_nat bs"
    by simp
  moreover have "(word_of_nat (be_nat bs * 256 + unat b) :: u8) = b"
    by (rule word_unat_eq_iff [THEN iffD2], simp only: unat_word_of_nat_u8) (use b in simp)
  ultimately show ?case using snoc by simp
qed

lemma be_nat_less: "be_nat bs < 256 ^ length bs"
proof -
  have "be_nat bs = be_nat bs mod 256 ^ length bs"
    using be_nat_be_bytes [of "length bs" "be_nat bs"] by (simp add: be_bytes_be_nat)
  then show ?thesis by (metis mod_less_divisor zero_less_numeral zero_less_power)
qed

definition u16_to_be_bytes :: "nat \<Rightarrow> bytes" where
  "u16_to_be_bytes n = be_bytes 2 n"

definition u64_to_be_bytes :: "nat \<Rightarrow> bytes" where
  "u64_to_be_bytes n = be_bytes 8 n"

definition i64_to_be_bytes :: "int \<Rightarrow> bytes" where
  "i64_to_be_bytes i = be_bytes 8 (nat (i mod 2 ^ 64))"

definition i64_from_be_bytes :: "bytes \<Rightarrow> int" where
  "i64_from_be_bytes bs =
     (let n = int (be_nat bs) in if n < 2 ^ 63 then n else n - 2 ^ 64)"

definition in_i64 :: "int \<Rightarrow> bool" where
  "in_i64 i \<longleftrightarrow> - (2 ^ 63) \<le> i \<and> i < 2 ^ 63"

lemma i64_from_to_be_bytes: "in_i64 i \<Longrightarrow> i64_from_be_bytes (i64_to_be_bytes i) = i"
proof -
  assume r: "in_i64 i"
  have b: "nat (i mod 2 ^ 64) < 256 ^ 8" by (simp add: nat_less_iff)
  have m: "i mod 2 ^ 64 = (if 0 \<le> i then i else i + 2 ^ 64)"
  proof (cases "0 \<le> i")
    case True
    with r show ?thesis by (simp add: in_i64_def)
  next
    case False
    have "i mod 2 ^ 64 = (i + 2 ^ 64) mod 2 ^ 64" by simp
    also have "\<dots> = i + 2 ^ 64" using False r by (intro mod_pos_pos_trivial) (auto simp: in_i64_def)
    finally show ?thesis using False by simp
  qed
  from be_nat_be_bytes_id [OF b] r m show ?thesis
    by (simp add: i64_from_be_bytes_def i64_to_be_bytes_def Let_def in_i64_def)
qed

lemma length_field_bytes [simp]:
  "length (u16_to_be_bytes n) = 2" "length (u64_to_be_bytes n) = 8" "length (i64_to_be_bytes i) = 8"
  by (simp_all add: u16_to_be_bytes_def u64_to_be_bytes_def i64_to_be_bytes_def)

lemma u16_from_to_be_bytes: "n < 65536 \<Longrightarrow> be_nat (u16_to_be_bytes n) = n"
  by (simp add: u16_to_be_bytes_def be_nat_be_bytes)

lemma u64_from_to_be_bytes: "n \<le> u64_max \<Longrightarrow> be_nat (u64_to_be_bytes n) = n"
  by (simp add: u64_to_be_bytes_def be_nat_be_bytes u64_max_def)

text \<open>A byte string literal \<open>b"..."\<close>.\<close>

definition byte_string :: "string \<Rightarrow> bytes" where
  "byte_string s = map of_char s"

lemma length_byte_string [simp]: "length (byte_string s) = length s"
  by (simp add: byte_string_def)

section \<open>Interfaces\<close>

text \<open>
  A printer with a parser that inverts it on valid values. The clients' lemmas: printing is
  injective on valid values, and an accepted printed text has exactly one reading.
\<close>

locale codec =
  fixes enc :: "'a \<Rightarrow> 'b"
    and dec :: "'b \<Rightarrow> 'e + 'a"
    and valid :: "'a \<Rightarrow> bool"
  assumes dec_enc: "valid a \<Longrightarrow> dec (enc a) = Inr a"
begin

lemma enc_inject: "valid a \<Longrightarrow> valid b \<Longrightarrow> enc a = enc b \<longleftrightarrow> a = b"
  by (metis dec_enc sum.inject(2))

lemma dec_enc_not_error: "valid a \<Longrightarrow> dec (enc a) \<noteq> Inl e"
  by (simp add: dec_enc)

lemma dec_enc_unique: "valid a \<Longrightarrow> dec (enc a) = Inr b \<Longrightarrow> b = a"
  by (simp add: dec_enc)

end

text \<open>
  A codec that also rejects everything that is not a printed valid value: the accepted texts
  are exactly the canonical ones.
\<close>

locale canonical_codec = codec +
  assumes enc_dec: "dec b = Inr a \<Longrightarrow> valid a \<and> enc a = b"
begin

lemma dec_inject: "dec b = Inr a \<Longrightarrow> dec c = Inr a \<Longrightarrow> b = c"
  using enc_dec by metis

lemma dec_iff: "dec b = Inr a \<longleftrightarrow> valid a \<and> b = enc a"
  using dec_enc enc_dec by metis

end

text \<open>A transition system with an inductive invariant.\<close>

locale invariant_system =
  fixes init :: "'s \<Rightarrow> bool"
    and step :: "'s \<Rightarrow> 's \<Rightarrow> bool"
    and inv :: "'s \<Rightarrow> bool"
  assumes inv_init: "init s \<Longrightarrow> inv s"
    and inv_step: "inv s \<Longrightarrow> step s t \<Longrightarrow> inv t"
begin

lemma inv_steps: "step\<^sup>*\<^sup>* s t \<Longrightarrow> inv s \<Longrightarrow> inv t"
  by (induction rule: rtranclp_induct) (auto intro: inv_step)

lemma inv_reachable: "init s \<Longrightarrow> step\<^sup>*\<^sup>* s t \<Longrightarrow> inv t"
  by (blast intro: inv_init inv_steps)

end

end
