(* ===== verification/Identity.thy ===== *)
theory Identity
  imports Elucid_Prelude
begin

text \<open>
  The identities of \<open>elucid-core\<close> and \<open>elucid-catalog\<close>: \<open>UuidV7\<close> (\<open>identity.rs\<close>), the
  catalog identities that wrap it, the reserved system field identities, and \<open>EventId\<close> with
  its canonical hexadecimal text (\<open>event_id.rs\<close>).

  A \<open>Uuid\<close> is its 128-bit value. How the \<open>uuid\<close> package reads the version and the variant out
  of it is a parameter (\<open>uuid_env\<close>); nothing is assumed of it here.
\<close>

unbundle bit_operations_syntax

section \<open>UUIDs\<close>

type_synonym uuid = "128 word"

datatype uuid_version =
  VNil | VMac | VDce | VMd5 | VRandom | VSha1 | VSortMac | VSortRand | VCustom | VMax

datatype uuid_variant = NCS | RFC4122 | Microsoft | Future

record uuid_env =
  get_version :: "uuid \<Rightarrow> uuid_version option"
  get_variant :: "uuid \<Rightarrow> uuid_variant"

datatype uuid_v7_error = Malformed | InvalidVersionOrVariant uuid

definition uuid_v7_new :: "'x uuid_env_scheme \<Rightarrow> uuid \<Rightarrow> uuid_v7_error + uuid" where
  "uuid_v7_new X value =
     (if get_version X value = Some VSortRand \<and> get_variant X value = RFC4122
      then Inr value else Inl (InvalidVersionOrVariant value))"

text \<open>The invariant of the type \<open>UuidV7\<close>: it was accepted by its constructor.\<close>

definition is_uuid_v7 :: "'x uuid_env_scheme \<Rightarrow> uuid \<Rightarrow> bool" where
  "is_uuid_v7 X value \<longleftrightarrow> uuid_v7_new X value = Inr value"

definition uuid_as_bytes :: "uuid \<Rightarrow> bytes" where
  "uuid_as_bytes u = be_bytes 16 (unat u)"

definition uuid_from_bytes :: "bytes \<Rightarrow> uuid" where
  "uuid_from_bytes bs = word_of_nat (be_nat bs)"

lemma length_uuid_as_bytes [simp]: "length (uuid_as_bytes u) = 16"
  by (simp add: uuid_as_bytes_def)

lemma uuid_from_as_bytes [simp]: "uuid_from_bytes (uuid_as_bytes u) = u"
proof -
  have "unat u < 256 ^ 16" using unsigned_less [of u] by simp
  then show ?thesis
    by (simp add: uuid_from_bytes_def uuid_as_bytes_def be_nat_be_bytes_id)
qed

lemma uuid_v7_new_eq_Inr [result_simps]:
  "uuid_v7_new X value = Inr u \<longleftrightarrow> u = value \<and> is_uuid_v7 X value"
  by (auto simp: uuid_v7_new_def is_uuid_v7_def)

lemma uuid_v7_new_ok: "is_uuid_v7 X value \<Longrightarrow> uuid_v7_new X value = Inr value"
  by (simp add: is_uuid_v7_def)

section \<open>Catalog identities\<close>

datatype identity_kind = KSource | KSchema | KField | KInput | KIngestionProfileRevision

datatype identity_error = IdentityMustBeUuidV7 identity_kind uuid

definition identity_try_from ::
  "'x uuid_env_scheme \<Rightarrow> identity_kind \<Rightarrow> uuid \<Rightarrow> identity_error + uuid" where
  "identity_try_from X kind value =
     map_err (\<lambda>_. IdentityMustBeUuidV7 kind value) (uuid_v7_new X value)"

definition field_id_event_time :: uuid where
  "field_id_event_time = 0x00000000000070008000000000000001"

definition field_id_ingestion_time :: uuid where
  "field_id_ingestion_time = 0x00000000000070008000000000000002"

definition field_id_event_id :: uuid where
  "field_id_event_id = 0x00000000000070008000000000000003"

definition field_id_remainder :: uuid where
  "field_id_remainder = 0x00000000000070008000000000000004"

definition is_system :: "uuid \<Rightarrow> bool" where
  "is_system f \<longleftrightarrow>
     f = field_id_event_time \<or> f = field_id_ingestion_time \<or>
     f = field_id_event_id \<or> f = field_id_remainder"

lemmas field_id_defs =
  field_id_event_time_def field_id_ingestion_time_def field_id_event_id_def field_id_remainder_def

lemma system_field_ids_distinct:
  "distinct [field_id_event_time, field_id_ingestion_time, field_id_event_id, field_id_remainder]"
  by (simp add: field_id_defs)

section \<open>Event identities\<close>

datatype parse_event_id_error = ParseEventIdError

definition hex_value :: "char \<Rightarrow> parse_event_id_error + u8" where
  "hex_value c =
     (let v = (of_char c :: nat)
      in if 48 \<le> v \<and> v \<le> 57 then Inr (word_of_nat (v - 48))
         else if 97 \<le> v \<and> v \<le> 102 then Inr (word_of_nat (v - 97 + 10))
         else Inl ParseEventIdError)"

text \<open>The loop over \<open>chunks_exact(2)\<close>; a trailing odd byte would be left out by the chunks.\<close>

fun hex_pairs :: "string \<Rightarrow> parse_event_id_error + bytes" where
  "hex_pairs (a # b # rest) =
     sbind (hex_value a) (\<lambda>h. sbind (hex_value b) (\<lambda>l.
       sbind (hex_pairs rest) (\<lambda>bs. Inr ((push_bit 4 h OR l) # bs))))"
| "hex_pairs _ = Inr []"

definition event_id_from_str :: "string \<Rightarrow> parse_event_id_error + bytes" where
  "event_id_from_str value =
     (if length value \<noteq> 32 then Inl ParseEventIdError else hex_pairs value)"

definition HEX :: string where
  "HEX = ''0123456789abcdef''"

definition hex_byte :: "u8 \<Rightarrow> string" where
  "hex_byte b = [HEX ! unat (drop_bit 4 b), HEX ! unat (b AND 15)]"

definition event_id_display :: "bytes \<Rightarrow> string" where
  "event_id_display bs = concat (map hex_byte bs)"

text \<open>The invariant of the type \<open>EventId([u8; 16])\<close>.\<close>

definition event_id_ok :: "bytes \<Rightarrow> bool" where
  "event_id_ok bs \<longleftrightarrow> length bs = 16"

lemma HEX_digit: "n < 10 \<Longrightarrow> HEX ! n = char_of (48 + n)"
proof -
  have "\<forall>n \<in> set [0..<10]. of_char (HEX ! n) = 48 + n"
    by (simp add: HEX_def upt_rec)
  then show "n < 10 \<Longrightarrow> ?thesis" by (metis atLeastLessThan_iff char_of_char set_upt zero_le)
qed

lemma HEX_letter: "n < 6 \<Longrightarrow> HEX ! (n + 10) = char_of (97 + n)"
proof -
  have "\<forall>n \<in> set [0..<6]. of_char (HEX ! (n + 10)) = 97 + n"
    by (simp add: HEX_def upt_rec)
  then show "n < 6 \<Longrightarrow> ?thesis" by (metis atLeastLessThan_iff char_of_char set_upt zero_le)
qed

lemma hex_value_HEX: "n < 16 \<Longrightarrow> hex_value (HEX ! n) = Inr (word_of_nat n)"
proof -
  have "\<forall>n \<in> set [0..<16]. hex_value (HEX ! n) = Inr (word_of_nat n)"
    by (simp add: hex_value_def HEX_def upt_rec)
  then show "n < 16 \<Longrightarrow> ?thesis" by simp
qed

lemma hex_value_inv:
  assumes "hex_value c = Inr v"
  shows "unat v < 16 \<and> HEX ! unat v = c"
proof -
  let ?n = "of_char c :: nat"
  consider (digit) "48 \<le> ?n" "?n \<le> 57" "v = word_of_nat (?n - 48)"
    | (letter) "97 \<le> ?n" "?n \<le> 102" "v = word_of_nat (?n - 97 + 10)"
    using assms by (auto simp: hex_value_def Let_def split: if_splits)
  then show ?thesis
  proof cases
    case digit
    then have "unat v = ?n - 48" by (simp only: unat_word_of_nat_u8) simp
    with digit HEX_digit [of "?n - 48"] show ?thesis by simp
  next
    case letter
    then have "unat v = ?n - 97 + 10" by (simp only: unat_word_of_nat_u8) simp
    with letter HEX_letter [of "?n - 97"] show ?thesis by simp
  qed
qed

lemma nibble_mask: "(15 :: u8) = mask 4"
  by (simp add: mask_eq_exp_minus_1)

lemma bit_nibble:
  fixes h :: u8
  assumes "unat h < 16"
  shows "bit h n \<Longrightarrow> n < 4"
proof -
  have "take_bit 4 h = h"
    using assms by (intro word_unat_eq_iff [THEN iffD2])
      (simp only: unsigned_take_bit_eq, simp add: take_bit_eq_mod)
  then show "bit h n \<Longrightarrow> n < 4" by (metis bit_take_bit_iff)
qed

lemma nibbles_join: "push_bit 4 (drop_bit 4 b) OR (b AND 15) = (b :: u8)"
  by (rule bit_word_eqI) (auto simp: bit_simps nibble_mask)

lemma nibbles_split:
  fixes h l :: u8
  assumes "unat h < 16" "unat l < 16"
  shows "drop_bit 4 (push_bit 4 h OR l) = h" "(push_bit 4 h OR l) AND 15 = l"
  by (rule bit_word_eqI; use assms in \<open>auto simp: bit_simps nibble_mask dest: bit_nibble\<close>)+

lemma nibble_bounds: "unat (drop_bit 4 (b :: u8)) < 16" "unat (b AND 15) < 16"
proof -
  have "unat b < 256" using unsigned_less [of b] by simp
  then show "unat (drop_bit 4 b) < 16"
    by (simp only: unat_drop_bit_eq) (simp add: drop_bit_eq_div)
  have "b AND 15 = take_bit 4 b" by (simp add: nibble_mask take_bit_eq_mask)
  then show "unat (b AND 15) < 16"
    by (simp only: unsigned_take_bit_eq) (simp add: take_bit_eq_mod)
qed

lemma hex_pairs_hex_byte:
  "hex_pairs (hex_byte b @ rest) = sbind (hex_pairs rest) (\<lambda>bs. Inr (b # bs))"
  by (simp add: hex_byte_def hex_value_HEX nibble_bounds nibbles_join)

lemma hex_pairs_display: "hex_pairs (event_id_display bs) = Inr bs"
  by (induction bs) (simp_all add: event_id_display_def hex_pairs_hex_byte)

lemma length_event_id_display [simp]: "length (event_id_display bs) = 2 * length bs"
  by (induction bs) (simp_all add: event_id_display_def hex_byte_def)

lemma hex_pairs_inv:
  "hex_pairs s = Inr bs \<Longrightarrow> even (length s) \<Longrightarrow> event_id_display bs = s"
proof (induction s arbitrary: bs rule: hex_pairs.induct)
  case (1 a b rest)
  then obtain h l bs' where hl: "hex_value a = Inr h" "hex_value b = Inr l"
    and rest: "hex_pairs rest = Inr bs'" and bs: "bs = (push_bit 4 h OR l) # bs'"
    by (auto simp: result_simps)
  from 1 hl rest have "event_id_display bs' = rest" by simp
  moreover from hex_value_inv [OF hl(1)] hex_value_inv [OF hl(2)]
  have "hex_byte (push_bit 4 h OR l) = [a, b]"
    by (simp only: hex_byte_def nibbles_split)
  ultimately show ?case by (simp add: bs event_id_display_def)
qed (auto simp: event_id_display_def)

interpretation event_id: canonical_codec event_id_display event_id_from_str event_id_ok
proof unfold_locales
  fix bs assume "event_id_ok bs"
  then show "event_id_from_str (event_id_display bs) = Inr bs"
    by (simp add: event_id_from_str_def event_id_ok_def hex_pairs_display)
next
  fix s bs assume "event_id_from_str s = Inr bs"
  then have "length s = 32" "hex_pairs s = Inr bs"
    by (auto simp: event_id_from_str_def split: if_splits)
  moreover from this have "event_id_display bs = s" by (simp add: hex_pairs_inv)
  ultimately show "event_id_ok bs \<and> event_id_display bs = s"
    using length_event_id_display [of bs] by (simp add: event_id_ok_def)
qed

end
