(* ===== verification/Spool_Frame.thy ===== *)
theory Spool_Frame
  imports Identity
begin

text \<open>
  The value types, the errors and the durable byte formats of the local admission spool
  (\<open>elucid-ingestion/src/model.rs\<close>, \<open>error.rs\<close>, \<open>frame.rs\<close>, \<open>checkpoint.rs\<close>): one committed
  batch is a frame of a 148-byte header, the body and a 48-byte footer; the checkpoint is a file
  of 52 bytes.

  BLAKE3, the version fields of a UUID and the range of chrono's UTC timestamps belong to
  packages the code calls; they are the fields of \<open>spool_env\<close>. The only law used of them is that
  a digest has 32 bytes (\<open>digest_ok\<close>).
\<close>

section \<open>Errors\<close>

datatype spool_error_kind = CapacityExhausted | BatchLimitExceeded | Corrupt | Unavailable

datatype spool_error_source =
    SourceCapacity nat nat
  | SourceBatchLimit nat nat
  | SourceCorrupt string
  | SourceIo string
  | SourceInvariant string
  | SourceTask

datatype spool_error = SpoolError (error_kind: spool_error_kind) (error_source: spool_error_source)

definition capacity_error :: "nat \<Rightarrow> nat \<Rightarrow> spool_error" where
  "capacity_error required_bytes available_bytes =
     SpoolError CapacityExhausted (SourceCapacity required_bytes available_bytes)"

definition batch_limit_error :: "nat \<Rightarrow> nat \<Rightarrow> spool_error" where
  "batch_limit_error actual_bytes maximum_bytes =
     SpoolError BatchLimitExceeded (SourceBatchLimit actual_bytes maximum_bytes)"

definition io_error :: "string \<Rightarrow> spool_error" where
  "io_error operation = SpoolError Unavailable (SourceIo operation)"

definition corrupt :: "string \<Rightarrow> spool_error" where
  "corrupt message = SpoolError Corrupt (SourceCorrupt message)"

definition invariant :: "string \<Rightarrow> spool_error" where
  "invariant message = SpoolError Unavailable (SourceInvariant message)"

definition task_error :: spool_error where
  "task_error = SpoolError Unavailable SourceTask"

lemma error_kind_simps [simp]:
  "error_kind (capacity_error r a) = CapacityExhausted"
  "error_kind (batch_limit_error n m) = BatchLimitExceeded"
  "error_kind (io_error s) = Unavailable"
  "error_kind (corrupt s) = Corrupt"
  "error_kind (invariant s) = Unavailable"
  "error_kind task_error = Unavailable"
  by (simp_all add: capacity_error_def batch_limit_error_def io_error_def corrupt_def
      invariant_def task_error_def)

section \<open>Values\<close>

datatype spool_model_error =
  CapacityMustBePositive | AppendBodyLimitMustBePositive | IngestionTimeOutOfRange

record spool_env = uuid_env +
  blake3 :: "bytes \<Rightarrow> bytes"
  timestamp_millis_in_range :: "int \<Rightarrow> bool"

definition digest_ok :: "'x spool_env_scheme \<Rightarrow> bool" where
  "digest_ok X \<longleftrightarrow> (\<forall>bs. length (blake3 X bs) = 32)"

definition spool_capacity_new :: "nat \<Rightarrow> spool_model_error + nat" where
  "spool_capacity_new value = (if value = 0 then Inl CapacityMustBePositive else Inr value)"

definition append_body_limit_new :: "nat \<Rightarrow> spool_model_error + nat" where
  "append_body_limit_new value =
     (if value = 0 then Inl AppendBodyLimitMustBePositive else Inr value)"

definition ingestion_time_from_unix_milliseconds ::
  "'x spool_env_scheme \<Rightarrow> int \<Rightarrow> spool_model_error + int" where
  "ingestion_time_from_unix_milliseconds X value =
     (if timestamp_millis_in_range X value then Inr value else Inl IngestionTimeOutOfRange)"

record pinned_catalog_identities =
  pin_source_id :: uuid
  pin_input_id :: uuid
  pin_profile_revision_id :: uuid
  pin_target_schema_id :: uuid

record batch_metadata =
  batch_id :: uuid
  catalog :: pinned_catalog_identities
  ingestion_time :: int

record spool_batch_range =
  range_start :: nat
  range_end :: nat

definition spool_batch_range_new :: "nat \<Rightarrow> nat \<Rightarrow> spool_error + spool_batch_range" where
  "spool_batch_range_new start end_pos =
     (if start \<ge> end_pos
      then Inl (invariant ''spool batch range must be non-empty and ordered'')
      else Inr \<lparr>range_start = start, range_end = end_pos\<rparr>)"

record durable_append =
  da_metadata :: batch_metadata
  da_body_bytes :: nat
  da_body_digest :: bytes
  da_range :: spool_batch_range

record spool_usage =
  capacity_bytes :: nat
  usage_committed_bytes :: nat
  usage_reserved_bytes :: nat
  available_bytes :: nat

definition spool_usage_new :: "nat \<Rightarrow> nat \<Rightarrow> nat \<Rightarrow> spool_error + spool_usage" where
  "spool_usage_new capacity committed reserved =
     sbind (ok_or (checked_add committed reserved) (invariant ''spool usage overflow''))
       (\<lambda>occupied. Inr \<lparr>capacity_bytes = capacity, usage_committed_bytes = committed,
          usage_reserved_bytes = reserved, available_bytes = capacity - occupied\<rparr>)"

datatype maximum_batch_admission = Available | CapacityIsExhausted

record recovery_report =
  report_checkpoint :: nat
  report_committed_batches :: nat
  report_pending_batches :: nat
  report_committed_bytes :: nat
  report_discarded_tail_bytes :: nat
  report_maximum_batch_admission :: maximum_batch_admission

record recovered_batch =
  rb_metadata :: batch_metadata
  rb_body :: bytes
  rb_body_digest :: bytes
  rb_range :: spool_batch_range

text \<open>The invariants of the identity types and of \<open>IngestionTime\<close>, which their constructors check.\<close>

definition metadata_ok :: "'x spool_env_scheme \<Rightarrow> batch_metadata \<Rightarrow> bool" where
  "metadata_ok X m \<longleftrightarrow>
     is_uuid_v7 X (batch_id m) \<and> is_uuid_v7 X (pin_source_id (catalog m)) \<and>
     is_uuid_v7 X (pin_input_id (catalog m)) \<and>
     is_uuid_v7 X (pin_profile_revision_id (catalog m)) \<and>
     is_uuid_v7 X (pin_target_schema_id (catalog m)) \<and>
     in_i64 (ingestion_time m) \<and> timestamp_millis_in_range X (ingestion_time m)"

section \<open>Frames\<close>

definition FRAME_MAGIC :: bytes where
  "FRAME_MAGIC = byte_string ''ELUCSP01''"

definition COMMIT_MAGIC :: bytes where
  "COMMIT_MAGIC = byte_string ''ELUCCM01''"

definition FORMAT_VERSION :: nat where
  "FORMAT_VERSION = 1"

definition HEADER_BYTES :: nat where
  "HEADER_BYTES = 148"

definition FOOTER_BYTES :: nat where
  "FOOTER_BYTES = 48"

definition FRAME_OVERHEAD_BYTES :: nat where
  "FRAME_OVERHEAD_BYTES = HEADER_BYTES + FOOTER_BYTES"

lemmas frame_constants =
  FORMAT_VERSION_def HEADER_BYTES_def FOOTER_BYTES_def FRAME_OVERHEAD_BYTES_def

lemma length_magics [simp]: "length FRAME_MAGIC = 8" "length COMMIT_MAGIC = 8"
  by (simp_all add: FRAME_MAGIC_def COMMIT_MAGIC_def)

definition can_reserve :: "nat \<Rightarrow> nat \<Rightarrow> bool" where
  "can_reserve capacity body_limit =
     (case checked_add body_limit FRAME_OVERHEAD_BYTES of
        None \<Rightarrow> False | Some required_bytes \<Rightarrow> required_bytes \<le> capacity)"

definition reserved_frame_bytes :: "nat \<Rightarrow> spool_error + nat" where
  "reserved_frame_bytes limit =
     ok_or (checked_add limit FRAME_OVERHEAD_BYTES) (invariant ''spool reservation size overflow'')"

record prepared_frame =
  pf_header :: bytes
  pf_footer :: bytes
  pf_body_bytes :: nat
  pf_body_digest :: bytes
  pf_stored_bytes :: nat

text \<open>The header the code assembles with \<open>extend_from_slice\<close>, field by field.\<close>

definition frame_header :: "batch_metadata \<Rightarrow> nat \<Rightarrow> nat \<Rightarrow> bytes \<Rightarrow> bytes" where
  "frame_header metadata stored_length body_length body_digest =
     FRAME_MAGIC @ u16_to_be_bytes FORMAT_VERSION @ u16_to_be_bytes HEADER_BYTES @
     u64_to_be_bytes stored_length @ u64_to_be_bytes body_length @
     uuid_as_bytes (batch_id metadata) @
     uuid_as_bytes (pin_source_id (catalog metadata)) @
     uuid_as_bytes (pin_input_id (catalog metadata)) @
     uuid_as_bytes (pin_profile_revision_id (catalog metadata)) @
     uuid_as_bytes (pin_target_schema_id (catalog metadata)) @
     i64_to_be_bytes (ingestion_time metadata) @ body_digest"

definition prepared_frame_new ::
  "'x spool_env_scheme \<Rightarrow> batch_metadata \<Rightarrow> bytes \<Rightarrow> spool_error + prepared_frame" where
  "prepared_frame_new X metadata body =
     sbind (ensure (length body \<le> u64_max) (invariant ''batch body length exceeds u64'')) (\<lambda>_.
     sbind (ok_or (checked_add (length body) FRAME_OVERHEAD_BYTES)
              (invariant ''spool frame length overflow'')) (\<lambda>stored_length.
     let body_digest = blake3 X body;
         header = frame_header metadata stored_length (length body) body_digest
     in sbind (ensure (length header = HEADER_BYTES)
                 (invariant ''spool frame header size mismatch'')) (\<lambda>_.
     let frame_digest = blake3 X (header @ body);
         footer = frame_digest @ COMMIT_MAGIC @ u64_to_be_bytes stored_length
     in sbind (ensure (length footer = FOOTER_BYTES)
                 (invariant ''spool frame footer size mismatch'')) (\<lambda>_.
     Inr \<lparr>pf_header = header, pf_footer = footer, pf_body_bytes = length body,
          pf_body_digest = body_digest, pf_stored_bytes = stored_length\<rparr>))))"

record decoded_header =
  dh_raw :: bytes
  dh_metadata :: batch_metadata
  dh_body_bytes :: nat
  dh_body_digest :: bytes
  dh_stored_bytes :: nat

definition read_array :: "nat \<Rightarrow> bytes \<Rightarrow> nat \<Rightarrow> spool_error + bytes" where
  "read_array n bs offset =
     sbind (ok_or (checked_add offset n) (invariant ''fixed-size spool field offset overflow''))
       (\<lambda>end_pos. if end_pos \<le> length bs then Inr (take n (drop offset bs))
             else Inl (invariant ''fixed-size spool field is truncated''))"

definition read_uuid :: "bytes \<Rightarrow> nat \<Rightarrow> spool_error + uuid" where
  "read_uuid bs offset = sbind (read_array 16 bs offset) (\<lambda>b. Inr (uuid_from_bytes b))"

definition read_u16 :: "bytes \<Rightarrow> nat \<Rightarrow> spool_error + nat" where
  "read_u16 bs offset = sbind (read_array 2 bs offset) (\<lambda>b. Inr (be_nat b))"

definition read_u64 :: "bytes \<Rightarrow> nat \<Rightarrow> spool_error + nat" where
  "read_u64 bs offset = sbind (read_array 8 bs offset) (\<lambda>b. Inr (be_nat b))"

definition read_i64 :: "bytes \<Rightarrow> nat \<Rightarrow> spool_error + int" where
  "read_i64 bs offset = sbind (read_array 8 bs offset) (\<lambda>b. Inr (i64_from_be_bytes b))"

definition validate_lengths :: "nat \<Rightarrow> nat \<Rightarrow> nat \<Rightarrow> spool_error + unit" where
  "validate_lengths stored_bytes body_bytes body_limit =
     (if body_bytes > body_limit
      then Inl (corrupt ''spool frame body exceeds the configured recovery bound'')
      else sbind (ok_or (checked_add body_bytes FRAME_OVERHEAD_BYTES)
                    (corrupt ''spool frame length overflows u64''))
        (\<lambda>expected_stored_bytes. if stored_bytes \<noteq> expected_stored_bytes
           then Inl (corrupt ''spool frame lengths are inconsistent'') else Inr ()))"

definition read_identity ::
  "'x spool_env_scheme \<Rightarrow> bytes \<Rightarrow> nat \<Rightarrow> string \<Rightarrow> spool_error + uuid" where
  "read_identity X bs offset message =
     sbind (read_uuid bs offset) (\<lambda>u. map_err (\<lambda>_. corrupt message) (uuid_v7_new X u))"

definition read_ingestion_time ::
  "'x spool_env_scheme \<Rightarrow> bytes \<Rightarrow> nat \<Rightarrow> string \<Rightarrow> spool_error + int" where
  "read_ingestion_time X bs offset message =
     sbind (read_i64 bs offset)
       (\<lambda>t. map_err (\<lambda>_. corrupt message) (ingestion_time_from_unix_milliseconds X t))"

definition decode_header ::
  "'x spool_env_scheme \<Rightarrow> bytes \<Rightarrow> nat \<Rightarrow> spool_error + decoded_header" where
  "decode_header X raw body_limit =
     (if take 8 raw \<noteq> FRAME_MAGIC then Inl (corrupt ''spool frame magic is invalid'') else
      sbind (read_u16 raw 8) (\<lambda>version.
      if version \<noteq> FORMAT_VERSION then Inl (corrupt ''spool frame version is unsupported'') else
      sbind (read_u16 raw 10) (\<lambda>header_length.
      if header_length \<noteq> HEADER_BYTES
      then Inl (corrupt ''spool frame header length is invalid'') else
      sbind (read_u64 raw 12) (\<lambda>stored_bytes.
      sbind (read_u64 raw 20) (\<lambda>body_length.
      sbind (validate_lengths stored_bytes body_length body_limit) (\<lambda>_.
      sbind (read_identity X raw 28 ''spool batch identity is not UUIDv7'') (\<lambda>b.
      sbind (read_identity X raw 44 ''spool source identity is not UUIDv7'') (\<lambda>s.
      sbind (read_identity X raw 60 ''spool input identity is not UUIDv7'') (\<lambda>i.
      sbind (read_identity X raw 76 ''spool profile identity is not UUIDv7'') (\<lambda>p.
      sbind (read_identity X raw 92 ''spool schema identity is not UUIDv7'') (\<lambda>t.
      sbind (read_ingestion_time X raw 108 ''spool ingestion time is outside the UTC range'') (\<lambda>time.
      sbind (read_array 32 raw 116) (\<lambda>body_digest.
      Inr \<lparr>dh_raw = raw,
           dh_metadata = \<lparr>batch_id = b,
              catalog = \<lparr>pin_source_id = s, pin_input_id = i, pin_profile_revision_id = p,
                         pin_target_schema_id = t\<rparr>,
              ingestion_time = time\<rparr>,
           dh_body_bytes = body_length, dh_body_digest = body_digest,
           dh_stored_bytes = stored_bytes\<rparr>))))))))))))) "

text \<open>A check that is made only when the prefix is long enough to hold the field.\<close>

definition when_complete :: "bytes \<Rightarrow> nat \<Rightarrow> spool_error + unit \<Rightarrow> spool_error + unit" where
  "when_complete prefix n check = (if length prefix \<ge> n then check else Inr ())"

definition validate_incomplete_header ::
  "'x spool_env_scheme \<Rightarrow> bytes \<Rightarrow> nat \<Rightarrow> spool_error + unit" where
  "validate_incomplete_header X prefix body_limit =
     (let magic_bytes = min (length prefix) (length FRAME_MAGIC) in
      if take magic_bytes prefix \<noteq> take magic_bytes FRAME_MAGIC
      then Inl (corrupt ''incomplete spool tail is not a frame prefix'') else
      sbind (when_complete prefix 10 (sbind (read_u16 prefix 8) (\<lambda>version.
        ensure (version = FORMAT_VERSION)
          (corrupt ''incomplete spool tail has an unsupported version'')))) (\<lambda>_.
      sbind (when_complete prefix 12 (sbind (read_u16 prefix 10) (\<lambda>header_length.
        ensure (header_length = HEADER_BYTES)
          (corrupt ''incomplete spool tail has invalid framing'')))) (\<lambda>_.
      sbind (when_complete prefix 28 (sbind (read_u64 prefix 12) (\<lambda>stored_bytes.
        sbind (read_u64 prefix 20) (\<lambda>body_bytes.
          validate_lengths stored_bytes body_bytes body_limit)))) (\<lambda>_.
      sbind (when_complete prefix 44 (sbind
        (read_identity X prefix 28 ''incomplete tail batch identity is not UUIDv7'')
          (\<lambda>_. Inr ()))) (\<lambda>_.
      sbind (when_complete prefix 60 (sbind
        (read_identity X prefix 44 ''incomplete tail source identity is not UUIDv7'')
          (\<lambda>_. Inr ()))) (\<lambda>_.
      sbind (when_complete prefix 76 (sbind
        (read_identity X prefix 60 ''incomplete tail input identity is not UUIDv7'')
          (\<lambda>_. Inr ()))) (\<lambda>_.
      sbind (when_complete prefix 92 (sbind
        (read_identity X prefix 76 ''incomplete tail profile identity is not UUIDv7'')
          (\<lambda>_. Inr ()))) (\<lambda>_.
      sbind (when_complete prefix 108 (sbind
        (read_identity X prefix 92 ''incomplete tail schema identity is not UUIDv7'')
          (\<lambda>_. Inr ()))) (\<lambda>_.
      when_complete prefix 116 (sbind
        (read_ingestion_time X prefix 108
           ''incomplete tail ingestion time is outside the UTC range'')
          (\<lambda>_. Inr ())))))))))))"

definition validate_digests_and_footer ::
  "decoded_header \<Rightarrow> bytes \<Rightarrow> bytes \<Rightarrow> bytes \<Rightarrow> spool_error + unit" where
  "validate_digests_and_footer header calculated_body_digest calculated_frame_digest footer =
     (if dh_body_digest header \<noteq> calculated_body_digest
      then Inl (corrupt ''spool body digest does not match'')
      else if take 32 footer \<noteq> calculated_frame_digest
      then Inl (corrupt ''spool frame digest does not match'')
      else if take 8 (drop 32 footer) \<noteq> COMMIT_MAGIC
      then Inl (corrupt ''spool commit footer is invalid'')
      else sbind (read_u64 footer 40) (\<lambda>stored_bytes.
        if stored_bytes \<noteq> dh_stored_bytes header
        then Inl (corrupt ''spool footer length does not match'') else Inr ()))"

section \<open>Fields of a frame\<close>

text \<open>The complete bytes of a committed frame.\<close>

definition frame_bytes :: "'x spool_env_scheme \<Rightarrow> batch_metadata \<Rightarrow> bytes \<Rightarrow> bytes" where
  "frame_bytes X metadata body =
     (case prepared_frame_new X metadata body of
        Inl _ \<Rightarrow> [] | Inr f \<Rightarrow> pf_header f @ body @ pf_footer f)"

text \<open>What a body needs so that its frame can be built and read back under a limit.\<close>

definition batch_ok :: "'x spool_env_scheme \<Rightarrow> nat \<Rightarrow> batch_metadata \<times> bytes \<Rightarrow> bool" where
  "batch_ok X body_limit mb \<longleftrightarrow>
     digest_ok X \<and> metadata_ok X (fst mb) \<and> length (snd mb) \<le> body_limit \<and>
     length (snd mb) + FRAME_OVERHEAD_BYTES \<le> u64_max"

definition header_of :: "'x spool_env_scheme \<Rightarrow> batch_metadata \<Rightarrow> bytes \<Rightarrow> bytes" where
  "header_of X metadata body =
     frame_header metadata (length body + FRAME_OVERHEAD_BYTES) (length body) (blake3 X body)"

definition footer_of :: "'x spool_env_scheme \<Rightarrow> batch_metadata \<Rightarrow> bytes \<Rightarrow> bytes" where
  "footer_of X metadata body =
     blake3 X (header_of X metadata body @ body) @ COMMIT_MAGIC @
     u64_to_be_bytes (length body + FRAME_OVERHEAD_BYTES)"

lemma length_header_of: "digest_ok X \<Longrightarrow> length (header_of X m body) = HEADER_BYTES"
  by (simp add: header_of_def frame_header_def digest_ok_def frame_constants)

lemma length_footer_of: "digest_ok X \<Longrightarrow> length (footer_of X m body) = FOOTER_BYTES"
  by (simp add: footer_of_def digest_ok_def frame_constants)

lemma prepared_frame_new_ok:
  assumes "digest_ok X" "length body + FRAME_OVERHEAD_BYTES \<le> u64_max"
  shows "prepared_frame_new X m body =
     Inr \<lparr>pf_header = header_of X m body, pf_footer = footer_of X m body,
          pf_body_bytes = length body, pf_body_digest = blake3 X body,
          pf_stored_bytes = length body + FRAME_OVERHEAD_BYTES\<rparr>"
proof -
  have "checked_add (length body) FRAME_OVERHEAD_BYTES = Some (length body + FRAME_OVERHEAD_BYTES)"
    using assms(2) by (simp add: result_simps)
  with length_header_of [OF assms(1), of m body] length_footer_of [OF assms(1), of m body] assms(2)
  show ?thesis
    by (simp add: prepared_frame_new_def Let_def header_of_def footer_of_def)
qed

lemma prepared_frame_new_overflow:
  assumes "digest_ok X" "u64_max < length body + FRAME_OVERHEAD_BYTES"
  shows "\<exists>e. prepared_frame_new X m body = Inl e \<and> error_kind e = Unavailable"
  using assms by (cases "length body \<le> u64_max")
    (auto simp: prepared_frame_new_def checked_add_def Let_def)

lemma frame_bytes_eq:
  assumes "batch_ok X l (m, body)"
  shows "frame_bytes X m body = header_of X m body @ body @ footer_of X m body"
  using assms by (simp add: frame_bytes_def batch_ok_def prepared_frame_new_ok)

lemma length_frame_bytes:
  assumes "batch_ok X l (m, body)"
  shows "length (frame_bytes X m body) = length body + FRAME_OVERHEAD_BYTES"
  using assms
  by (simp add: frame_bytes_eq [OF assms] length_header_of length_footer_of batch_ok_def frame_constants)

lemma read_array_ok:
  "offset + n \<le> length bs \<Longrightarrow> length bs \<le> u64_max \<Longrightarrow>
   read_array n bs offset = Inr (take n (drop offset bs))"
  by (simp add: read_array_def checked_add_def)

lemma u64_max_ge_header [simp]: "148 \<le> u64_max" "48 \<le> u64_max"
  by (simp_all add: u64_max_def)

text \<open>A field that lies inside a prefix is read from the prefix as from the whole.\<close>

lemma read_array_take:
  "offset + n \<le> k \<Longrightarrow> k \<le> length bs \<Longrightarrow> length bs \<le> u64_max \<Longrightarrow>
   read_array n (take k bs) offset = read_array n bs offset"
  by (simp add: read_array_ok take_drop min_def add.commute)

lemma header_fields:
  assumes "batch_ok X l (m, body)"
  defines "h \<equiv> header_of X m body"
  shows "take 8 h = FRAME_MAGIC"
    and "read_u16 h 8 = Inr FORMAT_VERSION"
    and "read_u16 h 10 = Inr HEADER_BYTES"
    and "read_u64 h 12 = Inr (length body + FRAME_OVERHEAD_BYTES)"
    and "read_u64 h 20 = Inr (length body)"
    and "read_identity X h 28 msg = Inr (batch_id m)"
    and "read_identity X h 44 msg = Inr (pin_source_id (catalog m))"
    and "read_identity X h 60 msg = Inr (pin_input_id (catalog m))"
    and "read_identity X h 76 msg = Inr (pin_profile_revision_id (catalog m))"
    and "read_identity X h 92 msg = Inr (pin_target_schema_id (catalog m))"
    and "read_ingestion_time X h 108 msg = Inr (ingestion_time m)"
    and "read_array 32 h 116 = Inr (blake3 X body)"
proof -
  have len: "length h = 148"
    using assms by (simp add: length_header_of batch_ok_def frame_constants)
  have digest: "length (blake3 X body) = 32"
    using assms by (simp add: batch_ok_def digest_ok_def)
  have stored: "length body + FRAME_OVERHEAD_BYTES \<le> u64_max"
    using assms by (simp add: batch_ok_def)
  note field = read_array_ok [of _ _ h, unfolded len, simplified]
  note h = h_def header_of_def frame_header_def
  show "take 8 h = FRAME_MAGIC" by (simp add: h)
  show "read_u16 h 8 = Inr FORMAT_VERSION"
    by (simp add: read_u16_def field) (simp add: h u16_from_to_be_bytes frame_constants)
  show "read_u16 h 10 = Inr HEADER_BYTES"
    by (simp add: read_u16_def field) (simp add: h u16_from_to_be_bytes frame_constants)
  show "read_u64 h 12 = Inr (length body + FRAME_OVERHEAD_BYTES)"
    using stored by (simp add: read_u64_def field) (simp add: h u64_from_to_be_bytes)
  show "read_u64 h 20 = Inr (length body)"
    using stored by (simp add: read_u64_def field) (simp add: h u64_from_to_be_bytes)
  have ids: "is_uuid_v7 X (batch_id m)" "is_uuid_v7 X (pin_source_id (catalog m))"
    "is_uuid_v7 X (pin_input_id (catalog m))" "is_uuid_v7 X (pin_profile_revision_id (catalog m))"
    "is_uuid_v7 X (pin_target_schema_id (catalog m))"
    and time: "in_i64 (ingestion_time m)" "timestamp_millis_in_range X (ingestion_time m)"
    using assms by (auto simp: batch_ok_def metadata_ok_def)
  show "read_identity X h 28 msg = Inr (batch_id m)"
    by (simp add: read_identity_def read_uuid_def field) (simp add: h uuid_v7_new_ok ids)
  show "read_identity X h 44 msg = Inr (pin_source_id (catalog m))"
    by (simp add: read_identity_def read_uuid_def field) (simp add: h uuid_v7_new_ok ids)
  show "read_identity X h 60 msg = Inr (pin_input_id (catalog m))"
    by (simp add: read_identity_def read_uuid_def field) (simp add: h uuid_v7_new_ok ids)
  show "read_identity X h 76 msg = Inr (pin_profile_revision_id (catalog m))"
    by (simp add: read_identity_def read_uuid_def field) (simp add: h uuid_v7_new_ok ids)
  show "read_identity X h 92 msg = Inr (pin_target_schema_id (catalog m))"
    by (simp add: read_identity_def read_uuid_def field) (simp add: h uuid_v7_new_ok ids)
  show "read_ingestion_time X h 108 msg = Inr (ingestion_time m)"
    by (simp add: read_ingestion_time_def read_i64_def field)
      (simp add: h i64_from_to_be_bytes time ingestion_time_from_unix_milliseconds_def)
  show "read_array 32 h 116 = Inr (blake3 X body)"
    by (simp add: field) (simp add: h digest)
qed

section \<open>Reading a frame back\<close>

definition decoded_of :: "'x spool_env_scheme \<Rightarrow> batch_metadata \<Rightarrow> bytes \<Rightarrow> decoded_header" where
  "decoded_of X m body =
     \<lparr>dh_raw = header_of X m body, dh_metadata = m, dh_body_bytes = length body,
      dh_body_digest = blake3 X body, dh_stored_bytes = length body + FRAME_OVERHEAD_BYTES\<rparr>"

lemma validate_lengths_ok:
  "validate_lengths s b l = Inr u \<longleftrightarrow> b \<le> l \<and> s = b + FRAME_OVERHEAD_BYTES \<and> s \<le> u64_max"
  by (auto simp: validate_lengths_def checked_add_def)

lemma decode_header_of:
  assumes "batch_ok X l (m, body)"
  shows "decode_header X (header_of X m body) l = Inr (decoded_of X m body)"
proof -
  have "validate_lengths (length body + FRAME_OVERHEAD_BYTES) (length body) l = Inr ()"
    using assms by (simp add: validate_lengths_ok batch_ok_def)
  then show ?thesis
    by (simp add: decode_header_def header_fields [OF assms] decoded_of_def)
qed

lemma validate_footer_of:
  assumes "batch_ok X l (m, body)"
  shows "validate_digests_and_footer (decoded_of X m body) (blake3 X body)
           (blake3 X (header_of X m body @ body)) (footer_of X m body) = Inr ()"
proof -
  have d: "\<And>bs. length (blake3 X bs) = 32" and s: "length body + FRAME_OVERHEAD_BYTES \<le> u64_max"
    using assms by (auto simp: batch_ok_def digest_ok_def)
  have "length (footer_of X m body) = 48"
    using assms by (simp add: length_footer_of batch_ok_def frame_constants)
  then have "read_u64 (footer_of X m body) 40 = Inr (length body + FRAME_OVERHEAD_BYTES)"
    using d s by (simp add: read_u64_def read_array_ok) (simp add: footer_of_def u64_from_to_be_bytes)
  with d show ?thesis
    by (simp add: validate_digests_and_footer_def decoded_of_def) (simp add: footer_of_def)
qed

text \<open>Every proper prefix of a header passes the check that recovery makes of an incomplete tail.\<close>

lemma validate_incomplete_header_of:
  assumes ok: "batch_ok X l (m, body)" and k: "k \<le> HEADER_BYTES"
  shows "validate_incomplete_header X (take k (header_of X m body)) l = Inr ()"
proof -
  let ?h = "header_of X m body"
  have len: "length ?h = 148"
    using ok by (simp add: length_header_of batch_ok_def frame_constants)
  have k148: "k \<le> 148" using k by (simp add: frame_constants)
  have prefix: "take (min k 8) (take k ?h) = take (min k 8) FRAME_MAGIC"
    using header_fields(1) [OF ok] by (metis min.cobounded1 min.left_idem min_def take_take)
  have rd: "\<And>n offset. offset + n \<le> k \<Longrightarrow> read_array n (take k ?h) offset = read_array n ?h offset"
    using k148 by (simp add: read_array_take len)
  have "validate_lengths (length body + FRAME_OVERHEAD_BYTES) (length body) l = Inr ()"
    using ok by (simp add: validate_lengths_ok batch_ok_def)
  then show ?thesis
    using prefix k148 len header_fields [OF ok]
    by (simp add: validate_incomplete_header_def Let_def when_complete_def min_absorb2
        read_u16_def read_u64_def read_i64_def read_uuid_def read_identity_def
        read_ingestion_time_def rd)
qed

text \<open>
  The converse: an accepted header is the canonical header of what was decoded, so the format
  has one spelling for each value.
\<close>

lemma i64_to_from_be_bytes:
  assumes "length bs = 8" shows "i64_to_be_bytes (i64_from_be_bytes bs) = bs"
proof -
  have lt: "be_nat bs < 2 ^ 64" using be_nat_less [of bs] assms by simp
  have "nat (i64_from_be_bytes bs mod 2 ^ 64) = be_nat bs"
  proof (cases "int (be_nat bs) < 2 ^ 63")
    case True
    with lt show ?thesis by (simp add: i64_from_be_bytes_def Let_def)
  next
    case False
    have "(int (be_nat bs) - 2 ^ 64) mod 2 ^ 64 = int (be_nat bs) mod 2 ^ 64" by simp
    with False lt show ?thesis by (simp add: i64_from_be_bytes_def Let_def)
  qed
  then show ?thesis using be_bytes_be_nat [of bs] assms by (simp add: i64_to_be_bytes_def)
qed

lemma uuid_as_from_bytes:
  assumes "length bs = 16" shows "uuid_as_bytes (uuid_from_bytes bs) = bs"
proof -
  have "be_nat bs < 2 ^ 128" using be_nat_less [of bs] assms by simp
  then have "unat (uuid_from_bytes bs) = be_nat bs"
    by (simp add: uuid_from_bytes_def unat_of_nat)
  then show ?thesis using be_bytes_be_nat [of bs] assms by (simp add: uuid_as_bytes_def)
qed

lemma read_array_Inr:
  "read_array n bs off = Inr x \<longleftrightarrow> x = take n (drop off bs) \<and> off + n \<le> length bs \<and> off + n \<le> u64_max"
  by (auto simp: read_array_def checked_add_def)

lemma split_field: "drop a raw = take n (drop a raw) @ drop (a + n) raw"
  by (metis append_take_drop_id drop_drop add.commute)


lemma in_i64_from_be_bytes: "length bs = 8 \<Longrightarrow> in_i64 (i64_from_be_bytes bs)"
  using be_nat_less [of bs] by (simp add: i64_from_be_bytes_def in_i64_def Let_def)

lemmas read_field_defs =
  read_u16_def read_u64_def read_i64_def read_uuid_def read_identity_def read_ingestion_time_def
  ingestion_time_from_unix_milliseconds_def

lemma decode_header_inv:
  assumes dec: "decode_header X raw l = Inr d" and len: "length raw = HEADER_BYTES"
  shows "dh_raw d = raw"
    and "metadata_ok X (dh_metadata d)"
    and "dh_body_bytes d \<le> l"
    and "dh_stored_bytes d = dh_body_bytes d + FRAME_OVERHEAD_BYTES"
    and "dh_stored_bytes d \<le> u64_max"
    and "length (dh_body_digest d) = 32"
    and "raw = frame_header (dh_metadata d) (dh_stored_bytes d) (dh_body_bytes d) (dh_body_digest d)"
proof -
  have len148: "length raw = 148" using len by (simp add: frame_constants)
  define fld where "fld a n = take n (drop a raw)" for a n
  have flen: "a + n \<le> 148 \<Longrightarrow> length (fld a n) = n" for a n
    using len148 by (simp add: fld_def)
  have parts: "dh_raw d = raw \<and> take 8 raw = FRAME_MAGIC \<and> be_nat (fld 8 2) = FORMAT_VERSION \<and>
    be_nat (fld 10 2) = HEADER_BYTES \<and> dh_stored_bytes d = be_nat (fld 12 8) \<and>
    dh_body_bytes d = be_nat (fld 20 8) \<and>
    validate_lengths (be_nat (fld 12 8)) (be_nat (fld 20 8)) l = Inr () \<and>
    batch_id (dh_metadata d) = uuid_from_bytes (fld 28 16) \<and>
    pin_source_id (catalog (dh_metadata d)) = uuid_from_bytes (fld 44 16) \<and>
    pin_input_id (catalog (dh_metadata d)) = uuid_from_bytes (fld 60 16) \<and>
    pin_profile_revision_id (catalog (dh_metadata d)) = uuid_from_bytes (fld 76 16) \<and>
    pin_target_schema_id (catalog (dh_metadata d)) = uuid_from_bytes (fld 92 16) \<and>
    ingestion_time (dh_metadata d) = i64_from_be_bytes (fld 108 8) \<and>
    dh_body_digest d = fld 116 32 \<and> is_uuid_v7 X (uuid_from_bytes (fld 28 16)) \<and>
    is_uuid_v7 X (uuid_from_bytes (fld 44 16)) \<and> is_uuid_v7 X (uuid_from_bytes (fld 60 16)) \<and>
    is_uuid_v7 X (uuid_from_bytes (fld 76 16)) \<and> is_uuid_v7 X (uuid_from_bytes (fld 92 16)) \<and>
    timestamp_millis_in_range X (i64_from_be_bytes (fld 108 8))"
    using dec unfolding decode_header_def read_field_defs
    by (clarsimp simp: result_simps read_array_Inr fld_def split: if_split_asm)
  have body: "raw = fld 0 8 @ fld 8 2 @ fld 10 2 @ fld 12 8 @ fld 20 8 @ fld 28 16 @ fld 44 16 @
      fld 60 16 @ fld 76 16 @ fld 92 16 @ fld 108 8 @ fld 116 32"
    using len148 split_field [of 0 raw 8] split_field [of 8 raw 2] split_field [of 10 raw 2]
      split_field [of 12 raw 8] split_field [of 20 raw 8] split_field [of 28 raw 16]
      split_field [of 44 raw 16] split_field [of 60 raw 16] split_field [of 76 raw 16]
      split_field [of 92 raw 16] split_field [of 108 raw 8] split_field [of 116 raw 32]
    by (simp add: fld_def)
  have ints: "u16_to_be_bytes (be_nat (fld 8 2)) = fld 8 2"
    "u16_to_be_bytes (be_nat (fld 10 2)) = fld 10 2"
    "u64_to_be_bytes (be_nat (fld 12 8)) = fld 12 8" "u64_to_be_bytes (be_nat (fld 20 8)) = fld 20 8"
    using be_bytes_be_nat [of "fld 8 2"] be_bytes_be_nat [of "fld 10 2"]
      be_bytes_be_nat [of "fld 12 8"] be_bytes_be_nat [of "fld 20 8"]
    by (simp_all add: flen u16_to_be_bytes_def u64_to_be_bytes_def)
  show "dh_raw d = raw" using parts by simp
  show "metadata_ok X (dh_metadata d)"
    using parts by (simp add: metadata_ok_def in_i64_from_be_bytes flen)
  show "dh_body_bytes d \<le> l" "dh_stored_bytes d = dh_body_bytes d + FRAME_OVERHEAD_BYTES"
    "dh_stored_bytes d \<le> u64_max" using parts by (simp_all add: validate_lengths_ok)
  show "length (dh_body_digest d) = 32" using parts by (simp add: flen)
  have "frame_header (dh_metadata d) (dh_stored_bytes d) (dh_body_bytes d) (dh_body_digest d) =
      fld 0 8 @ fld 8 2 @ fld 10 2 @ fld 12 8 @ fld 20 8 @ fld 28 16 @ fld 44 16 @
      fld 60 16 @ fld 76 16 @ fld 92 16 @ fld 108 8 @ fld 116 32"
    using parts ints
    by (simp add: frame_header_def uuid_as_from_bytes i64_to_from_be_bytes flen) (simp add: fld_def)
  with body show
    "raw = frame_header (dh_metadata d) (dh_stored_bytes d) (dh_body_bytes d) (dh_body_digest d)"
    by simp
qed

section \<open>The checkpoint file\<close>

definition CHECKPOINT_MAGIC :: bytes where
  "CHECKPOINT_MAGIC = byte_string ''ELUCKP01''"

definition CHECKPOINT_VERSION :: nat where
  "CHECKPOINT_VERSION = 1"

definition CHECKPOINT_PREFIX_BYTES :: nat where
  "CHECKPOINT_PREFIX_BYTES = 20"

definition CHECKPOINT_BYTES :: nat where
  "CHECKPOINT_BYTES = 52"

lemmas checkpoint_constants =
  CHECKPOINT_VERSION_def CHECKPOINT_PREFIX_BYTES_def CHECKPOINT_BYTES_def

definition checkpoint_encode :: "'x spool_env_scheme \<Rightarrow> nat \<Rightarrow> bytes" where
  "checkpoint_encode X position =
     (let prefix = CHECKPOINT_MAGIC @ u16_to_be_bytes CHECKPOINT_VERSION @
                   u16_to_be_bytes CHECKPOINT_BYTES @ u64_to_be_bytes position
      in prefix @ blake3 X prefix)"

definition checkpoint_decode :: "'x spool_env_scheme \<Rightarrow> bytes \<Rightarrow> spool_error + nat" where
  "checkpoint_decode X bs =
     (if take 8 bs \<noteq> CHECKPOINT_MAGIC
      then Inl (corrupt ''spool checkpoint magic is invalid'')
      else if be_nat (take 2 (drop 8 bs)) \<noteq> CHECKPOINT_VERSION
      then Inl (corrupt ''spool checkpoint version is unsupported'')
      else if be_nat (take 2 (drop 10 bs)) \<noteq> CHECKPOINT_BYTES
      then Inl (corrupt ''spool checkpoint framing is invalid'')
      else if drop CHECKPOINT_PREFIX_BYTES bs \<noteq> blake3 X (take CHECKPOINT_PREFIX_BYTES bs)
      then Inl (corrupt ''spool checkpoint digest does not match'')
      else Inr (be_nat (take 8 (drop 12 bs))))"

definition checkpoint_load :: "'x spool_env_scheme \<Rightarrow> bytes option \<Rightarrow> spool_error + nat" where
  "checkpoint_load X file =
     (case file of None \<Rightarrow> Inl (corrupt ''spool checkpoint is missing'')
      | Some bs \<Rightarrow> if length bs \<noteq> CHECKPOINT_BYTES
          then Inl (corrupt ''spool checkpoint length is invalid'') else checkpoint_decode X bs)"

lemma length_checkpoint_magic [simp]: "length CHECKPOINT_MAGIC = 8"
  by (simp add: CHECKPOINT_MAGIC_def)

lemma length_checkpoint_encode: "digest_ok X \<Longrightarrow> length (checkpoint_encode X p) = CHECKPOINT_BYTES"
  by (simp add: checkpoint_encode_def Let_def digest_ok_def checkpoint_constants)

lemma checkpoint_load_encode:
  assumes "digest_ok X" "p \<le> u64_max"
  shows "checkpoint_load X (Some (checkpoint_encode X p)) = Inr p"
proof -
  have "checkpoint_decode X (checkpoint_encode X p) = Inr p"
    using assms
    by (simp add: checkpoint_decode_def checkpoint_encode_def Let_def checkpoint_constants
        u16_from_to_be_bytes u64_from_to_be_bytes)
  then show ?thesis using assms(1) by (simp add: checkpoint_load_def length_checkpoint_encode)
qed

lemma checkpoint_load_inv:
  assumes "checkpoint_load X (Some bs) = Inr p"
  shows "p \<le> u64_max \<and> bs = checkpoint_encode X p"
proof -
  from assms have len: "length bs = 52" and m: "take 8 bs = CHECKPOINT_MAGIC"
    and v: "be_nat (take 2 (drop 8 bs)) = 1" and f: "be_nat (take 2 (drop 10 bs)) = 52"
    and d: "drop 20 bs = blake3 X (take 20 bs)" and p: "p = be_nat (take 8 (drop 12 bs))"
    by (auto simp: checkpoint_load_def checkpoint_decode_def checkpoint_constants split: if_splits)
  have fields: "be_bytes 2 1 = take 2 (drop 8 bs)" "be_bytes 2 52 = take 2 (drop 10 bs)"
    "be_bytes 8 p = take 8 (drop 12 bs)"
    using be_bytes_be_nat [of "take 2 (drop 8 bs)"] be_bytes_be_nat [of "take 2 (drop 10 bs)"]
      be_bytes_be_nat [of "take 8 (drop 12 bs)"] len v f p by simp_all
  have pre: "take 20 bs = take 8 bs @ take 2 (drop 8 bs) @ take 2 (drop 10 bs) @ take 8 (drop 12 bs)"
    using take_add [of 8 12 bs] take_add [of 2 10 "drop 8 bs"] take_add [of 2 8 "drop 10 bs"]
    by simp
  have "checkpoint_encode X p = take 20 bs @ blake3 X (take 20 bs)"
    unfolding pre using m fields
    by (simp add: checkpoint_encode_def Let_def checkpoint_constants u16_to_be_bytes_def u64_to_be_bytes_def)
  moreover have "bs = take 20 bs @ drop 20 bs" by simp
  moreover have "p \<le> u64_max"
    using be_nat_less [of "take 8 (drop 12 bs)"] p len by (simp add: u64_max_def)
  ultimately show ?thesis using d by simp
qed

end
