(* ===== verification/Framed_Log.thy ===== *)
theory Framed_Log
  imports Elucid_Prelude
begin

text \<open>
  The interface of an append-only log of framed records that is scanned from its start after a
  crash. The provider says what its scan does at a complete frame, at an incomplete final frame
  and at the end of the file; the client's lemma is that a file made of complete frames and a
  torn last append is recovered exactly.
\<close>

text \<open>The state of a scan after the frames \<open>fs\<close> that start at \<open>p\<close>.\<close>

fun advance_frames ::
  "(nat \<Rightarrow> nat \<Rightarrow> 's \<Rightarrow> 's) \<Rightarrow> ('f \<Rightarrow> bytes) \<Rightarrow> nat \<Rightarrow> 's \<Rightarrow> 'f list \<Rightarrow> 's" where
  "advance_frames adv enc p s [] = s"
| "advance_frames adv enc p s (f # fs) =
     advance_frames adv enc (p + length (enc f)) (adv p (p + length (enc f)) s) fs"

text \<open>The offsets at which the frames start, and the offsets at which they end.\<close>

fun frame_starts :: "('f \<Rightarrow> bytes) \<Rightarrow> nat \<Rightarrow> 'f list \<Rightarrow> nat list" where
  "frame_starts enc p [] = []"
| "frame_starts enc p (f # fs) = p # frame_starts enc (p + length (enc f)) fs"

fun frame_ends :: "('f \<Rightarrow> bytes) \<Rightarrow> nat \<Rightarrow> 'f list \<Rightarrow> nat list" where
  "frame_ends enc p [] = []"
| "frame_ends enc p (f # fs) =
     (p + length (enc f)) # frame_ends enc (p + length (enc f)) fs"

lemma length_frame_starts [simp]: "length (frame_starts enc p fs) = length fs"
  by (induction fs arbitrary: p) auto

lemma frame_ends_le: "q \<in> set (frame_ends enc p fs) \<Longrightarrow> q \<le> p + length (concat (map enc fs))"
proof (induction fs arbitrary: p)
  case (Cons f fs)
  then show ?case by (auto dest: Cons.IH)
qed simp

lemma frame_ends_append:
  "frame_ends enc p (fs @ gs) =
   frame_ends enc p fs @ frame_ends enc (p + length (concat (map enc fs))) gs"
  by (induction fs arbitrary: p) (auto simp: add.assoc)

lemma frame_starts_append:
  "frame_starts enc p (fs @ gs) =
   frame_starts enc p fs @ frame_starts enc (p + length (concat (map enc fs))) gs"
  by (induction fs arbitrary: p) (auto simp: add.assoc)

lemma frame_starts_ge: "q \<in> set (frame_starts enc p fs) \<Longrightarrow> p \<le> q"
  by (induction fs arbitrary: p) (auto, fastforce)

lemma frame_starts_less:
  "(\<And>f. f \<in> set fs \<Longrightarrow> enc f \<noteq> []) \<Longrightarrow> q \<in> set (frame_starts enc p fs) \<Longrightarrow>
   q < p + length (concat (map enc fs))"
proof (induction fs arbitrary: p)
  case (Cons f fs)
  from Cons.prems(1) have f: "0 < length (enc f)" by simp
  from Cons.prems(2) consider "q = p" | "q \<in> set (frame_starts enc (p + length (enc f)) fs)" by auto
  then show ?case
  proof cases
    case 1
    with f show ?thesis by simp
  next
    case 2
    with Cons.IH [of "p + length (enc f)"] Cons.prems(1) show ?thesis by simp
  qed
qed simp

locale framed_log =
  fixes enc :: "'f \<Rightarrow> bytes"
    and ok :: "'f \<Rightarrow> bool"
    and scan :: "bytes \<Rightarrow> nat \<Rightarrow> 's \<Rightarrow> 'e + 's \<times> nat \<times> nat"
    and adv :: "nat \<Rightarrow> nat \<Rightarrow> 's \<Rightarrow> 's"
    and room :: "nat \<Rightarrow> 's \<Rightarrow> bool"
  assumes enc_nonempty: "ok f \<Longrightarrow> enc f \<noteq> []"
    and room_adv: "room p s \<Longrightarrow> p < q \<Longrightarrow> room q (adv p q s)"
    and scan_end: "scan file (length file) s = Inr (s, length file, 0)"
    and scan_frame: "ok f \<Longrightarrow> room (length pre) s \<Longrightarrow>
      length (pre @ enc f @ rest) \<le> u64_max \<Longrightarrow>
      scan (pre @ enc f @ rest) (length pre) s =
      scan (pre @ enc f @ rest) (length (pre @ enc f)) (adv (length pre) (length (pre @ enc f)) s)"
    and scan_tail: "ok f \<Longrightarrow> 0 < k \<Longrightarrow> k < length (enc f) \<Longrightarrow>
      length (pre @ enc f) \<le> u64_max \<Longrightarrow>
      scan (pre @ take k (enc f)) (length pre) s = Inr (s, length pre, k)"
begin

lemma scan_complete_frames:
  assumes "list_all ok fs" "room (length pre) s"
    and "length (pre @ concat (map enc fs) @ rest) \<le> u64_max"
  shows "scan (pre @ concat (map enc fs) @ rest) (length pre) s =
    scan (pre @ concat (map enc fs) @ rest) (length (pre @ concat (map enc fs)))
      (advance_frames adv enc (length pre) s fs)"
  using assms
proof (induction fs arbitrary: pre s)
  case Nil
  then show ?case by simp
next
  case (Cons f fs)
  let ?pre = "pre @ enc f" and ?s = "adv (length pre) (length (pre @ enc f)) s"
  have ok: "ok f" using Cons.prems by simp
  have "scan (pre @ enc f @ concat (map enc fs) @ rest) (length pre) s =
      scan (pre @ enc f @ concat (map enc fs) @ rest) (length ?pre) ?s"
    using Cons.prems by (intro scan_frame [OF ok]) auto
  moreover have "room (length ?pre) ?s"
    using Cons.prems(2) enc_nonempty [OF ok] by (intro room_adv) auto
  then have "scan (?pre @ concat (map enc fs) @ rest) (length ?pre) ?s =
      scan (?pre @ concat (map enc fs) @ rest) (length (?pre @ concat (map enc fs)))
        (advance_frames adv enc (length ?pre) ?s fs)"
    using Cons.prems by (intro Cons.IH) auto
  ultimately show ?case by (simp add: add.assoc)
qed

lemma scan_torn_log:
  assumes "list_all ok fs" "ok f" "k < length (enc f)" "room (length pre) s"
    and "length (pre @ concat (map enc fs) @ enc f) \<le> u64_max"
  shows "scan (pre @ concat (map enc fs) @ take k (enc f)) (length pre) s =
    Inr (advance_frames adv enc (length pre) s fs, length (pre @ concat (map enc fs)), k)"
proof -
  let ?pre = "pre @ concat (map enc fs)" and ?s = "advance_frames adv enc (length pre) s fs"
  have "scan (pre @ concat (map enc fs) @ take k (enc f)) (length pre) s =
      scan (?pre @ take k (enc f)) (length ?pre) ?s"
    using assms scan_complete_frames [of fs pre s "take k (enc f)"] by simp
  also have "\<dots> = Inr (?s, length ?pre, k)"
  proof (cases "k = 0")
    case True
    then show ?thesis using scan_end [of ?pre ?s] by simp
  next
    case False
    with assms show ?thesis by (intro scan_tail) auto
  qed
  finally show ?thesis .
qed

end

end
