(* ===== verification/Spool_Recovery.thy ===== *)
theory Spool_Recovery
  imports Spool_Frame Framed_Log
begin

text \<open>
  Recovery of the spool (\<open>elucid-ingestion/src/recovery.rs\<close>): the scan over the data file at
  startup, the discarding of an incomplete final append, and the reader that hands out the
  committed batches.

  A file is its bytes. Reads inside the file succeed; the body is read in chunks by the code and
  the chunks are fed to two incremental hashers, which is the digest of the bytes in order.
\<close>

section \<open>The scan\<close>

record frame_scan =
  scan_committed_batches :: nat
  scan_pending_batches :: nat
  scan_committed_bytes :: nat
  scan_discarded_tail_bytes :: nat

text \<open>
  The variables of the loop in \<open>scan_committed_frames\<close>, besides the position.
\<close>

record scan_state =
  ss_committed_batches :: nat
  ss_pending_batches :: nat
  ss_checkpoint_is_boundary :: bool

definition scan_count ::
  "nat \<Rightarrow> nat \<Rightarrow> nat \<Rightarrow> scan_state \<Rightarrow> spool_error + scan_state" where
  "scan_count checkpoint position frame_end s =
     sbind (ok_or (checked_add (ss_committed_batches s) 1)
              (corrupt ''spool batch count overflows u64'')) (\<lambda>committed.
     sbind (if position \<ge> checkpoint
            then ok_or (checked_add (ss_pending_batches s) 1)
                   (corrupt ''pending spool batch count overflows u64'')
            else Inr (ss_pending_batches s)) (\<lambda>pending.
     Inr \<lparr>ss_committed_batches = committed, ss_pending_batches = pending,
          ss_checkpoint_is_boundary = (ss_checkpoint_is_boundary s \<or> frame_end = checkpoint)\<rparr>))"

lemma decode_header_stored:
  "decode_header X (take HEADER_BYTES rest) l = Inr d \<Longrightarrow> \<not> length rest < HEADER_BYTES \<Longrightarrow>
   FRAME_OVERHEAD_BYTES \<le> dh_stored_bytes d"
  using decode_header_inv(4) [of X "take HEADER_BYTES rest" l d] by simp

function scan_loop ::
  "'x spool_env_scheme \<Rightarrow> bytes \<Rightarrow> nat \<Rightarrow> nat \<Rightarrow> nat \<Rightarrow> scan_state \<Rightarrow>
   spool_error + scan_state \<times> nat \<times> nat" where
  "scan_loop X file checkpoint body_limit position s =
     (if position < length file then
        let remaining_bytes = length file - position in
        if remaining_bytes < HEADER_BYTES then
          sbind (validate_incomplete_header X (drop position file) body_limit)
            (\<lambda>_. Inr (s, position, remaining_bytes))
        else
          sbind (decode_header X (take HEADER_BYTES (drop position file)) body_limit) (\<lambda>header.
          sbind (ok_or (checked_add position (dh_stored_bytes header))
                   (corrupt ''spool frame position overflows u64'')) (\<lambda>frame_end.
          if frame_end > length file then Inr (s, position, remaining_bytes)
          else
            let body = take (dh_body_bytes header) (drop (position + HEADER_BYTES) file);
                footer = take FOOTER_BYTES
                  (drop (position + HEADER_BYTES + dh_body_bytes header) file)
            in sbind (validate_digests_and_footer header (blake3 X body)
                        (blake3 X (dh_raw header @ body)) footer) (\<lambda>_.
               sbind (scan_count checkpoint position frame_end s) (\<lambda>s'.
               scan_loop X file checkpoint body_limit frame_end s'))))
      else Inr (s, position, 0))"
  by pat_completeness auto
termination
proof (relation "measure (\<lambda>(X, file, checkpoint, body_limit, position, s). length file - position)",
    simp, clarsimp simp: result_simps)
  fix X :: "'x spool_env_scheme" and f :: bytes and l position d
  assume "position < length f" "\<not> length f - position < HEADER_BYTES"
    "decode_header X (take HEADER_BYTES (drop position f)) l = Inr d"
  then have "FRAME_OVERHEAD_BYTES \<le> dh_stored_bytes d"
    by (intro decode_header_stored [of X "drop position f" l d]) auto
  then show "length f - (position + dh_stored_bytes d) < length f - position"
    using \<open>position < length f\<close> by (simp add: frame_constants)
qed

declare scan_loop.simps [simp del]

definition scan_committed_frames ::
  "'x spool_env_scheme \<Rightarrow> bytes \<Rightarrow> nat \<Rightarrow> nat \<Rightarrow> spool_error + frame_scan" where
  "scan_committed_frames X file checkpoint body_limit =
     sbind (scan_loop X file checkpoint body_limit 0
        \<lparr>ss_committed_batches = 0, ss_pending_batches = 0,
         ss_checkpoint_is_boundary = (checkpoint = 0)\<rparr>) (\<lambda>(s, position, discarded).
     if checkpoint > position \<or> \<not> ss_checkpoint_is_boundary s
     then Inl (corrupt ''spool checkpoint is not a committed frame boundary'')
     else Inr \<lparr>scan_committed_batches = ss_committed_batches s,
               scan_pending_batches = ss_pending_batches s,
               scan_committed_bytes = position, scan_discarded_tail_bytes = discarded\<rparr>)"

section \<open>Recovering the files\<close>

text \<open>
  The files of the spool directory. \<open>recover_files\<close> returns the report together with the data
  file it leaves behind, truncated to the committed frames.
\<close>

definition recover_files ::
  "'x spool_env_scheme \<Rightarrow> bytes option \<Rightarrow> bytes option \<Rightarrow> nat \<Rightarrow> nat \<Rightarrow>
   spool_error + recovery_report \<times> bytes" where
  "recover_files X checkpoint_file data_file capacity maximum_batch =
     sbind (checkpoint_load X checkpoint_file) (\<lambda>checkpoint.
     sbind (ok_or data_file (corrupt ''spool data file is missing'')) (\<lambda>file.
     sbind (scan_committed_frames X file checkpoint maximum_batch) (\<lambda>scan.
     let file' = (if scan_discarded_tail_bytes scan > 0
                  then take (scan_committed_bytes scan) file else file)
     in sbind (reserved_frame_bytes maximum_batch) (\<lambda>required_bytes.
     let available = capacity - scan_committed_bytes scan;
         admission = (if required_bytes \<le> available then Available else CapacityIsExhausted)
     in Inr (\<lparr>report_checkpoint = checkpoint,
              report_committed_batches = scan_committed_batches scan,
              report_pending_batches = scan_pending_batches scan,
              report_committed_bytes = scan_committed_bytes scan,
              report_discarded_tail_bytes = scan_discarded_tail_bytes scan,
              report_maximum_batch_admission = admission\<rparr>, file')))))"

section \<open>Reading committed batches\<close>

definition read_exact_committed :: "bytes \<Rightarrow> nat \<Rightarrow> nat \<Rightarrow> spool_error + bytes" where
  "read_exact_committed file position n =
     (if position + n \<le> length file then Inr (take n (drop position file))
      else Inl (corrupt ''committed spool data changed after recovery''))"

definition read_recovered_batch ::
  "'x spool_env_scheme \<Rightarrow> bytes \<Rightarrow> nat \<Rightarrow> nat \<Rightarrow> nat \<Rightarrow> spool_error + recovered_batch \<times> nat" where
  "read_recovered_batch X file position end_pos body_limit =
     sbind (read_exact_committed file position HEADER_BYTES) (\<lambda>raw.
     sbind (decode_header X raw body_limit) (\<lambda>header.
     sbind (ok_or (checked_add position (dh_stored_bytes header))
              (corrupt ''recovered spool frame position overflows u64'')) (\<lambda>next_position.
     if next_position > end_pos
     then Inl (corrupt ''recovered spool frame exceeds its committed range'')
     else
     sbind (read_exact_committed file (position + HEADER_BYTES) (dh_body_bytes header)) (\<lambda>body.
     sbind (read_exact_committed file (position + HEADER_BYTES + dh_body_bytes header) FOOTER_BYTES)
       (\<lambda>footer.
     sbind (validate_digests_and_footer header (blake3 X body) (blake3 X (dh_raw header @ body)) footer)
       (\<lambda>_.
     sbind (spool_batch_range_new position next_position) (\<lambda>range.
     Inr (\<lparr>rb_metadata = dh_metadata header, rb_body = body,
           rb_body_digest = dh_body_digest header, rb_range = range\<rparr>, next_position))))))))"

record spool_extent =
  extent_generation :: nat
  extent_end :: nat

datatype recovered_batch_state = ReadingRecovery | RecoveryComplete | Following | Failed

record recovered_batches =
  rd_position :: nat
  rd_recovered_end :: nat
  rd_generation :: nat
  rd_body_limit :: nat
  rd_state :: recovered_batch_state

text \<open>
  \<open>next_batch\<close> over the data file and the extent that the watch channel holds at that moment;
  the reader is returned with its new state.
\<close>

definition next_batch_read ::
  "'x spool_env_scheme \<Rightarrow> bytes \<Rightarrow> nat \<Rightarrow> recovered_batches \<Rightarrow>
   (spool_error + recovered_batch option) \<times> recovered_batches" where
  "next_batch_read X file end_pos r =
     (if rd_position r = end_pos then
        (Inr None,
         if rd_state r = ReadingRecovery then r\<lparr>rd_state := RecoveryComplete\<rparr> else r)
      else case read_recovered_batch X file (rd_position r) end_pos (rd_body_limit r) of
          Inl e \<Rightarrow> (Inl e, r\<lparr>rd_state := Failed\<rparr>)
        | Inr (batch, next_position) \<Rightarrow> (Inr (Some batch), r\<lparr>rd_position := next_position\<rparr>))"

definition next_batch ::
  "'x spool_env_scheme \<Rightarrow> bytes \<Rightarrow> spool_extent \<Rightarrow> recovered_batches \<Rightarrow>
   (spool_error + recovered_batch option) \<times> recovered_batches" where
  "next_batch X file extent r =
     (case rd_state r of
        RecoveryComplete \<Rightarrow> (Inr None, r)
      | Failed \<Rightarrow>
          (Inl (invariant ''recovered spool reader is unavailable after a previous failure''), r)
      | ReadingRecovery \<Rightarrow> next_batch_read X file (rd_recovered_end r) r
      | Following \<Rightarrow>
          (let r' = (if extent_generation extent \<noteq> rd_generation r
                     then r\<lparr>rd_generation := extent_generation extent, rd_position := 0\<rparr> else r)
           in if rd_position r' > extent_end extent
              then (Inl (corrupt ''live spool extent moved behind the reader without reclamation''),
                    r'\<lparr>rd_state := Failed\<rparr>)
              else next_batch_read X file (extent_end extent) r'))"

text \<open>
  \<open>wait_next_batch\<close> up to the point where it returns or blocks on the watch channel: the result
  \<open>Inr None\<close> is the wait.
\<close>

definition wait_next_batch_poll ::
  "'x spool_env_scheme \<Rightarrow> bytes \<Rightarrow> spool_extent \<Rightarrow> recovered_batches \<Rightarrow>
   (spool_error + recovered_batch option) \<times> recovered_batches" where
  "wait_next_batch_poll X file extent r =
     (let follow = (\<lambda>r. next_batch X file extent
            (if rd_state r = RecoveryComplete then r\<lparr>rd_state := Following\<rparr> else r))
      in if rd_state r = ReadingRecovery then
           (case next_batch X file extent r of
              (Inl e, r') \<Rightarrow> (Inl e, r')
            | (Inr (Some batch), r') \<Rightarrow> (Inr (Some batch), r')
            | (Inr None, r') \<Rightarrow> follow r')
         else follow r)"

section \<open>What the scan does\<close>

definition scan_advance :: "nat \<Rightarrow> nat \<Rightarrow> nat \<Rightarrow> scan_state \<Rightarrow> scan_state" where
  "scan_advance checkpoint position frame_end s =
     \<lparr>ss_committed_batches = ss_committed_batches s + 1,
      ss_pending_batches = ss_pending_batches s + (if checkpoint \<le> position then 1 else 0),
      ss_checkpoint_is_boundary = (ss_checkpoint_is_boundary s \<or> frame_end = checkpoint)\<rparr>"

text \<open>The counters never pass the position, so they cannot overflow before the file does.\<close>

definition scan_room :: "nat \<Rightarrow> scan_state \<Rightarrow> bool" where
  "scan_room position s \<longleftrightarrow> ss_committed_batches s \<le> position \<and> ss_pending_batches s \<le> position"

lemma scan_count_advance:
  "scan_room position s \<Longrightarrow> position < u64_max \<Longrightarrow>
   scan_count checkpoint position frame_end s = Inr (scan_advance checkpoint position frame_end s)"
  by (simp add: scan_count_def scan_advance_def scan_room_def checked_add_def)

abbreviation frame_of :: "'x spool_env_scheme \<Rightarrow> batch_metadata \<times> bytes \<Rightarrow> bytes" where
  "frame_of X mb \<equiv> frame_bytes X (fst mb) (snd mb)"

lemma frame_of_parts:
  assumes "batch_ok X l (m, body)"
  shows "take HEADER_BYTES (drop (length pre) (pre @ frame_of X (m, body) @ rest)) = header_of X m body"
    and "take (length body) (drop (length pre + HEADER_BYTES)
          (pre @ frame_of X (m, body) @ rest)) = body"
    and "take FOOTER_BYTES (drop (length pre + HEADER_BYTES + length body)
          (pre @ frame_of X (m, body) @ rest)) = footer_of X m body"
proof -
  have "digest_ok X" using assms by (simp add: batch_ok_def)
  note len = length_header_of [OF this, of m body] length_footer_of [OF this, of m body]
  show "take HEADER_BYTES (drop (length pre) (pre @ frame_of X (m, body) @ rest)) = header_of X m body"
    and "take (length body) (drop (length pre + HEADER_BYTES)
          (pre @ frame_of X (m, body) @ rest)) = body"
    and "take FOOTER_BYTES (drop (length pre + HEADER_BYTES + length body)
          (pre @ frame_of X (m, body) @ rest)) = footer_of X m body"
    by (simp_all add: frame_bytes_eq [OF assms] len)
qed

lemma scan_loop_frame:
  assumes ok: "batch_ok X l (m, body)" and room: "scan_room (length pre) s"
    and len: "length (pre @ frame_of X (m, body) @ rest) \<le> u64_max"
  shows "scan_loop X (pre @ frame_of X (m, body) @ rest) c l (length pre) s =
    scan_loop X (pre @ frame_of X (m, body) @ rest) c l (length (pre @ frame_of X (m, body)))
      (scan_advance c (length pre) (length (pre @ frame_of X (m, body))) s)"
proof -
  let ?file = "pre @ frame_of X (m, body) @ rest"
  have fl: "length (frame_of X (m, body)) = length body + FRAME_OVERHEAD_BYTES"
    using length_frame_bytes [OF ok] by simp
  have "\<not> length ?file - length pre < HEADER_BYTES" "length pre < length ?file"
    using fl by (auto simp: frame_constants)
  moreover have "checked_add (length pre) (length body + FRAME_OVERHEAD_BYTES) =
      Some (length (pre @ frame_of X (m, body)))"
    using fl len by (simp add: result_simps)
  moreover have "scan_count c (length pre) (length (pre @ frame_of X (m, body))) s =
      Inr (scan_advance c (length pre) (length (pre @ frame_of X (m, body))) s)"
    using room len fl by (intro scan_count_advance) (auto simp: frame_constants)
  ultimately show ?thesis
    using frame_of_parts [OF ok, of pre rest] decode_header_of [OF ok] validate_footer_of [OF ok]
    by (subst scan_loop.simps) (simp add: Let_def decoded_of_def)
qed

lemma scan_loop_tail:
  assumes ok: "batch_ok X l (m, body)" and k: "0 < k" "k < length (frame_of X (m, body))"
    and len: "length (pre @ frame_of X (m, body)) \<le> u64_max"
  shows "scan_loop X (pre @ take k (frame_of X (m, body))) c l (length pre) s =
     Inr (s, length pre, k)"
proof -
  let ?tail = "take k (frame_of X (m, body))"
  have fl: "length (frame_of X (m, body)) = length body + FRAME_OVERHEAD_BYTES"
    using length_frame_bytes [OF ok] by simp
  have hl: "length (header_of X m body) = HEADER_BYTES"
    using ok by (simp add: length_header_of batch_ok_def)
  have tl: "length ?tail = k" using k by simp
  show ?thesis
  proof (cases "k < HEADER_BYTES")
    case True
    then have "?tail = take k (header_of X m body)"
      using frame_bytes_eq [OF ok] hl by simp
    with True k tl validate_incomplete_header_of [OF ok, of k] show ?thesis
      by (subst scan_loop.simps) (simp add: Let_def del: length_take)
  next
    case False
    then have "take HEADER_BYTES ?tail = header_of X m body"
      using frame_bytes_eq [OF ok] hl by (simp add: min_def)
    moreover have "checked_add (length pre) (length body + FRAME_OVERHEAD_BYTES) =
        Some (length (pre @ frame_of X (m, body)))"
      using fl len by (simp add: result_simps)
    ultimately show ?thesis
      using False k tl fl decode_header_of [OF ok]
      by (subst scan_loop.simps) (simp add: Let_def decoded_of_def del: length_take)
  qed
qed

interpretation spool_log:
  framed_log "frame_of X" "batch_ok X l" "\<lambda>file. scan_loop X file c l" "scan_advance c" scan_room
  for X :: "'x spool_env_scheme" and l c
proof unfold_locales
  fix f assume "batch_ok X l f"
  then show "frame_of X f \<noteq> []"
    using length_frame_bytes [of X l "fst f" "snd f"] by (auto simp: frame_constants)
next
  fix p s q assume "scan_room p s" "p < q"
  then show "scan_room q (scan_advance c p q s)" by (auto simp: scan_room_def scan_advance_def)
next
  fix f s show "scan_loop X f c l (length f) s = Inr (s, length f, 0)"
    by (subst scan_loop.simps) simp
next
  fix f pre s rest
  assume "batch_ok X l f" "scan_room (length pre) s" "length (pre @ frame_of X f @ rest) \<le> u64_max"
  then show "scan_loop X (pre @ frame_of X f @ rest) c l (length pre) s =
      scan_loop X (pre @ frame_of X f @ rest) c l (length (pre @ frame_of X f))
        (scan_advance c (length pre) (length (pre @ frame_of X f)) s)"
    using scan_loop_frame [of X l "fst f" "snd f" pre s rest c] by simp
next
  fix f k pre s
  assume "batch_ok X l f" "0 < k" "k < length (frame_of X f)" "length (pre @ frame_of X f) \<le> u64_max"
  then show "scan_loop X (pre @ take k (frame_of X f)) c l (length pre) s = Inr (s, length pre, k)"
    using scan_loop_tail [of X l "fst f" "snd f" k pre c s] by simp
qed

lemma advance_frames_counts:
  "advance_frames (scan_advance c) (frame_of X) p s bs =
     \<lparr>ss_committed_batches = ss_committed_batches s + length bs,
      ss_pending_batches = ss_pending_batches s +
        length (filter (\<lambda>q. c \<le> q) (frame_starts (frame_of X) p bs)),
      ss_checkpoint_is_boundary =
        (ss_checkpoint_is_boundary s \<or> c \<in> set (frame_ends (frame_of X) p bs))\<rparr>"
  by (induction bs arbitrary: p s) (auto simp: scan_advance_def)

lemma frame_of_nonempty: "batch_ok X l mb \<Longrightarrow> frame_of X mb \<noteq> []"
  by (rule spool_log.enc_nonempty)

lemma boundary_after_prefix:
  "length (concat (map enc seen)) = 0 \<or>
   length (concat (map enc seen)) \<in> set (frame_ends enc 0 (seen @ rest))"
proof (cases seen rule: rev_cases)
  case Nil
  then show ?thesis by simp
next
  case (snoc ds d)
  then show ?thesis by (simp add: frame_ends_append)
qed

lemma pending_after_prefix:
  assumes "list_all (batch_ok X l) seen"
  shows "length (filter (\<lambda>q. length (concat (map (frame_of X) seen)) \<le> q)
           (frame_starts (frame_of X) 0 (seen @ rest))) = length rest"
proof -
  let ?c = "length (concat (map (frame_of X) seen))"
  have "filter (\<lambda>q. ?c \<le> q) (frame_starts (frame_of X) 0 seen) = []"
    using assms frame_of_nonempty frame_starts_less [of seen "frame_of X" _ 0]
    by (fastforce simp: filter_empty_conv list_all_iff)
  moreover have "filter (\<lambda>q. ?c \<le> q) (frame_starts (frame_of X) ?c rest) =
      frame_starts (frame_of X) ?c rest"
    by (auto simp: filter_id_conv dest: frame_starts_ge)
  ultimately show ?thesis by (simp add: frame_starts_append)
qed

lemma scan_torn_spool:
  assumes "list_all (batch_ok X l) (seen @ rest)" "batch_ok X l torn"
    and "k < length (frame_of X torn)"
    and "length (concat (map (frame_of X) (seen @ rest)) @ frame_of X torn) \<le> u64_max"
  shows "scan_committed_frames X (concat (map (frame_of X) (seen @ rest)) @ take k (frame_of X torn))
           (length (concat (map (frame_of X) seen))) l =
    Inr \<lparr>scan_committed_batches = length (seen @ rest), scan_pending_batches = length rest,
         scan_committed_bytes = length (concat (map (frame_of X) (seen @ rest))),
         scan_discarded_tail_bytes = k\<rparr>"
proof -
  let ?c = "length (concat (map (frame_of X) seen))"
  let ?s = "\<lparr>ss_committed_batches = 0, ss_pending_batches = 0, ss_checkpoint_is_boundary = (?c = 0)\<rparr>"
  have "scan_loop X ([] @ concat (map (frame_of X) (seen @ rest)) @ take k (frame_of X torn)) ?c l
      (length ([] :: bytes)) ?s =
    Inr (advance_frames (scan_advance ?c) (frame_of X) (length ([] :: bytes)) ?s (seen @ rest),
      length ([] @ concat (map (frame_of X) (seen @ rest))), k)"
    using assms by (intro spool_log.scan_torn_log) (auto simp: scan_room_def)
  moreover have "list_all (batch_ok X l) seen" using assms(1) by simp
  ultimately show ?thesis
    using boundary_after_prefix [of "frame_of X" seen rest] pending_after_prefix [of X l seen rest]
    by (auto simp: scan_committed_frames_def advance_frames_counts)
qed

text \<open>The converse: whatever a scan accepts is a sequence of frames and a tail it discards.\<close>

lemma accepted_frame:
  assumes dig: "digest_ok X"
    and dec: "decode_header X (take HEADER_BYTES (drop p f)) l = Inr d"
    and len: "p + dh_stored_bytes d \<le> length f"
    and body: "body = take (dh_body_bytes d) (drop (p + HEADER_BYTES) f)"
    and val: "validate_digests_and_footer d (blake3 X body) (blake3 X (dh_raw d @ body))
       (take FOOTER_BYTES (drop (p + HEADER_BYTES + dh_body_bytes d) f)) = Inr ()"
    and hl: "p + HEADER_BYTES \<le> length f"
  shows "batch_ok X l (dh_metadata d, body)"
    and "frame_of X (dh_metadata d, body) = take (dh_stored_bytes d) (drop p f)"
proof -
  let ?raw = "take HEADER_BYTES (drop p f)"
  let ?footer = "take FOOTER_BYTES (drop (p + HEADER_BYTES + dh_body_bytes d) f)"
  have raw: "length ?raw = HEADER_BYTES" using hl by simp
  note inv = decode_header_inv [OF dec raw]
  have bl: "length body = dh_body_bytes d" using len body inv(4) by (simp add: frame_constants)
  have fl: "length ?footer = 48" using len inv(4) by (simp add: frame_constants)
  show ok: "batch_ok X l (dh_metadata d, body)"
    using dig inv bl by (simp add: batch_ok_def)
  have dd: "dh_body_digest d = blake3 X body" and fd: "take 32 ?footer = blake3 X (?raw @ body)"
    and cm: "take 8 (drop 32 ?footer) = COMMIT_MAGIC"
    and fs: "be_nat (take 8 (drop 40 ?footer)) = dh_stored_bytes d"
    using val inv(1) fl
    by (auto simp: validate_digests_and_footer_def read_u64_def read_array_ok split: if_splits)
  have hdr: "?raw = header_of X (dh_metadata d) body"
    using inv(4,7) bl dd by (simp add: header_of_def)
  have "u64_to_be_bytes (dh_stored_bytes d) = take 8 (drop 40 ?footer)"
    using be_bytes_be_nat [of "take 8 (drop 40 ?footer)"] fs fl by (simp add: u64_to_be_bytes_def)
  moreover have "?footer = take 32 ?footer @ take 8 (drop 32 ?footer) @ take 8 (drop 40 ?footer)"
    using fl split_field [of 32 ?footer 8] append_take_drop_id [of 32 ?footer] by simp
  ultimately have ftr: "?footer = footer_of X (dh_metadata d) body"
    using fd cm hdr inv(4) bl by (simp add: footer_of_def)
  have "take (dh_stored_bytes d) (drop p f) = ?raw @ body @ ?footer"
    using inv(4) body take_add [of HEADER_BYTES "dh_body_bytes d + FOOTER_BYTES" "drop p f"]
      take_add [of "dh_body_bytes d" FOOTER_BYTES "drop (p + HEADER_BYTES) f"]
    by (simp add: FRAME_OVERHEAD_BYTES_def add.commute add.left_commute)
  then show "frame_of X (dh_metadata d, body) = take (dh_stored_bytes d) (drop p f)"
    using frame_bytes_eq [OF ok] hdr ftr by simp
qed

lemma scan_count_Inr:
  "scan_count c p e s = Inr s' \<Longrightarrow> s' = scan_advance c p e s"
  by (auto simp: scan_count_def scan_advance_def result_simps split: if_splits)

lemma scan_loop_accepts_cases:
  assumes dig: "digest_ok X" and scan: "scan_loop X f c l p s = Inr (s', q, tail)" and "p \<le> length f"
  obtains (stop) "s' = s" "q = p" "p + tail = length f"
  | (frame) mb where "batch_ok X l mb"
      "drop p f = frame_of X mb @ drop (p + length (frame_of X mb)) f"
      "p + length (frame_of X mb) \<le> length f"
      "scan_loop X f c l (p + length (frame_of X mb))
         (scan_advance c p (p + length (frame_of X mb)) s) = Inr (s', q, tail)"
proof (cases "p < length f \<and> HEADER_BYTES \<le> length f - p")
  case False
  then have "s' = s \<and> q = p \<and> p + tail = length f"
    using scan assms(3)
    by (subst (asm) scan_loop.simps) (auto simp: Let_def result_simps split: if_splits)
  with stop show ?thesis by blast
next
  case True
  then obtain d where d: "decode_header X (take HEADER_BYTES (drop p f)) l = Inr d"
    using scan by (subst (asm) scan_loop.simps) (auto simp: Let_def result_simps split: if_splits)
  let ?body = "take (dh_body_bytes d) (drop (p + HEADER_BYTES) f)"
  let ?footer = "take FOOTER_BYTES (drop (p + HEADER_BYTES + dh_body_bytes d) f)"
  have hl: "p + HEADER_BYTES \<le> length f" using True by linarith
  show ?thesis
  proof (cases "p + dh_stored_bytes d \<le> length f")
    case False
    with d True have "s' = s \<and> q = p \<and> p + tail = length f"
      using scan by (subst (asm) scan_loop.simps) (auto simp: Let_def result_simps split: if_splits)
    with stop show ?thesis by blast
  next
    case fits: True
    with d True have val: "validate_digests_and_footer d (blake3 X ?body)
        (blake3 X (dh_raw d @ ?body)) ?footer = Inr ()"
      and rec: "scan_loop X f c l (p + dh_stored_bytes d)
        (scan_advance c p (p + dh_stored_bytes d) s) = Inr (s', q, tail)"
      using scan by (subst (asm) scan_loop.simps,
        auto simp: Let_def result_simps split: if_splits dest!: scan_count_Inr)+
    note acc = accepted_frame [OF dig d fits refl val hl]
    have len: "length (frame_of X (dh_metadata d, ?body)) = dh_stored_bytes d"
      unfolding acc(2) using fits by simp
    have "drop p f = frame_of X (dh_metadata d, ?body) @ drop (p + dh_stored_bytes d) f"
      unfolding acc(2) by (rule split_field)
    with acc(1) len fits rec show ?thesis by (intro frame [of "(dh_metadata d, ?body)"]) simp_all
  qed
qed

lemma scan_loop_accepts:
  assumes "digest_ok X" "scan_loop X f c l p s = Inr (s', q, tail)" "p \<le> length f"
  shows "\<exists>bs. list_all (batch_ok X l) bs \<and> drop p f = concat (map (frame_of X) bs) @ drop q f \<and>
      q = p + length (concat (map (frame_of X) bs)) \<and> q + tail = length f \<and>
      s' = advance_frames (scan_advance c) (frame_of X) p s bs"
  using assms(2,3)
proof (induction "length f - p" arbitrary: p s rule: less_induct)
  case less
  from assms(1) less.prems show ?case
  proof (cases rule: scan_loop_accepts_cases)
    case stop
    then show ?thesis by (intro exI [of _ "[]"]) simp
  next
    case (frame mb)
    let ?p = "p + length (frame_of X mb)"
    have "0 < length (frame_of X mb)" using frame_of_nonempty [OF frame(1)] by simp
    then have "length f - ?p < length f - p" using frame(3) by linarith
    from less.hyps [OF this frame(4) frame(3)] obtain bs where bs: "list_all (batch_ok X l) bs"
        "drop ?p f = concat (map (frame_of X) bs) @ drop q f"
        "q = ?p + length (concat (map (frame_of X) bs))" "q + tail = length f"
        "s' = advance_frames (scan_advance c) (frame_of X) ?p (scan_advance c p ?p s) bs"
      by blast
    with frame show ?thesis by (intro exI [of _ "mb # bs"]) simp
  qed
qed

lemma frame_end_splits:
  "c \<in> set (frame_ends enc p fs) \<Longrightarrow>
   \<exists>seen rest. fs = seen @ rest \<and> c = p + length (concat (map enc seen))"
proof (induction fs arbitrary: p)
  case (Cons f fs)
  show ?case
  proof (cases "c = p + length (enc f)")
    case True
    then show ?thesis by (intro exI [of _ "[f]"] exI [of _ fs]) simp
  next
    case False
    then obtain seen rest where "fs = seen @ rest" "c = p + length (enc f) + length (concat (map enc seen))"
      using Cons.prems Cons.IH [of "p + length (enc f)"] by auto
    then show ?thesis by (intro exI [of _ "f # seen"] exI [of _ rest]) simp
  qed
qed simp

lemma scan_accepts_only_frames:
  assumes "digest_ok X" "scan_committed_frames X f c l = Inr scan"
  shows "\<exists>seen rest tail. list_all (batch_ok X l) (seen @ rest) \<and>
    f = concat (map (frame_of X) (seen @ rest)) @ tail \<and>
    c = length (concat (map (frame_of X) seen)) \<and>
    scan = \<lparr>scan_committed_batches = length (seen @ rest), scan_pending_batches = length rest,
         scan_committed_bytes = length (concat (map (frame_of X) (seen @ rest))),
         scan_discarded_tail_bytes = length tail\<rparr>"
proof -
  let ?s = "\<lparr>ss_committed_batches = 0, ss_pending_batches = 0, ss_checkpoint_is_boundary = (c = 0)\<rparr>"
  obtain s q d where loop: "scan_loop X f c l 0 ?s = Inr (s, q, d)"
    and bnd: "ss_checkpoint_is_boundary s"
    and scan: "scan = \<lparr>scan_committed_batches = ss_committed_batches s,
       scan_pending_batches = ss_pending_batches s, scan_committed_bytes = q, scan_discarded_tail_bytes = d\<rparr>"
    using assms(2) by (auto simp: scan_committed_frames_def result_simps split: if_splits)
  obtain bs where bs: "list_all (batch_ok X l) bs" "f = concat (map (frame_of X) bs) @ drop q f"
      "q = length (concat (map (frame_of X) bs))" "q + d = length f"
      "s = advance_frames (scan_advance c) (frame_of X) 0 ?s bs"
    using scan_loop_accepts [OF assms(1) loop] by auto
  have "c = 0 \<or> c \<in> set (frame_ends (frame_of X) 0 bs)"
    using bnd bs(5) by (simp add: advance_frames_counts)
  then have "\<exists>seen rest. bs = seen @ rest \<and> c = length (concat (map (frame_of X) seen))"
  proof
    assume "c = 0"
    then show ?thesis by (intro exI [of _ "[]"] exI [of _ bs]) simp
  next
    assume "c \<in> set (frame_ends (frame_of X) 0 bs)"
    from frame_end_splits [OF this] show ?thesis by simp
  qed
  then obtain seen rest where sr: "bs = seen @ rest" "c = length (concat (map (frame_of X) seen))"
    by blast
  have "list_all (batch_ok X l) seen" using bs(1) sr(1) by simp
  note pend = pending_after_prefix [OF this, of rest]
  have "length (drop q f) = d" using bs(4) by simp
  with bs sr pend scan show ?thesis
    by (intro exI [of _ seen] exI [of _ rest] exI [of _ "drop q f"]) (simp add: advance_frames_counts)
qed

section \<open>What the reader returns\<close>

text \<open>
  \<open>recover\<close> builds the reader at the checkpoint, up to the committed bytes of the report.
\<close>

definition recovered_reader :: "recovery_report \<Rightarrow> nat \<Rightarrow> recovered_batches" where
  "recovered_reader report maximum_batch =
     \<lparr>rd_position = report_checkpoint report, rd_recovered_end = report_committed_bytes report,
      rd_generation = 0, rd_body_limit = maximum_batch, rd_state = ReadingRecovery\<rparr>"

text \<open>The outcomes of \<open>n\<close> calls of \<open>next_batch\<close> in a row.\<close>

fun next_batches ::
  "'x spool_env_scheme \<Rightarrow> bytes \<Rightarrow> spool_extent \<Rightarrow> nat \<Rightarrow> recovered_batches \<Rightarrow>
   (spool_error + recovered_batch option) list \<times> recovered_batches" where
  "next_batches X file extent 0 r = ([], r)"
| "next_batches X file extent (Suc n) r =
     (let (outcome, r') = next_batch X file extent r;
          (outcomes, r'') = next_batches X file extent n r'
      in (outcome # outcomes, r''))"

text \<open>The batches of a log as the reader reports them, from the offset of the first.\<close>

fun recovered_of ::
  "'x spool_env_scheme \<Rightarrow> nat \<Rightarrow> (batch_metadata \<times> bytes) list \<Rightarrow> recovered_batch list" where
  "recovered_of X p [] = []"
| "recovered_of X p (mb # mbs) =
     \<lparr>rb_metadata = fst mb, rb_body = snd mb, rb_body_digest = blake3 X (snd mb),
      rb_range = \<lparr>range_start = p, range_end = p + length (frame_of X mb)\<rparr>\<rparr> #
     recovered_of X (p + length (frame_of X mb)) mbs"

lemma length_recovered_of [simp]: "length (recovered_of X p mbs) = length mbs"
  by (induction mbs arbitrary: p) auto

lemma read_recovered_batch_frame:
  assumes ok: "batch_ok X l mb" and e: "length (pre @ frame_of X mb) \<le> e" "e \<le> u64_max"
  shows "read_recovered_batch X (pre @ frame_of X mb @ rest) (length pre) e l =
    Inr (hd (recovered_of X (length pre) [mb]), length (pre @ frame_of X mb))"
proof -
  obtain m body where mb: "mb = (m, body)" by (cases mb)
  have ok': "batch_ok X l (m, body)" using ok mb by simp
  let ?f = "pre @ frame_of X (m, body) @ rest"
  have fl: "length (frame_of X (m, body)) = length body + FRAME_OVERHEAD_BYTES"
    using length_frame_bytes [OF ok'] by simp
  have rd: "read_exact_committed ?f (length pre) HEADER_BYTES = Inr (header_of X m body)"
    "read_exact_committed ?f (length pre + HEADER_BYTES) (length body) = Inr body"
    "read_exact_committed ?f (length pre + HEADER_BYTES + length body) FOOTER_BYTES =
      Inr (footer_of X m body)"
    unfolding read_exact_committed_def frame_of_parts [OF ok', of pre rest]
    using fl by (simp_all add: frame_constants)
  have "checked_add (length pre) (length body + FRAME_OVERHEAD_BYTES) =
      Some (length pre + (length body + FRAME_OVERHEAD_BYTES))"
    using fl e mb by (simp add: result_simps)
  moreover have "0 < length body + FRAME_OVERHEAD_BYTES" by (simp add: frame_constants)
  ultimately show ?thesis
    using e fl mb decode_header_of [OF ok'] validate_footer_of [OF ok'] rd
    by (simp add: read_recovered_batch_def decoded_of_def spool_batch_range_new_def)
qed

lemma next_batch_read_frame:
  assumes "batch_ok X (rd_body_limit r) mb" "length (pre @ frame_of X mb) \<le> e" "e \<le> u64_max"
    and "rd_position r = length pre"
  shows "next_batch_read X (pre @ frame_of X mb @ rest) e r =
    (Inr (Some (hd (recovered_of X (length pre) [mb]))),
     r\<lparr>rd_position := length (pre @ frame_of X mb)\<rparr>)"
proof -
  have "0 < length (frame_of X mb)" using frame_of_nonempty [OF assms(1)] by simp
  then have "length pre \<noteq> e" using assms(2) unfolding length_append by linarith
  then show ?thesis
    using read_recovered_batch_frame [OF assms(1-3), of rest] assms(4)
    by (simp add: next_batch_read_def)
qed

text \<open>
  Draining: from the start of a frame inside the readable range, the calls return the batches of
  the frames one after the other.
\<close>

definition reader_end :: "spool_extent \<Rightarrow> recovered_batches \<Rightarrow> nat" where
  "reader_end extent r = (if rd_state r = ReadingRecovery then rd_recovered_end r else extent_end extent)"

definition reader_live :: "spool_extent \<Rightarrow> recovered_batches \<Rightarrow> bool" where
  "reader_live extent r \<longleftrightarrow> rd_state r = ReadingRecovery \<or>
     rd_state r = Following \<and> rd_generation r = extent_generation extent"

lemma next_batch_live:
  "reader_live extent r \<Longrightarrow> rd_position r \<le> reader_end extent r \<Longrightarrow>
   next_batch X file extent r = next_batch_read X file (reader_end extent r) r"
  by (auto simp: next_batch_def reader_live_def reader_end_def)

lemma next_batches_drain:
  assumes "list_all (batch_ok X (rd_body_limit r)) mbs" "reader_live extent r"
    and "rd_position r = length pre"
    and "length (pre @ concat (map (frame_of X) mbs)) \<le> reader_end extent r"
    and "reader_end extent r \<le> u64_max"
  shows "next_batches X (pre @ concat (map (frame_of X) mbs) @ rest) extent (length mbs) r =
    (map (\<lambda>b. Inr (Some b)) (recovered_of X (length pre) mbs),
     r\<lparr>rd_position := length (pre @ concat (map (frame_of X) mbs))\<rparr>)"
  using assms
proof (induction mbs arbitrary: pre r)
  case Nil
  then show ?case by simp
next
  case (Cons mb mbs)
  let ?pre = "pre @ frame_of X mb" and ?r = "r\<lparr>rd_position := length (pre @ frame_of X mb)\<rparr>"
  have "next_batch X (pre @ frame_of X mb @ concat (map (frame_of X) mbs) @ rest) extent r =
      (Inr (Some (hd (recovered_of X (length pre) [mb]))), ?r)"
    using Cons.prems
    by (subst next_batch_live, simp, simp) (rule next_batch_read_frame, simp_all)
  moreover have "reader_end extent ?r = reader_end extent r" "reader_live extent ?r"
    using Cons.prems(2) by (auto simp: reader_end_def reader_live_def)
  then have "next_batches X (?pre @ concat (map (frame_of X) mbs) @ rest) extent (length mbs) ?r =
      (map (\<lambda>b. Inr (Some b)) (recovered_of X (length ?pre) mbs),
       ?r\<lparr>rd_position := length (?pre @ concat (map (frame_of X) mbs))\<rparr>)"
    using Cons.prems by (intro Cons.IH) auto
  ultimately show ?case by (simp add: add.assoc)
qed

section \<open>Recovery as a whole\<close>

lemma recover_torn_spool:
  assumes "list_all (batch_ok X l) (seen @ rest)" "batch_ok X l torn"
    and "k < length (frame_of X torn)"
    and "length (concat (map (frame_of X) (seen @ rest)) @ frame_of X torn) \<le> u64_max"
    and "l + FRAME_OVERHEAD_BYTES \<le> u64_max"
  defines "log \<equiv> concat (map (frame_of X) (seen @ rest))"
    and "cp \<equiv> length (concat (map (frame_of X) seen))"
  shows "recover_files X (Some (checkpoint_encode X cp)) (Some (log @ take k (frame_of X torn)))
      capacity l =
    Inr (\<lparr>report_checkpoint = cp, report_committed_batches = length (seen @ rest),
          report_pending_batches = length rest, report_committed_bytes = length log,
          report_discarded_tail_bytes = k,
          report_maximum_batch_admission =
            (if l + FRAME_OVERHEAD_BYTES \<le> capacity - length log then Available
             else CapacityIsExhausted)\<rparr>, log)"
proof -
  have "checkpoint_load X (Some (checkpoint_encode X cp)) = Inr cp"
    using assms(2,4) by (intro checkpoint_load_encode) (auto simp: batch_ok_def cp_def)
  moreover have "scan_committed_frames X (log @ take k (frame_of X torn)) cp l =
      Inr \<lparr>scan_committed_batches = length (seen @ rest), scan_pending_batches = length rest,
         scan_committed_bytes = length log, scan_discarded_tail_bytes = k\<rparr>"
    unfolding log_def cp_def by (rule scan_torn_spool [OF assms(1-4)])
  moreover have "reserved_frame_bytes l = Inr (l + FRAME_OVERHEAD_BYTES)"
    using assms(5) by (simp add: reserved_frame_bytes_def checked_add_def)
  ultimately show ?thesis by (simp add: recover_files_def Let_def)
qed

lemma recover_files_only_frames:
  assumes "digest_ok X" "recover_files X cpf df capacity l = Inr (report, log)"
  obtains seen rest tail where "list_all (batch_ok X l) (seen @ rest)"
    "log = concat (map (frame_of X) (seen @ rest))" "df = Some (log @ tail)"
    "cpf = Some (checkpoint_encode X (report_checkpoint report))"
    "report_checkpoint report = length (concat (map (frame_of X) seen))"
    "report_committed_batches report = length (seen @ rest)"
    "report_pending_batches report = length rest"
    "report_committed_bytes report = length log"
    "report_discarded_tail_bytes report = length tail"
proof -
  obtain c f scan where parts: "checkpoint_load X cpf = Inr c" "df = Some f"
    "scan_committed_frames X f c l = Inr scan"
    and report: "report_checkpoint report = c"
      "report_committed_batches report = scan_committed_batches scan"
      "report_pending_batches report = scan_pending_batches scan"
      "report_committed_bytes report = scan_committed_bytes scan"
      "report_discarded_tail_bytes report = scan_discarded_tail_bytes scan"
    and log: "log = (if scan_discarded_tail_bytes scan > 0
        then take (scan_committed_bytes scan) f else f)"
    using assms(2) by (auto simp: recover_files_def result_simps Let_def)
  obtain cpb where cpb: "cpf = Some cpb" using parts(1) by (cases cpf) (auto simp: checkpoint_load_def)
  have "cpb = checkpoint_encode X c" using checkpoint_load_inv parts(1) cpb by blast
  moreover obtain seen rest tail where "list_all (batch_ok X l) (seen @ rest)"
      "f = concat (map (frame_of X) (seen @ rest)) @ tail"
      "c = length (concat (map (frame_of X) seen))"
      "scan = \<lparr>scan_committed_batches = length (seen @ rest), scan_pending_batches = length rest,
         scan_committed_bytes = length (concat (map (frame_of X) (seen @ rest))),
         scan_discarded_tail_bytes = length tail\<rparr>"
    using scan_accepts_only_frames [OF assms(1) parts(3)] by blast
  ultimately show ?thesis using parts(2) report log cpb
    by (intro that [of seen rest tail]) (auto split: if_splits)
qed

text \<open>
  What a crash may leave behind the synchronized frames: nothing, or the first bytes of one
  frame, up to the complete frame.
\<close>

definition torn_tail :: "'x spool_env_scheme \<Rightarrow> nat \<Rightarrow> nat \<Rightarrow> bytes \<Rightarrow> bool" where
  "torn_tail X l n tail \<longleftrightarrow>
     tail = [] \<or> (\<exists>mb k. batch_ok X l mb \<and> n + length (frame_of X mb) \<le> u64_max \<and>
       tail = take k (frame_of X mb))"

lemma torn_tail_Nil [simp]: "torn_tail X l n []"
  by (simp add: torn_tail_def)

lemma torn_tail_take: "torn_tail X l n tail \<Longrightarrow> torn_tail X l n (take j tail)"
proof (cases "tail = []")
  case False
  assume "torn_tail X l n tail"
  with False obtain mb k where "batch_ok X l mb" "n + length (frame_of X mb) \<le> u64_max"
      "tail = take k (frame_of X mb)"
    unfolding torn_tail_def by blast
  moreover from this have "take j tail = take (min j k) (frame_of X mb)" by simp
  ultimately show ?thesis unfolding torn_tail_def by blast
qed simp

text \<open>What is left of a log when its last bytes are lost: the first frames, and a part of one more.\<close>

lemma take_log:
  assumes "list_all (batch_ok X l) bs" "p + length (concat (map (frame_of X) bs)) \<le> u64_max"
    "torn_tail X l (p + length (concat (map (frame_of X) bs))) tail"
  shows "\<exists>bs' rest tail'. bs = bs' @ rest \<and>
    take k (concat (map (frame_of X) bs) @ tail) = concat (map (frame_of X) bs') @ tail' \<and>
    torn_tail X l (p + length (concat (map (frame_of X) bs'))) tail' \<and>
    (\<forall>pre post. bs = pre @ post \<longrightarrow> length (concat (map (frame_of X) pre)) \<le> k \<longrightarrow> (\<exists>mid. bs' = pre @ mid))"
  using assms
proof (induction bs arbitrary: p k)
  case Nil
  then show ?case by (intro exI [of _ "[]"] exI [of _ "take k tail"]) (simp add: torn_tail_take)
next
  case (Cons b bs)
  let ?n = "length (frame_of X b)"
  show ?case
  proof (cases "?n \<le> k")
    case True
    from Cons.IH [of "p + ?n" "k - ?n"] Cons.prems
    obtain bs' rest tail' where IH: "bs = bs' @ rest"
      "take (k - ?n) (concat (map (frame_of X) bs) @ tail) = concat (map (frame_of X) bs') @ tail'"
      "torn_tail X l (p + ?n + length (concat (map (frame_of X) bs'))) tail'"
      "\<forall>pre post. bs = pre @ post \<longrightarrow> length (concat (map (frame_of X) pre)) \<le> k - ?n \<longrightarrow> (\<exists>mid. bs' = pre @ mid)"
      by (auto simp: add.assoc simp del: length_concat)
    have "\<exists>mid. b # bs' = pre @ mid"
      if "b # bs = pre @ post" "length (concat (map (frame_of X) pre)) \<le> k" for pre post
      using that IH(4) True by (cases pre) (auto simp del: length_concat)
    with True IH(1-3) show ?thesis
      by (intro exI [of _ "b # bs'"] exI [of _ rest] exI [of _ tail'])
        (auto simp: add.assoc simp del: length_concat)
  next
    case False
    have "torn_tail X l p (take k (frame_of X b))"
      using Cons.prems unfolding torn_tail_def by (intro disjI2 exI [of _ b] exI [of _ k]) simp
    moreover have "pre = []"
      if "b # bs = pre @ post" "length (concat (map (frame_of X) pre)) \<le> k" for pre post
      using that False by (cases pre) auto
    ultimately show ?thesis
      using False by (intro exI [of _ "[]"] exI [of _ "b # bs"] exI [of _ "take k (frame_of X b)"]) auto
  qed
qed

lemma torn_tail_cases:
  assumes "torn_tail X l n tail"
  obtains (none) "tail = []"
  | (part) mb k where "batch_ok X l mb" "k < length (frame_of X mb)" "tail = take k (frame_of X mb)"
      "n + length (frame_of X mb) \<le> u64_max"
  | (whole) mb where "batch_ok X l mb" "tail = frame_of X mb" "n + length (frame_of X mb) \<le> u64_max"
proof (cases "tail = []")
  case False
  then obtain mb k where mb: "batch_ok X l mb" "tail = take k (frame_of X mb)"
    "n + length (frame_of X mb) \<le> u64_max"
    using assms unfolding torn_tail_def by blast
  then show thesis using part [of mb k] whole [of mb] by (cases "k < length (frame_of X mb)") simp_all
qed (rule none)

lemma scan_whole_spool:
  assumes "list_all (batch_ok X l) (seen @ rest)"
    and "length (concat (map (frame_of X) (seen @ rest))) \<le> u64_max"
  shows "scan_committed_frames X (concat (map (frame_of X) (seen @ rest)))
           (length (concat (map (frame_of X) seen))) l =
    Inr \<lparr>scan_committed_batches = length (seen @ rest), scan_pending_batches = length rest,
         scan_committed_bytes = length (concat (map (frame_of X) (seen @ rest))),
         scan_discarded_tail_bytes = 0\<rparr>"
proof -
  let ?c = "length (concat (map (frame_of X) seen))"
  let ?log = "concat (map (frame_of X) (seen @ rest))"
  let ?s = "\<lparr>ss_committed_batches = 0, ss_pending_batches = 0, ss_checkpoint_is_boundary = (?c = 0)\<rparr>"
  have "scan_loop X ([] @ ?log @ []) ?c l (length ([] :: bytes)) ?s =
      scan_loop X ([] @ ?log @ []) ?c l (length ([] @ ?log))
        (advance_frames (scan_advance ?c) (frame_of X) (length ([] :: bytes)) ?s (seen @ rest))"
    using assms by (intro spool_log.scan_complete_frames) (auto simp: scan_room_def)
  then have "scan_loop X ?log ?c l 0 ?s =
      Inr (advance_frames (scan_advance ?c) (frame_of X) 0 ?s (seen @ rest), length ?log, 0)"
    by (simp add: spool_log.scan_end del: length_concat concat_append map_append)
  moreover have "list_all (batch_ok X l) seen" using assms(1) by simp
  ultimately show ?thesis
    using boundary_after_prefix [of "frame_of X" seen rest] pending_after_prefix [of X l seen rest]
    by (auto simp: scan_committed_frames_def advance_frames_counts)
qed

lemma recover_whole_spool:
  assumes "digest_ok X" "list_all (batch_ok X l) (seen @ rest)"
    and "length (concat (map (frame_of X) (seen @ rest))) \<le> u64_max"
    and "l + FRAME_OVERHEAD_BYTES \<le> u64_max"
  defines "log \<equiv> concat (map (frame_of X) (seen @ rest))"
    and "cp \<equiv> length (concat (map (frame_of X) seen))"
  shows "recover_files X (Some (checkpoint_encode X cp)) (Some log) capacity l =
    Inr (\<lparr>report_checkpoint = cp, report_committed_batches = length (seen @ rest),
          report_pending_batches = length rest, report_committed_bytes = length log,
          report_discarded_tail_bytes = 0,
          report_maximum_batch_admission =
            (if l + FRAME_OVERHEAD_BYTES \<le> capacity - length log then Available
             else CapacityIsExhausted)\<rparr>, log)"
proof -
  have "checkpoint_load X (Some (checkpoint_encode X cp)) = Inr cp"
    using assms(1,3) by (intro checkpoint_load_encode) (auto simp: cp_def)
  moreover have "scan_committed_frames X log cp l =
      Inr \<lparr>scan_committed_batches = length (seen @ rest), scan_pending_batches = length rest,
         scan_committed_bytes = length log, scan_discarded_tail_bytes = 0\<rparr>"
    unfolding log_def cp_def by (rule scan_whole_spool [OF assms(2,3)])
  moreover have "reserved_frame_bytes l = Inr (l + FRAME_OVERHEAD_BYTES)"
    using assms(4) by (simp add: reserved_frame_bytes_def checked_add_def)
  ultimately show ?thesis by (simp add: recover_files_def Let_def)
qed

text \<open>A checkpoint behind the end of the file is refused.\<close>

lemma recover_beyond_end:
  assumes dig: "digest_ok X" and ok: "list_all (batch_ok X l) bs"
    and len: "length (concat (map (frame_of X) bs)) \<le> u64_max"
    and tail: "torn_tail X l (length (concat (map (frame_of X) bs))) tail"
    and cp: "length (concat (map (frame_of X) bs) @ tail) < cp" "cp \<le> u64_max"
  shows "recover_files X (Some (checkpoint_encode X cp)) (Some (concat (map (frame_of X) bs) @ tail)) capacity l =
    Inl (corrupt ''spool checkpoint is not a committed frame boundary'')"
proof -
  let ?f = "concat (map (frame_of X) bs) @ tail"
  let ?s = "\<lparr>ss_committed_batches = 0, ss_pending_batches = 0, ss_checkpoint_is_boundary = (cp = 0)\<rparr>"
  have complete: "\<exists>r. scan_loop X (concat (map (frame_of X) cs)) cp l 0 ?s = Inr r"
    if "list_all (batch_ok X l) cs" "length (concat (map (frame_of X) cs)) \<le> u64_max" for cs
    using spool_log.scan_complete_frames [of X l cs "[]" ?s "[]" cp] that
    by (simp add: spool_log.scan_end scan_room_def del: length_concat)
  have "\<exists>r. scan_loop X ?f cp l 0 ?s = Inr r"
    using tail
  proof (cases rule: torn_tail_cases)
    case none
    with complete ok len show ?thesis by simp
  next
    case (part mb k)
    with spool_log.scan_torn_log [of X l bs mb k "[]" ?s cp] ok show ?thesis
      by (simp add: scan_room_def del: length_concat)
  next
    case (whole mb)
    with complete [of "bs @ [mb]"] ok show ?thesis by simp
  qed
  then obtain s q d where loop: "scan_loop X ?f cp l 0 ?s = Inr (s, q, d)" by auto
  then have "q \<le> length ?f" using scan_loop_accepts [OF dig loop] by auto
  with loop cp(1) have "scan_committed_frames X ?f cp l =
      Inl (corrupt ''spool checkpoint is not a committed frame boundary'')"
    by (simp add: scan_committed_frames_def)
  with checkpoint_load_encode [OF dig cp(2)] show ?thesis by (simp add: recover_files_def)
qed

text \<open>
  Recovery after any crash: the synchronized frames come back, with at most one more batch whose
  frame the crash left complete.
\<close>

lemma recover_torn_tail:
  assumes dig: "digest_ok X" and ok: "list_all (batch_ok X l) (seen @ rest)"
    and len: "length (concat (map (frame_of X) (seen @ rest))) \<le> u64_max"
    and lim: "l + FRAME_OVERHEAD_BYTES \<le> u64_max"
    and tail: "torn_tail X l (length (concat (map (frame_of X) (seen @ rest)))) tail"
  shows "\<exists>extra report. length extra \<le> 1 \<and> list_all (batch_ok X l) extra \<and>
    recover_files X (Some (checkpoint_encode X (length (concat (map (frame_of X) seen)))))
      (Some (concat (map (frame_of X) (seen @ rest)) @ tail)) capacity l =
    Inr (report, concat (map (frame_of X) (seen @ rest @ extra))) \<and>
    report_checkpoint report = length (concat (map (frame_of X) seen)) \<and>
    report_committed_bytes report = length (concat (map (frame_of X) (seen @ rest @ extra))) \<and>
    report_committed_batches report = length (seen @ rest @ extra) \<and>
    report_pending_batches report = length (rest @ extra) \<and>
    length (concat (map (frame_of X) (seen @ rest @ extra))) \<le> u64_max"
  using tail
proof (cases rule: torn_tail_cases)
  case none
  with recover_whole_spool [OF dig ok len lim] len show ?thesis
    by (intro exI [of _ "[]"]) simp
next
  case (part mb k)
  then have "length (concat (map (frame_of X) (seen @ rest)) @ frame_of X mb) \<le> u64_max" by simp
  from recover_torn_spool [OF ok part(1,2) this lim] part(3) len show ?thesis
    by (intro exI [of _ "[]"]) simp
next
  case (whole mb)
  then have "list_all (batch_ok X l) (seen @ rest @ [mb])"
    "length (concat (map (frame_of X) (seen @ rest @ [mb]))) \<le> u64_max" using ok by simp_all
  from recover_whole_spool [OF dig this lim] this whole show ?thesis
    by (intro exI [of _ "[mb]"]) simp
qed

end
