(* ===== verification/Checkpoint_Plan.thy ===== *)
theory Checkpoint_Plan
  imports Spool_Frame
begin

text \<open>
  Planning the next spool checkpoint (\<open>elucid-ingestion/src/output_recovery.rs\<close>): which batches
  at the head of the spool have every occurrence covered by exactly one published output, and
  what recovery does with an output that a crash left behind.

  The registration an output carries (\<open>RecoveryOutput\<close>) plays no part here and is the type
  parameter of \<open>output_recovery_record\<close>. A \<open>BTreeMap\<close> is a map, a \<open>BTreeSet\<close> a set.
\<close>

datatype output_recovery_model_error =
    MetadataOutOfRange
  | RecoveryIdentityMustBeUuidV7
  | CoveredPositionsMustNotBeEmpty
  | PositionsMustIncrease
  | CoveredBatchLimitExceeded
  | CoveredPositionLimitExceeded
  | CoveredBatchesOverlap
  | SegmentRowCoverageMismatch
  | DeadLetterBatchMismatch
  | OutputKindCannotChange
  | ReplacementIdentitiesMustChange
  | RecoveryRevisionExhausted
  | OutputIsNotPublished
  | RetainedSpoolBytesMissing
  | DuplicateBatchRequirements
  | BatchRequirementsAreNotContiguous
  | PublishedCoverageIsUnknown
  | PublishedCoverageRangeMismatch
  | PublishedCoverageOverlaps

definition MAXIMUM_COVERED_BATCHES :: nat where
  "MAXIMUM_COVERED_BATCHES = 50000"

definition MAXIMUM_COVERED_POSITIONS :: nat where
  "MAXIMUM_COVERED_POSITIONS = 100000"

section \<open>Coverage and requirements\<close>

text \<open>\<open>windows(2).any(|pair| pair[0] >= pair[1])\<close> finds no pair.\<close>

fun strictly_increasing :: "nat list \<Rightarrow> bool" where
  "strictly_increasing (a # b # xs) \<longleftrightarrow> a < b \<and> strictly_increasing (b # xs)"
| "strictly_increasing _ \<longleftrightarrow> True"

definition validate_positions :: "nat list \<Rightarrow> output_recovery_model_error + unit" where
  "validate_positions positions =
     (if positions = [] then Inl CoveredPositionsMustNotBeEmpty
      else if length positions > MAXIMUM_COVERED_POSITIONS then Inl CoveredPositionLimitExceeded
      else if \<not> strictly_increasing positions then Inl PositionsMustIncrease
      else Inr ())"

record batch_position_coverage =
  cov_batch_id :: uuid
  cov_spool_range :: spool_batch_range
  cov_positions :: "nat list"

definition batch_position_coverage_new ::
  "uuid \<Rightarrow> spool_batch_range \<Rightarrow> nat list \<Rightarrow> output_recovery_model_error + batch_position_coverage" where
  "batch_position_coverage_new b spool_range positions =
     sbind (validate_positions positions) (\<lambda>_.
     Inr \<lparr>cov_batch_id = b, cov_spool_range = spool_range, cov_positions = positions\<rparr>)"

record batch_output_requirements =
  req_batch_id :: uuid
  req_spool_range :: spool_batch_range
  req_positions :: "nat list"

definition batch_output_requirements_new ::
  "uuid \<Rightarrow> spool_batch_range \<Rightarrow> nat list \<Rightarrow> output_recovery_model_error + batch_output_requirements" where
  "batch_output_requirements_new b spool_range positions =
     (if length positions > MAXIMUM_COVERED_POSITIONS then Inl CoveredPositionLimitExceeded
      else if \<not> strictly_increasing positions then Inl PositionsMustIncrease
      else Inr \<lparr>req_batch_id = b, req_spool_range = spool_range, req_positions = positions\<rparr>)"

text \<open>The loop of \<open>validate_coverage\<close>: the running number of positions and the identities seen.\<close>

fun validate_coverage_items ::
  "nat \<Rightarrow> uuid set \<Rightarrow> batch_position_coverage list \<Rightarrow> output_recovery_model_error + unit" where
  "validate_coverage_items positions batch_ids [] = Inr ()"
| "validate_coverage_items positions batch_ids (item # items) =
     sbind (validate_positions (cov_positions item)) (\<lambda>_.
     sbind (ok_or (checked_add positions (length (cov_positions item))) CoveredPositionLimitExceeded)
       (\<lambda>positions'.
     if positions' > MAXIMUM_COVERED_POSITIONS \<or> cov_batch_id item \<in> batch_ids
     then Inl CoveredBatchesOverlap
     else validate_coverage_items positions' (insert (cov_batch_id item) batch_ids) items))"

fun ranges_ordered :: "batch_position_coverage list \<Rightarrow> bool" where
  "ranges_ordered (a # b # xs) \<longleftrightarrow>
     range_end (cov_spool_range a) \<le> range_start (cov_spool_range b) \<and> ranges_ordered (b # xs)"
| "ranges_ordered _ \<longleftrightarrow> True"

definition validate_coverage :: "batch_position_coverage list \<Rightarrow> output_recovery_model_error + unit" where
  "validate_coverage coverage =
     (if coverage = [] then Inl CoveredPositionsMustNotBeEmpty
      else if length coverage > MAXIMUM_COVERED_BATCHES then Inl CoveredBatchLimitExceeded
      else sbind (validate_coverage_items 0 {} coverage) (\<lambda>_.
        if \<not> ranges_ordered coverage then Inl CoveredBatchesOverlap else Inr ()))"

section \<open>Outputs after a crash\<close>

record 'o output_recovery_record =
  or_id :: uuid
  or_revision :: nat
  or_output :: 'o
  or_coverage :: "batch_position_coverage list"

datatype unregistered_output_bytes = UnregisteredAvailable | UnregisteredMissing

datatype planned_output_bytes =
  PlannedAvailable | MissingUnverified | MissingVerified | MissingAbsent

datatype output_recovery_observation =
    Unregistered unregistered_output_bytes
  | Planned planned_output_bytes
  | Uploaded
  | Published
  | Abandoned

datatype output_recovery_action =
    Register
  | Rebuild
  | Upload
  | VerifyExactObject
  | RecordVerifiedUpload
  | Publish
  | Complete
  | AbandonAndRebuild

datatype retained_spool_bytes = RetainedAvailable | RetainedMissing

fun observed_action :: "output_recovery_observation \<Rightarrow> output_recovery_action" where
  "observed_action (Unregistered UnregisteredAvailable) = Register"
| "observed_action (Unregistered UnregisteredMissing) = Rebuild"
| "observed_action (Planned PlannedAvailable) = Upload"
| "observed_action (Planned MissingUnverified) = VerifyExactObject"
| "observed_action (Planned MissingVerified) = RecordVerifiedUpload"
| "observed_action (Planned MissingAbsent) = AbandonAndRebuild"
| "observed_action Uploaded = Publish"
| "observed_action Published = Complete"
| "observed_action Abandoned = Rebuild"

definition recovery_action ::
  "output_recovery_observation \<Rightarrow> retained_spool_bytes \<Rightarrow>
   output_recovery_model_error + output_recovery_action" where
  "recovery_action observation retained_spool =
     (let action = observed_action observation in
      if action \<in> {Rebuild, AbandonAndRebuild} \<and> retained_spool = RetainedMissing
      then Inl RetainedSpoolBytesMissing else Inr action)"

text \<open>\<open>PublishedOutput\<close> is a record whose output was observed to be published.\<close>

definition published_output_resolve ::
  "'o output_recovery_record \<Rightarrow> output_recovery_observation \<Rightarrow>
   output_recovery_model_error + 'o output_recovery_record" where
  "published_output_resolve rec observation =
     (if observation \<noteq> Published then Inl OutputIsNotPublished else Inr rec)"

section \<open>Planning\<close>

record checkpoint_plan =
  plan_current :: nat
  plan_target :: nat

type_synonym occurrence = "uuid \<times> nat"

text \<open>The pairs the code collects into \<open>required\<close>, and the ones its loop over the outputs visits.\<close>

definition required_entries :: "batch_output_requirements list \<Rightarrow> (occurrence \<times> spool_batch_range) list" where
  "required_entries batches =
     concat (map (\<lambda>b. map (\<lambda>p. ((req_batch_id b, p), req_spool_range b)) (req_positions b)) batches)"

definition coverage_entries :: "'o output_recovery_record list \<Rightarrow> (occurrence \<times> spool_batch_range) list" where
  "coverage_entries outputs =
     concat (map (\<lambda>c. map (\<lambda>p. ((cov_batch_id c, p), cov_spool_range c)) (cov_positions c))
       (concat (map or_coverage outputs)))"

fun cover_occurrences ::
  "uuid set \<Rightarrow> (occurrence \<rightharpoonup> spool_batch_range) \<Rightarrow> (occurrence \<times> spool_batch_range) list \<Rightarrow>
   (occurrence \<rightharpoonup> spool_batch_range) \<Rightarrow>
   output_recovery_model_error + (occurrence \<rightharpoonup> spool_batch_range)" where
  "cover_occurrences known required [] covered = Inr covered"
| "cover_occurrences known required ((key, spool_range) # entries) covered =
     (if fst key \<in> known then
        sbind (ok_or (required key) PublishedCoverageIsUnknown) (\<lambda>required_range.
        if required_range \<noteq> spool_range then Inl PublishedCoverageRangeMismatch
        else if covered key \<noteq> None then Inl PublishedCoverageOverlaps
        else cover_occurrences known required entries (covered(key \<mapsto> spool_range)))
      else cover_occurrences known required entries covered)"

definition fully_covered :: "(occurrence \<rightharpoonup> spool_batch_range) \<Rightarrow> batch_output_requirements \<Rightarrow> bool" where
  "fully_covered covered b \<longleftrightarrow> list_all (\<lambda>p. covered (req_batch_id b, p) \<noteq> None) (req_positions b)"

fun advance_target ::
  "(occurrence \<rightharpoonup> spool_batch_range) \<Rightarrow> nat \<Rightarrow> batch_output_requirements list \<Rightarrow>
   output_recovery_model_error + nat" where
  "advance_target covered target [] = Inr target"
| "advance_target covered target (b # bs) =
     (if range_start (req_spool_range b) \<noteq> target then Inl BatchRequirementsAreNotContiguous
      else if \<not> fully_covered covered b then Inr target
      else advance_target covered (range_end (req_spool_range b)) bs)"

definition plan_checkpoint ::
  "nat \<Rightarrow> batch_output_requirements list \<Rightarrow> 'o output_recovery_record list \<Rightarrow>
   output_recovery_model_error + checkpoint_plan option" where
  "plan_checkpoint current batches outputs =
     (let known_batches = set (map req_batch_id batches) in
      if card known_batches \<noteq> length batches then Inl DuplicateBatchRequirements else
      let required = map_of (rev (required_entries batches)) in
      sbind (cover_occurrences known_batches required (coverage_entries outputs) Map.empty)
        (\<lambda>covered.
      sbind (advance_target covered current batches) (\<lambda>target.
      Inr (if target \<noteq> current then Some \<lparr>plan_current = current, plan_target = target\<rparr>
           else None))))"

section \<open>What a plan promises\<close>

text \<open>The occurrences the outputs cover, of the batches that are being planned.\<close>

definition known_entries ::
  "uuid set \<Rightarrow> (occurrence \<times> spool_batch_range) list \<Rightarrow> (occurrence \<times> spool_batch_range) list" where
  "known_entries known entries = filter (\<lambda>e. fst (fst e) \<in> known) entries"

lemma cover_occurrences_spec:
  "cover_occurrences known required entries covered = Inr covered' \<Longrightarrow>
   covered' = covered ++ map_of (known_entries known entries) \<and>
   distinct (map fst (known_entries known entries)) \<and>
   (\<forall>(k, r) \<in> set (known_entries known entries). required k = Some r \<and> covered k = None)"
proof (induction entries arbitrary: covered)
  case Nil
  then show ?case by (simp add: known_entries_def)
next
  case (Cons e entries)
  obtain key r where e: "e = (key, r)" by (cases e)
  show ?case
  proof (cases "fst key \<in> known")
    case False
    with Cons.prems e have "cover_occurrences known required entries covered = Inr covered'" by simp
    note IH = Cons.IH [OF this]
    have same: "known_entries known (e # entries) = known_entries known entries"
      using False e by (simp add: known_entries_def)
    show ?thesis unfolding same by (rule IH)
  next
    case True
    with Cons.prems e have here: "required key = Some r" "covered key = None"
      and rest: "cover_occurrences known required entries (covered(key \<mapsto> r)) = Inr covered'"
      by (auto simp: result_simps split: if_split_asm)
    note IH = Cons.IH [OF rest]
    have "key \<notin> fst ` set (known_entries known entries)" using IH by force
    then have "covered(key \<mapsto> r) ++ map_of (known_entries known entries) =
        covered ++ (map_of (known_entries known entries))(key \<mapsto> r)"
      by (simp add: map_add_upd_left dom_map_of_conv_image_fst)
    then have covered': "covered' = covered ++ map_of ((key, r) # known_entries known entries)"
      using IH by (simp only: map_of.simps fst_conv snd_conv)
    have cons: "known_entries known (e # entries) = (key, r) # known_entries known entries"
      using True e by (simp add: known_entries_def)
    have "\<forall>(k, r) \<in> set (known_entries known entries). required k = Some r \<and> covered k = None"
      using IH by (auto split: if_split_asm)
    then have "distinct (map fst ((key, r) # known_entries known entries)) \<and>
        (\<forall>(k, r) \<in> set ((key, r) # known_entries known entries). required k = Some r \<and> covered k = None)"
      using IH here \<open>key \<notin> _\<close> by simp
    with covered' show ?thesis unfolding cons by (rule conjI)
  qed
qed

text \<open>Contiguous batches from one position to another.\<close>

fun contiguous :: "nat \<Rightarrow> batch_output_requirements list \<Rightarrow> nat \<Rightarrow> bool" where
  "contiguous p [] q \<longleftrightarrow> p = q"
| "contiguous p (b # bs) q \<longleftrightarrow>
     range_start (req_spool_range b) = p \<and> contiguous (range_end (req_spool_range b)) bs q"

lemma advance_target_Inr:
  assumes "advance_target covered p batches = Inr target"
  shows "\<exists>ready rest. batches = ready @ rest \<and> contiguous p ready target \<and>
    list_all (fully_covered covered) ready \<and>
    (rest = [] \<or> range_start (req_spool_range (hd rest)) = target \<and> \<not> fully_covered covered (hd rest))"
  using assms
proof (induction covered p batches rule: advance_target.induct)
  case (2 covered p b bs)
  show ?case
  proof (cases "fully_covered covered b")
    case True
    then obtain ready rest where "bs = ready @ rest"
        "contiguous (range_end (req_spool_range b)) ready target" "list_all (fully_covered covered) ready"
        "rest = [] \<or> range_start (req_spool_range (hd rest)) = target \<and> \<not> fully_covered covered (hd rest)"
      using 2 by (auto split: if_splits)
    then show ?thesis using True "2.prems"
      by (intro exI [of _ "b # ready"] exI [of _ rest]) (auto split: if_splits)
  next
    case False
    with "2.prems" show ?thesis
      by (intro exI [of _ "[]"] exI [of _ "b # bs"]) (auto split: if_splits)
  qed
qed auto

lemma known_entries_iff:
  "e \<in> set (known_entries known entries) \<longleftrightarrow> e \<in> set entries \<and> fst (fst e) \<in> known"
  by (auto simp: known_entries_def)

lemma fully_covered_iff:
  assumes "cover_occurrences known required entries Map.empty = Inr covered" "req_batch_id b \<in> known"
    and "\<forall>p \<in> set (req_positions b). required (req_batch_id b, p) = Some (req_spool_range b)"
  shows "fully_covered covered b \<longleftrightarrow>
    (\<forall>p \<in> set (req_positions b). ((req_batch_id b, p), req_spool_range b) \<in> set entries)"
proof -
  note spec = cover_occurrences_spec [OF assms(1)]
  have "covered = map_of (known_entries known entries)" using spec by simp
  moreover have "map_of (known_entries known entries) k \<noteq> None \<longleftrightarrow>
      (\<exists>r. (k, r) \<in> set (known_entries known entries))" for k
    by (auto simp: map_of_eq_None_iff) force
  moreover have "r = req_spool_range b"
    if "p \<in> set (req_positions b)" "((req_batch_id b, p), r) \<in> set (known_entries known entries)" for p r
    using that(2) bspec [OF assms(3) that(1)] spec by (auto dest!: bspec)
  ultimately show ?thesis using assms(2)
    unfolding fully_covered_def list_all_iff by (metis fst_conv known_entries_iff)
qed

text \<open>The requirement map returns the range of the batch, when the identities are distinct.\<close>

lemma required_lookup:
  assumes "distinct (map req_batch_id batches)" "b \<in> set batches" "p \<in> set (req_positions b)"
  shows "map_of (rev (required_entries batches)) (req_batch_id b, p) = Some (req_spool_range b)"
proof -
  let ?es = "rev (required_entries batches)"
  have mem: "((req_batch_id b, p), req_spool_range b) \<in> set ?es"
    using assms(2,3) by (auto simp: required_entries_def)
  then obtain r where r: "map_of ?es (req_batch_id b, p) = Some r"
    by (metis not_Some_eq map_of_eq_None_iff fst_conv image_eqI)
  from map_of_SomeD [OF this] obtain b' where "b' \<in> set batches" "req_batch_id b' = req_batch_id b"
      "r = req_spool_range b'"
    by (auto simp: required_entries_def)
  moreover from this assms(1,2) have "b' = b" by (auto simp: distinct_map inj_on_def)
  ultimately show ?thesis using r by simp
qed

lemma distinct_of_card: "card (set (map f xs)) = length xs \<Longrightarrow> distinct (map f xs)"
  by (metis card_distinct length_map)

lemma plan_checkpoint_cases:
  assumes "plan_checkpoint current batches outputs = Inr plan"
  obtains covered target where "distinct (map req_batch_id batches)"
    "cover_occurrences (set (map req_batch_id batches)) (map_of (rev (required_entries batches)))
       (coverage_entries outputs) Map.empty = Inr covered"
    "advance_target covered current batches = Inr target"
    "plan = (if target \<noteq> current then Some \<lparr>plan_current = current, plan_target = target\<rparr> else None)"
  using assms distinct_of_card [of req_batch_id batches]
  by (auto simp: plan_checkpoint_def Let_def result_simps split: if_split_asm)

text \<open>
  An occurrence is published when some output covers it with the range of its own batch.
\<close>

definition published :: "'o output_recovery_record list \<Rightarrow> batch_output_requirements \<Rightarrow> bool" where
  "published outputs b \<longleftrightarrow>
     (\<forall>p \<in> set (req_positions b).
        ((req_batch_id b, p), req_spool_range b) \<in> set (coverage_entries outputs))"

lemma plan_checkpoint_ready:
  assumes "plan_checkpoint current batches outputs = Inr plan"
  shows "\<exists>ready rest. batches = ready @ rest \<and>
    contiguous current ready (case plan of None \<Rightarrow> current | Some pl \<Rightarrow> plan_target pl) \<and>
    list_all (published outputs) ready \<and> (rest = [] \<or> \<not> published outputs (hd rest))"
proof -
  obtain covered target where d: "distinct (map req_batch_id batches)"
    and c: "cover_occurrences (set (map req_batch_id batches)) (map_of (rev (required_entries batches)))
       (coverage_entries outputs) Map.empty = Inr covered"
    and a: "advance_target covered current batches = Inr target"
    and plan: "plan = (if target \<noteq> current then Some \<lparr>plan_current = current, plan_target = target\<rparr>
       else None)"
    by (rule plan_checkpoint_cases [OF assms])
  have fc: "fully_covered covered b = published outputs b" if "b \<in> set batches" for b
    using fully_covered_iff [OF c, of b] required_lookup [OF d that] that by (auto simp: published_def)
  obtain ready rest where "batches = ready @ rest" "contiguous current ready target"
      "list_all (fully_covered covered) ready"
      "rest = [] \<or> range_start (req_spool_range (hd rest)) = target \<and> \<not> fully_covered covered (hd rest)"
    using advance_target_Inr [OF a] by blast
  with fc have "batches = ready @ rest \<and> contiguous current ready target \<and>
      list_all (published outputs) ready \<and> (rest = [] \<or> \<not> published outputs (hd rest))"
    by (cases rest) (auto simp: list_all_iff)
  moreover have "(case plan of None \<Rightarrow> current | Some pl \<Rightarrow> plan_target pl) = target"
    using plan by simp
  ultimately show ?thesis by auto
qed

end
