(* ===== verification/Spool.thy ===== *)
theory Spool
  imports Spool_Recovery Checkpoint_Plan
begin

text \<open>
  The live spool (\<open>elucid-ingestion/src/spool.rs\<close>): capacity reservations, durable appends, the
  checkpoint and the reclamation of checkpointed data.

  \<open>SpoolInner\<close> is the record \<open>spool_state\<close>; a method is a function from the state to its result
  and the next state. The data file and the checkpoint file are bytes. An I/O operation may fail
  at any point: where, and how much of a write reached the file before, is an argument of the
  operation. Lock poisoning and the loss of a blocking task are not modelled.
\<close>

section \<open>State\<close>

record spool_state =
  sp_capacity :: nat
  sp_data :: bytes
  sp_generation :: nat
  sp_committed_bytes :: nat
  sp_reserved_bytes :: nat
  sp_checkpoint :: nat
  sp_checkpoint_file :: bytes
  sp_extent :: spool_extent
  sp_failed :: bool

record spool_reservation =
  res_body_limit :: nat
  res_reserved_bytes :: nat

definition from_recovered :: "'x spool_env_scheme \<Rightarrow> bytes \<Rightarrow> nat \<Rightarrow> nat \<Rightarrow> nat \<Rightarrow> spool_state" where
  "from_recovered X data capacity committed_bytes checkpoint =
     \<lparr>sp_capacity = capacity, sp_data = data, sp_generation = 0,
      sp_committed_bytes = committed_bytes, sp_reserved_bytes = 0, sp_checkpoint = checkpoint,
      sp_checkpoint_file = checkpoint_encode X checkpoint,
      sp_extent = \<lparr>extent_generation = 0, extent_end = committed_bytes\<rparr>, sp_failed = False\<rparr>"

definition mark_failed :: "spool_state \<Rightarrow> spool_state" where
  "mark_failed s = s\<lparr>sp_failed := True\<rparr>"

definition ensure_writable :: "spool_state \<Rightarrow> spool_error + unit" where
  "ensure_writable s =
     (if sp_failed s
      then Inl (invariant ''spool is unavailable until process restart and recovery'') else Inr ())"

section \<open>Opening\<close>

datatype spool_files = Absent | Complete_Files | Incomplete

definition inspect_spool_files :: "bytes option \<Rightarrow> bytes option \<Rightarrow> spool_files" where
  "inspect_spool_files data checkpoint =
     (case (data, checkpoint) of (None, None) \<Rightarrow> Absent | (Some _, Some _) \<Rightarrow> Complete_Files
      | _ \<Rightarrow> Incomplete)"

text \<open>
  \<open>Spool::open\<close> over the two files of an existing directory: \<open>create_spool_files\<close> writes an empty
  data file and the initial checkpoint, and the result always comes from a recovery.
\<close>

definition spool_open ::
  "'x spool_env_scheme \<Rightarrow> bytes option \<Rightarrow> bytes option \<Rightarrow> nat \<Rightarrow> nat \<Rightarrow>
   spool_error + spool_state \<times> recovered_batches \<times> recovery_report" where
  "spool_open X data checkpoint capacity maximum_batch =
     sbind (case inspect_spool_files data checkpoint of
              Absent \<Rightarrow> Inr (Some [], Some (checkpoint_encode X 0))
            | Complete_Files \<Rightarrow> Inr (data, checkpoint)
            | Incomplete \<Rightarrow> Inl (corrupt ''spool data and checkpoint files are incomplete''))
       (\<lambda>(data, checkpoint).
     sbind (recover_files X checkpoint data capacity maximum_batch) (\<lambda>(report, data).
     Inr (from_recovered X data capacity (report_committed_bytes report) (report_checkpoint report),
          recovered_reader report maximum_batch, report)))"

section \<open>Capacity\<close>

definition reserve :: "nat \<Rightarrow> spool_state \<Rightarrow> (spool_error + spool_reservation) \<times> spool_state" where
  "reserve body_limit s =
     (case sbind (ensure_writable s) (\<lambda>_.
           sbind (reserved_frame_bytes body_limit) (\<lambda>required_bytes.
           sbind (ok_or (checked_add (sp_committed_bytes s) (sp_reserved_bytes s))
                    (invariant ''spool accounting overflow'')) (\<lambda>occupied_bytes.
           let available = sp_capacity s - occupied_bytes in
           if required_bytes > available then Inl (capacity_error required_bytes available)
           else sbind (ok_or (checked_add (sp_reserved_bytes s) required_bytes)
                         (invariant ''spool reservation accounting overflow'')) (\<lambda>reserved.
             Inr (required_bytes, reserved))))) of
        Inl e \<Rightarrow> (Inl e, s)
      | Inr (required_bytes, reserved) \<Rightarrow>
          (Inr \<lparr>res_body_limit = body_limit, res_reserved_bytes = required_bytes\<rparr>,
           s\<lparr>sp_reserved_bytes := reserved\<rparr>))"

definition usage :: "spool_state \<Rightarrow> spool_error + spool_usage" where
  "usage s = sbind (ensure_writable s) (\<lambda>_.
     spool_usage_new (sp_capacity s) (sp_committed_bytes s) (sp_reserved_bytes s))"

definition maximum_batch_admission :: "nat \<Rightarrow> spool_state \<Rightarrow> spool_error + maximum_batch_admission" where
  "maximum_batch_admission body_limit s =
     sbind (ensure_writable s) (\<lambda>_.
     sbind (reserved_frame_bytes body_limit) (\<lambda>required_bytes.
     sbind (ok_or (checked_add (sp_committed_bytes s) (sp_reserved_bytes s))
              (invariant ''spool accounting overflow'')) (\<lambda>occupied_bytes.
     Inr (if required_bytes \<le> sp_capacity s - occupied_bytes then Available
          else CapacityIsExhausted))))"

definition release_reservation :: "nat \<Rightarrow> spool_state \<Rightarrow> spool_state" where
  "release_reservation reserved_bytes s =
     (if sp_reserved_bytes s < reserved_bytes
      then mark_failed s\<lparr>sp_reserved_bytes := 0\<rparr>
      else s\<lparr>sp_reserved_bytes := sp_reserved_bytes s - reserved_bytes\<rparr>)"

section \<open>Appending\<close>

text \<open>
  Where an append meets an I/O error: before the write, after \<open>k\<close> bytes of the frame, or when the
  complete frame is synchronized.
\<close>

datatype write_fault = NoFault | InspectFails | WriteFails nat | SynchronizeFails

definition write_frame ::
  "'x spool_env_scheme \<Rightarrow> batch_metadata \<Rightarrow> bytes \<Rightarrow> write_fault \<Rightarrow> spool_state \<Rightarrow>
   (spool_error + prepared_frame \<times> spool_batch_range) \<times> spool_state" where
  "write_frame X metadata body fault s =
     (case sbind (ensure_writable s) (\<lambda>_. prepared_frame_new X metadata body) of
        Inl e \<Rightarrow> (Inl e, s)
      | Inr prepared \<Rightarrow>
          let start = length (sp_data s);
              frame = pf_header prepared @ body @ pf_footer prepared;
              written = s\<lparr>sp_data := sp_data s @ frame\<rparr>
          in case fault of
               InspectFails \<Rightarrow> (Inl (io_error ''inspect before append''), mark_failed s)
             | WriteFails k \<Rightarrow>
                 (Inl (io_error ''write''),
                  mark_failed (s\<lparr>sp_data := sp_data s @ take (min k (length frame - 1)) frame\<rparr>))
             | SynchronizeFails \<Rightarrow> (Inl (io_error ''synchronize''), mark_failed written)
             | NoFault \<Rightarrow>
                 (sbind (ok_or (checked_add start (pf_stored_bytes prepared))
                           (invariant ''spool append position overflow'')) (\<lambda>end_pos.
                  sbind (spool_batch_range_new start end_pos) (\<lambda>spool_range. Inr (prepared, spool_range))),
                  written))"

text \<open>
  \<open>commit_reservation\<close> in its two atomic parts: the accounting under its lock, and the publication
  of the extent to the readers after the lock is released.
\<close>

definition commit_accounting ::
  "nat \<Rightarrow> nat \<Rightarrow> spool_state \<Rightarrow> (spool_error + spool_extent) \<times> spool_state" where
  "commit_accounting reserved_bytes committed_bytes s =
     (if committed_bytes > reserved_bytes \<or> sp_reserved_bytes s < reserved_bytes
      then (Inl (invariant ''durable append does not fit its capacity reservation''), mark_failed s)
      else case checked_add (sp_committed_bytes s) committed_bytes of
          None \<Rightarrow> (Inl (invariant ''committed spool byte count overflow''), mark_failed s)
        | Some new_committed \<Rightarrow>
            (Inr \<lparr>extent_generation = sp_generation s, extent_end = new_committed\<rparr>,
             s\<lparr>sp_committed_bytes := new_committed,
               sp_reserved_bytes := sp_reserved_bytes s - reserved_bytes\<rparr>))"

definition publish_extent :: "spool_extent \<Rightarrow> spool_state \<Rightarrow> spool_state" where
  "publish_extent extent s = s\<lparr>sp_extent := extent\<rparr>"

definition commit_reservation ::
  "nat \<Rightarrow> nat \<Rightarrow> spool_state \<Rightarrow> (spool_error + unit) \<times> spool_state" where
  "commit_reservation reserved_bytes committed_bytes s =
     (case commit_accounting reserved_bytes committed_bytes s of
        (Inl e, s') \<Rightarrow> (Inl e, s')
      | (Inr extent, s') \<Rightarrow> (Inr (), publish_extent extent s'))"

definition append_reserved ::
  "'x spool_env_scheme \<Rightarrow> batch_metadata \<Rightarrow> bytes \<Rightarrow> nat \<Rightarrow> write_fault \<Rightarrow> spool_state \<Rightarrow>
   (spool_error + durable_append) \<times> spool_state" where
  "append_reserved X metadata body reserved_bytes fault s =
     (case write_frame X metadata body fault s of
        (Inr (prepared, spool_range), s') \<Rightarrow>
          (case commit_reservation reserved_bytes (pf_stored_bytes prepared) s' of
             (Inl e, s'') \<Rightarrow> (Inl e, s'')
           | (Inr _, s'') \<Rightarrow>
               (Inr \<lparr>da_metadata = metadata, da_body_bytes = pf_body_bytes prepared,
                     da_body_digest = pf_body_digest prepared, da_range = spool_range\<rparr>, s''))
      | (Inl e, s') \<Rightarrow> (Inl e, release_reservation reserved_bytes (mark_failed s')))"

text \<open>
  \<open>SpoolReservation::append\<close> consumes the reservation. The checks before the write leave it
  active, so that dropping it releases the reserved bytes.
\<close>

definition append_checks :: "spool_reservation \<Rightarrow> bytes \<Rightarrow> spool_state \<Rightarrow> spool_error + unit" where
  "append_checks r body s =
     sbind (ensure (length body \<le> u64_max) (invariant ''batch body length exceeds u64'')) (\<lambda>_.
     if length body > res_body_limit r
     then Inl (batch_limit_error (length body) (res_body_limit r)) else ensure_writable s)"

definition append_batch ::
  "'x spool_env_scheme \<Rightarrow> spool_reservation \<Rightarrow> batch_metadata \<Rightarrow> bytes \<Rightarrow> write_fault \<Rightarrow> spool_state \<Rightarrow>
   (spool_error + durable_append) \<times> spool_state" where
  "append_batch X r metadata body fault s =
     (case append_checks r body s of
        Inl e \<Rightarrow> (Inl e, release_reservation (res_reserved_bytes r) s)
      | Inr _ \<Rightarrow> append_reserved X metadata body (res_reserved_bytes r) fault s)"

section \<open>The checkpoint\<close>

definition get_checkpoint :: "spool_state \<Rightarrow> spool_error + nat" where
  "get_checkpoint s = sbind (ensure_writable s) (\<lambda>_. Inr (sp_checkpoint s))"

text \<open>
  \<open>checkpoint::store\<close> writes and synchronizes a temporary file, renames it over the checkpoint and
  synchronizes the directory. Only the last of these can fail with the new file in place.
\<close>

datatype store_fault =
    CreateNextFails
  | WriteNextFails
  | SynchronizeNextFails
  | ReplaceFails
  | SynchronizeDirectoryFails

fun store_error :: "store_fault \<Rightarrow> spool_error" where
  "store_error CreateNextFails = io_error ''create the next spool checkpoint''"
| "store_error WriteNextFails = io_error ''write the next spool checkpoint''"
| "store_error SynchronizeNextFails = io_error ''synchronize the next spool checkpoint''"
| "store_error ReplaceFails = io_error ''replace the spool checkpoint''"
| "store_error SynchronizeDirectoryFails = io_error ''synchronize the spool directory''"

definition checkpoint_store ::
  "'x spool_env_scheme \<Rightarrow> store_fault option \<Rightarrow> nat \<Rightarrow> bytes \<Rightarrow> (spool_error + unit) \<times> bytes" where
  "checkpoint_store X fault position old =
     (case fault of
        None \<Rightarrow> (Inr (), checkpoint_encode X position)
      | Some f \<Rightarrow> (Inl (store_error f),
          if f = SynchronizeDirectoryFails then checkpoint_encode X position else old))"

definition advance_checkpoint ::
  "'x spool_env_scheme \<Rightarrow> checkpoint_plan \<Rightarrow> store_fault option \<Rightarrow> spool_state \<Rightarrow>
   (spool_error + nat) \<times> spool_state" where
  "advance_checkpoint X plan fault s =
     (case ensure_writable s of
        Inl e \<Rightarrow> (Inl e, s)
      | Inr _ \<Rightarrow>
          if plan_current plan \<noteq> sp_checkpoint s
          then (Inl (invariant ''checkpoint plan is stale''), s)
          else if plan_target plan > sp_committed_bytes s
          then (Inl (invariant ''checkpoint plan exceeds committed spool data''), s)
          else case checkpoint_store X fault (plan_target plan) (sp_checkpoint_file s) of
              (Inl e, cp) \<Rightarrow> (Inl e, mark_failed (s\<lparr>sp_checkpoint_file := cp\<rparr>))
            | (Inr _, cp) \<Rightarrow> (Inr (plan_target plan),
                s\<lparr>sp_checkpoint_file := cp, sp_checkpoint := plan_target plan\<rparr>))"

datatype truncate_fault = NoTruncateFault | TruncateFails | SeekFails | ResynchronizeFails

datatype spool_reclamation = Deferred | Reclaimed nat

text \<open>
  The locked part of \<open>reclaim_checkpointed\<close>, with the extent that is published after it. The
  checkpoint is reset before the data file is truncated.
\<close>

definition reclaim_locked ::
  "'x spool_env_scheme \<Rightarrow> store_fault option \<Rightarrow> truncate_fault \<Rightarrow> spool_state \<Rightarrow>
   (spool_error + spool_reclamation \<times> spool_extent option) \<times> spool_state" where
  "reclaim_locked X store_fault fault s =
     (case ensure_writable s of
        Inl e \<Rightarrow> (Inl e, s)
      | Inr _ \<Rightarrow>
          if sp_reserved_bytes s \<noteq> 0 \<or> sp_checkpoint s = 0 \<or>
             sp_checkpoint s \<noteq> sp_committed_bytes s
          then (Inr (Deferred, None), s)
          else case checkpoint_store X store_fault 0 (sp_checkpoint_file s) of
              (Inl e, cp) \<Rightarrow> (Inl e, mark_failed (s\<lparr>sp_checkpoint_file := cp\<rparr>))
            | (Inr _, cp) \<Rightarrow>
                let reset = s\<lparr>sp_checkpoint_file := cp, sp_checkpoint := 0\<rparr>;
                    truncated = reset\<lparr>sp_data := []\<rparr>;
                    cleared = truncated\<lparr>sp_committed_bytes := 0\<rparr>
                in case fault of
                     TruncateFails \<Rightarrow>
                       (Inl (io_error ''truncate checkpointed spool data''), mark_failed reset)
                   | SeekFails \<Rightarrow>
                       (Inl (io_error ''reset the spool writer position''), mark_failed truncated)
                   | ResynchronizeFails \<Rightarrow>
                       (Inl (io_error ''synchronize reclaimed spool data''), mark_failed truncated)
                   | NoTruncateFault \<Rightarrow>
                       (case checked_add (sp_generation s) 1 of
                          None \<Rightarrow>
                            (Inl (invariant ''spool reclamation generation overflow''),
                             mark_failed cleared)
                        | Some generation \<Rightarrow>
                            (Inr (Reclaimed (sp_committed_bytes s),
                                  Some \<lparr>extent_generation = generation, extent_end = 0\<rparr>),
                             cleared\<lparr>sp_generation := generation\<rparr>)))"

definition reclaim_checkpointed ::
  "'x spool_env_scheme \<Rightarrow> store_fault option \<Rightarrow> truncate_fault \<Rightarrow> spool_state \<Rightarrow>
   (spool_error + spool_reclamation) \<times> spool_state" where
  "reclaim_checkpointed X store_fault fault s =
     (case reclaim_locked X store_fault fault s of
        (Inl e, s') \<Rightarrow> (Inl e, s')
      | (Inr (reclamation, None), s') \<Rightarrow> (Inr reclamation, s')
      | (Inr (reclamation, Some extent), s') \<Rightarrow> (Inr reclamation, publish_extent extent s'))"

end
