(* ===== verification/Spool_System.thy ===== *)
theory Spool_System
  imports Spool
begin

text \<open>
  The spool under concurrent callers. A call of the service is a sequence of atomic sections: a
  reservation and a commit each hold the accounting lock, a frame is written and synchronized
  under the writer lock, an extent is published after the lock is released, the checkpoint and
  the reclamation hold their locks throughout (with the check that precedes them). The step
  relation interleaves these sections freely, and any write may fail or stop part way. The
  process may be stopped at any time and started again over the same directory, after a loss of
  power over what the disk kept of it.

  The system keeps, besides the spool, the reservations that are held, the appends between their
  write and their commit, the extents that are still to be published, and as history variables
  the acknowledged appends, the ones a reclamation removed, the length up to which the data file
  is known to be on disk and the bytes that the running process found when it opened the file.

  The bytes behind \<open>sys_synced\<close> may be lost with the power, the last ones first. Only \<open>sync_all\<close>
  moves that mark: after a frame is written, after a reclamation, and in a recovery that discards
  a tail. A recovery that discards nothing synchronizes nothing.
\<close>

section \<open>Operations in flight\<close>

text \<open>An append whose frame is synchronized; the range is what the caller will be told.\<close>

record inflight =
  in_batch :: "batch_metadata \<times> bytes"
  in_reserved :: nat
  in_range :: spool_batch_range

definition in_stored :: "inflight \<Rightarrow> nat" where
  "in_stored w = length (snd (in_batch w)) + FRAME_OVERHEAD_BYTES"

record spool_system =
  sys_spool :: spool_state
  sys_active :: "spool_reservation list"
  sys_written :: "inflight list"
  sys_publishing :: "(inflight option \<times> spool_extent) list"
  sys_acked :: "inflight list"
  sys_retired :: "inflight list"
  sys_synced :: nat
  sys_opened :: nat

definition publishing_batches :: "spool_system \<Rightarrow> inflight list" where
  "publishing_batches S = List.map_filter fst (sys_publishing S)"

text \<open>A range of the data file that holds exactly one valid frame.\<close>

definition frame_at :: "'x spool_env_scheme \<Rightarrow> nat \<Rightarrow> bytes \<Rightarrow> spool_batch_range \<Rightarrow> bool" where
  "frame_at X l data r \<longleftrightarrow>
     (\<exists>mb. batch_ok X l mb \<and> range_end r = range_start r + length (frame_of X mb) \<and>
        take (length (frame_of X mb)) (drop (range_start r) data) = frame_of X mb)"

text \<open>
  A process starts with the spool that it opened. The recovery synchronizes the file only when it
  discards a tail; otherwise what was on disk before is on disk.
\<close>

definition synced_by_recovery :: "recovery_report \<Rightarrow> spool_state \<Rightarrow> nat \<Rightarrow> nat" where
  "synced_by_recovery report s synced =
     (if report_discarded_tail_bytes report > 0 then length (sp_data s) else synced)"

definition spool_start :: "nat \<Rightarrow> spool_state \<Rightarrow> spool_system" where
  "spool_start synced s = \<lparr>sys_spool = s, sys_active = [], sys_written = [], sys_publishing = [],
     sys_acked = [], sys_retired = [], sys_synced = synced, sys_opened = sp_committed_bytes s\<rparr>"

inductive spool_step :: "'x spool_env_scheme \<Rightarrow> nat \<Rightarrow> spool_system \<Rightarrow> spool_system \<Rightarrow> bool"
  for X :: "'x spool_env_scheme" and l :: nat where
  Reserve:
    "body_limit \<le> l \<Longrightarrow> reserve body_limit (sys_spool S) = (Inr r, s) \<Longrightarrow>
     spool_step X l S (S\<lparr>sys_spool := s, sys_active := r # sys_active S\<rparr>)"
| Release:
    "sys_active S = before @ r # after \<Longrightarrow>
     spool_step X l S (S\<lparr>sys_spool := release_reservation (res_reserved_bytes r) (sys_spool S),
       sys_active := before @ after\<rparr>)"
| Write:
    "sys_active S = before @ r # after \<Longrightarrow> metadata_ok X m \<Longrightarrow>
     append_checks r body (sys_spool S) = Inr () \<Longrightarrow>
     write_frame X m body fault (sys_spool S) = (Inr (prepared, r'), s) \<Longrightarrow>
     spool_step X l S (S\<lparr>sys_spool := s, sys_active := before @ after,
       sys_written := sys_written S @
         [\<lparr>in_batch = (m, body), in_reserved = res_reserved_bytes r, in_range = r'\<rparr>],
       sys_synced := length (sp_data s)\<rparr>)"
| Write_Fails:
    "r \<in> set (sys_active S) \<Longrightarrow> metadata_ok X m \<Longrightarrow>
     append_checks r body (sys_spool S) = Inr () \<Longrightarrow>
     write_frame X m body fault (sys_spool S) = (Inl e, s) \<Longrightarrow>
     spool_step X l S (S\<lparr>sys_spool := mark_failed s\<rparr>)"
| Commit:
    "sys_written S = before @ w # after \<Longrightarrow>
     commit_accounting (in_reserved w) (in_stored w) (sys_spool S) = (Inr extent, s) \<Longrightarrow>
     spool_step X l S (S\<lparr>sys_spool := s, sys_written := before @ after,
       sys_publishing := sys_publishing S @ [(Some w, extent)]\<rparr>)"
| Commit_Fails:
    "sys_written S = before @ w # after \<Longrightarrow>
     commit_accounting (in_reserved w) (in_stored w) (sys_spool S) = (Inl e, s) \<Longrightarrow>
     spool_step X l S (S\<lparr>sys_spool := s, sys_written := before @ after\<rparr>)"
| Publish_Extent:
    "sys_publishing S = before @ (w, extent) # after \<Longrightarrow>
     spool_step X l S (S\<lparr>sys_spool := publish_extent extent (sys_spool S),
       sys_publishing := before @ after,
       sys_acked := sys_acked S @ (case w of None \<Rightarrow> [] | Some w \<Rightarrow> [w])\<rparr>)"
| Advance:
    "plan_checkpoint current batches (outputs :: unit output_recovery_record list) = Inr (Some plan) \<Longrightarrow>
     list_all (\<lambda>b. frame_at X l (sp_data (sys_spool S)) (req_spool_range b)) batches \<Longrightarrow>
     advance_checkpoint X plan store_fault (sys_spool S) = (result, s) \<Longrightarrow>
     spool_step X l S (S\<lparr>sys_spool := s\<rparr>)"
| Reclaim_Deferred:
    "reclaim_locked X store_fault fault (sys_spool S) = (result, s) \<Longrightarrow>
     sp_data s = sp_data (sys_spool S) \<Longrightarrow> spool_step X l S (S\<lparr>sys_spool := s\<rparr>)"
| Reclaim:
    "reclaim_locked X store_fault fault (sys_spool S) = (result, s) \<Longrightarrow>
     sp_data s \<noteq> sp_data (sys_spool S) \<Longrightarrow>
     spool_step X l S (S\<lparr>sys_spool := s,
       sys_publishing := map (\<lambda>(w, extent). (None, extent)) (sys_publishing S) @
         (case result of Inr (_, Some extent) \<Rightarrow> [(None, extent)] | _ \<Rightarrow> []),
       sys_acked := [], sys_retired := sys_retired S @ sys_acked S @ publishing_batches S,
       sys_synced := 0\<rparr>)"
| Restart:
    "spool_open X (Some (sp_data (sys_spool S))) (Some (sp_checkpoint_file (sys_spool S))) capacity l =
       Inr (s, reader, report) \<Longrightarrow> capacity \<le> u64_max \<Longrightarrow>
     spool_step X l S ((spool_start (synced_by_recovery report s (sys_synced S)) s)
       \<lparr>sys_acked := sys_acked S, sys_retired := sys_retired S\<rparr>)"
| Power_Loss:
    "sys_synced S \<le> k \<Longrightarrow>
     spool_open X (Some (take k (sp_data (sys_spool S)))) (Some (sp_checkpoint_file (sys_spool S))) capacity l =
       Inr (s, reader, report) \<Longrightarrow> capacity \<le> u64_max \<Longrightarrow>
     spool_step X l S ((spool_start (length (sp_data s)) s)
       \<lparr>sys_acked := sys_acked S, sys_retired := sys_retired S\<rparr>)"

text \<open>
  The first process finds a directory of which nothing is known but that it opens; a data file
  has at most \<open>u64_max\<close> bytes, and any part of it may not have reached the disk yet.
\<close>

definition spool_init :: "'x spool_env_scheme \<Rightarrow> nat \<Rightarrow> spool_system \<Rightarrow> bool" where
  "spool_init X l S \<longleftrightarrow>
     (\<exists>data checkpoint capacity s reader report synced.
        spool_open X data checkpoint capacity l = Inr (s, reader, report) \<and>
        digest_ok X \<and> capacity \<le> u64_max \<and> (\<forall>d. data = Some d \<longrightarrow> length d \<le> u64_max) \<and>
        synced \<le> length (sp_data s) \<and> S = spool_start (synced_by_recovery report s synced) s)"

section \<open>Capacity accounting\<close>

definition accounting_inv :: "nat \<Rightarrow> spool_system \<Rightarrow> bool" where
  "accounting_inv l S \<longleftrightarrow>
     (let s = sys_spool S in
      sp_reserved_bytes s = sum_list (map res_reserved_bytes (sys_active S)) +
        sum_list (map in_reserved (sys_written S)) \<and>
      (sp_reserved_bytes s = 0 \<or> sp_committed_bytes s + sp_reserved_bytes s \<le> sp_capacity s) \<and>
      sp_committed_bytes s + sp_reserved_bytes s \<le> max (sp_capacity s) (sys_opened S) \<and>
      sp_capacity s \<le> u64_max \<and> sp_committed_bytes s \<le> u64_max \<and>
      list_all (\<lambda>r. res_reserved_bytes r = res_body_limit r + FRAME_OVERHEAD_BYTES \<and>
        res_body_limit r \<le> l) (sys_active S) \<and>
      list_all (\<lambda>w. in_stored w \<le> in_reserved w) (sys_written S))"

lemma reserve_Inr:
  assumes "reserve b s = (Inr r, s')"
  shows "\<not> sp_failed s" "r = \<lparr>res_body_limit = b, res_reserved_bytes = b + FRAME_OVERHEAD_BYTES\<rparr>"
    "s' = s\<lparr>sp_reserved_bytes := sp_reserved_bytes s + (b + FRAME_OVERHEAD_BYTES)\<rparr>"
    "sp_committed_bytes s + sp_reserved_bytes s + (b + FRAME_OVERHEAD_BYTES) \<le> sp_capacity s"
proof -
  have "b + FRAME_OVERHEAD_BYTES \<le> sp_capacity s - (sp_committed_bytes s + sp_reserved_bytes s) \<Longrightarrow>
      sp_committed_bytes s + sp_reserved_bytes s + (b + FRAME_OVERHEAD_BYTES) \<le> sp_capacity s"
    by (simp add: frame_constants)
  with assms show "\<not> sp_failed s"
    "r = \<lparr>res_body_limit = b, res_reserved_bytes = b + FRAME_OVERHEAD_BYTES\<rparr>"
    "s' = s\<lparr>sp_reserved_bytes := sp_reserved_bytes s + (b + FRAME_OVERHEAD_BYTES)\<rparr>"
    "sp_committed_bytes s + sp_reserved_bytes s + (b + FRAME_OVERHEAD_BYTES) \<le> sp_capacity s"
    by (auto simp: reserve_def ensure_writable_def reserved_frame_bytes_def Let_def result_simps
        split: sum.splits if_split_asm)
qed

lemma reserve_Inl: "reserve b s = (Inl e, s') \<Longrightarrow> s' = s"
  by (auto simp: reserve_def split: sum.splits)

lemma write_frame_accounting:
  assumes "write_frame X m body fault s = (res, s')"
  shows "sp_capacity s' = sp_capacity s" "sp_committed_bytes s' = sp_committed_bytes s"
    "sp_reserved_bytes s' = sp_reserved_bytes s" "sp_checkpoint s' = sp_checkpoint s"
    "sp_checkpoint_file s' = sp_checkpoint_file s" "sp_generation s' = sp_generation s"
    "sp_extent s' = sp_extent s"
  using assms
  by (auto simp: write_frame_def Let_def mark_failed_def split: sum.splits write_fault.splits)

lemma write_frame_Inr:
  assumes "write_frame X m body fault s = (Inr (p, r), s')" "digest_ok X"
  shows "\<not> sp_failed s" "fault = NoFault" "s' = s\<lparr>sp_data := sp_data s @ frame_bytes X m body\<rparr>"
    "r = \<lparr>range_start = length (sp_data s),
          range_end = length (sp_data s) + (length body + FRAME_OVERHEAD_BYTES)\<rparr>"
    "p = \<lparr>pf_header = header_of X m body, pf_footer = footer_of X m body,
          pf_body_bytes = length body, pf_body_digest = blake3 X body,
          pf_stored_bytes = length body + FRAME_OVERHEAD_BYTES\<rparr>"
    "length (sp_data s) + (length body + FRAME_OVERHEAD_BYTES) \<le> u64_max"
proof -
  have fits: "length body + FRAME_OVERHEAD_BYTES \<le> u64_max"
  proof (rule ccontr)
    assume "\<not> ?thesis"
    then obtain e where "prepared_frame_new X m body = Inl e"
      using prepared_frame_new_overflow [OF assms(2), of body m] by auto
    then show False
      using assms(1) by (auto simp: write_frame_def ensure_writable_def split: if_split_asm)
  qed
  note new = prepared_frame_new_ok [OF assms(2) fits, of m]
  show "\<not> sp_failed s" "fault = NoFault" "s' = s\<lparr>sp_data := sp_data s @ frame_bytes X m body\<rparr>"
    "r = \<lparr>range_start = length (sp_data s),
          range_end = length (sp_data s) + (length body + FRAME_OVERHEAD_BYTES)\<rparr>"
    "p = \<lparr>pf_header = header_of X m body, pf_footer = footer_of X m body,
          pf_body_bytes = length body, pf_body_digest = blake3 X body,
          pf_stored_bytes = length body + FRAME_OVERHEAD_BYTES\<rparr>"
    "length (sp_data s) + (length body + FRAME_OVERHEAD_BYTES) \<le> u64_max"
    using assms(1)
    by (auto simp: write_frame_def Let_def new frame_bytes_def ensure_writable_def result_simps
        spool_batch_range_new_def split: write_fault.splits if_split_asm)
qed


lemma append_checks_Inr:
  "append_checks r body s = Inr u \<longleftrightarrow>
   length body \<le> u64_max \<and> length body \<le> res_body_limit r \<and> \<not> sp_failed s"
  by (auto simp: append_checks_def ensure_writable_def result_simps)

lemma release_reservation_ok:
  "b \<le> sp_reserved_bytes s \<Longrightarrow>
   release_reservation b s = s\<lparr>sp_reserved_bytes := sp_reserved_bytes s - b\<rparr>"
  by (simp add: release_reservation_def)

lemma commit_accounting_ok:
  "c \<le> b \<Longrightarrow> b \<le> sp_reserved_bytes s \<Longrightarrow> sp_committed_bytes s + c \<le> u64_max \<Longrightarrow>
   commit_accounting b c s =
     (Inr \<lparr>extent_generation = sp_generation s, extent_end = sp_committed_bytes s + c\<rparr>,
      s\<lparr>sp_committed_bytes := sp_committed_bytes s + c,
        sp_reserved_bytes := sp_reserved_bytes s - b\<rparr>)"
  by (simp add: commit_accounting_def checked_add_def)

lemma advance_checkpoint_accounting:
  assumes "advance_checkpoint X plan fault s = (res, s')"
  shows "sp_capacity s' = sp_capacity s" "sp_committed_bytes s' = sp_committed_bytes s"
    "sp_reserved_bytes s' = sp_reserved_bytes s" "sp_data s' = sp_data s"
  using assms
  by (auto simp: advance_checkpoint_def ensure_writable_def mark_failed_def
      split: if_split_asm sum.splits prod.splits)

lemma reclaim_locked_accounting:
  assumes "reclaim_locked X sf tf s = (res, s')"
  shows "sp_capacity s' = sp_capacity s" "sp_committed_bytes s' \<le> sp_committed_bytes s"
    "sp_reserved_bytes s' = sp_reserved_bytes s"
  using assms
  by (auto simp: reclaim_locked_def ensure_writable_def mark_failed_def Let_def
      split: if_split_asm sum.splits prod.splits truncate_fault.splits option.splits)

lemma commit_fits:
  assumes "accounting_inv l S" "sys_written S = before @ w # after"
  shows "in_stored w \<le> in_reserved w" "in_reserved w \<le> sp_reserved_bytes (sys_spool S)"
    "sp_committed_bytes (sys_spool S) + in_stored w \<le> u64_max"
    "sp_reserved_bytes (sys_spool S) \<noteq> 0"
proof -
  have "0 < in_stored w" by (simp add: in_stored_def frame_constants)
  with assms show "in_stored w \<le> in_reserved w" "in_reserved w \<le> sp_reserved_bytes (sys_spool S)"
    "sp_committed_bytes (sys_spool S) + in_stored w \<le> u64_max"
    "sp_reserved_bytes (sys_spool S) \<noteq> 0"
    by (auto simp: accounting_inv_def Let_def)
qed

text \<open>Opening a file: the spool holds the frames that the recovery left of it.\<close>

lemma spool_open_files:
  assumes "digest_ok X" "spool_open X (Some d) (Some c) capacity l = Inr (s, reader, report)"
  obtains log where "recover_files X (Some c) (Some d) capacity l = Inr (report, log)"
    "s = from_recovered X log capacity (length log) (report_checkpoint report)"
    "report_committed_bytes report = length log" "length log \<le> length d"
    "report_discarded_tail_bytes report = 0 \<longrightarrow> log = d"
proof -
  obtain log where log: "recover_files X (Some c) (Some d) capacity l = Inr (report, log)"
    and s: "s = from_recovered X log capacity (report_committed_bytes report) (report_checkpoint report)"
    using assms(2) by (auto simp: spool_open_def inspect_spool_files_def result_simps)
  obtain tail where "d = log @ tail" "report_committed_bytes report = length log"
    "report_discarded_tail_bytes report = length tail"
    using recover_files_only_frames [OF assms(1) log] by (metis option.inject)
  with log s show ?thesis by (intro that) auto
qed

lemma accounting_start:
  assumes "digest_ok X" "spool_open X (Some d) (Some c) capacity l = Inr (s, reader, report)"
    "capacity \<le> u64_max" "length d \<le> u64_max"
  shows "accounting_inv l ((spool_start synced s)\<lparr>sys_acked := acked, sys_retired := retired\<rparr>)"
proof -
  obtain log where "s = from_recovered X log capacity (length log) (report_checkpoint report)"
    "length log \<le> length d"
    by (rule spool_open_files [OF assms(1,2)])
  with assms(3,4) show ?thesis
    by (simp add: accounting_inv_def Let_def spool_start_def from_recovered_def)
qed

lemma accounting_step:
  assumes "accounting_inv l S" "digest_ok X" "length (sp_data (sys_spool S)) \<le> u64_max"
    "spool_step X l S T"
  shows "accounting_inv l T"
  using assms(4)
proof cases
  case (Reserve b r s)
  with assms(1) reserve_Inr [OF Reserve(3)] show ?thesis by (auto simp: accounting_inv_def Let_def)
next
  case (Release before r after)
  then have "res_reserved_bytes r \<le> sp_reserved_bytes (sys_spool S)"
    using assms(1) by (auto simp: accounting_inv_def Let_def)
  with Release assms(1) show ?thesis
    by (auto simp: accounting_inv_def Let_def release_reservation_ok)
next
  case (Write before r after m body fault p r' s)
  then have "length body \<le> res_body_limit r" by (simp add: append_checks_Inr)
  with Write assms(1) write_frame_accounting [OF Write(5)] show ?thesis
    by (auto simp: accounting_inv_def Let_def in_stored_def)
next
  case (Write_Fails r m body fault e s)
  with assms(1) write_frame_accounting [OF Write_Fails(5)] show ?thesis
    by (auto simp: accounting_inv_def Let_def mark_failed_def)
next
  case (Commit before w after extent s)
  with assms(1) commit_fits [OF assms(1) Commit(2)] show ?thesis
    by (auto simp: accounting_inv_def Let_def commit_accounting_ok)
next
  case (Commit_Fails before w after e s)
  with commit_fits [OF assms(1) Commit_Fails(2)] show ?thesis by (simp add: commit_accounting_ok)
next
  case (Publish_Extent before w extent after)
  with assms(1) show ?thesis by (auto simp: accounting_inv_def Let_def publish_extent_def)
next
  case (Advance cur batches outputs plan fault res s)
  with assms(1) advance_checkpoint_accounting [OF Advance(4)] show ?thesis
    by (auto simp: accounting_inv_def Let_def)
next
  case (Reclaim_Deferred sf tf res s)
  with assms(1) reclaim_locked_accounting [OF Reclaim_Deferred(2)] show ?thesis
    by (auto simp: accounting_inv_def Let_def)
next
  case (Reclaim sf tf res s)
  with assms(1) reclaim_locked_accounting [OF Reclaim(2)] show ?thesis
    by (auto simp: accounting_inv_def Let_def)
next
  case (Restart capacity s reader report)
  with accounting_start [OF assms(2) Restart(2,3) assms(3)] show ?thesis by simp
next
  case (Power_Loss k capacity s reader report)
  with accounting_start [OF assms(2) Power_Loss(3,4)] assms(3) show ?thesis by simp
qed

section \<open>The log on disk\<close>

definition log_boundary :: "'x spool_env_scheme \<Rightarrow> (batch_metadata \<times> bytes) list \<Rightarrow> nat \<Rightarrow> bool" where
  "log_boundary X bs p \<longleftrightarrow>
     (\<exists>seen rest. bs = seen @ rest \<and> p = length (concat (map (frame_of X) seen)))"

definition placed :: "'x spool_env_scheme \<Rightarrow> (batch_metadata \<times> bytes) list \<Rightarrow> inflight \<Rightarrow> bool" where
  "placed X bs w \<longleftrightarrow>
     (\<exists>pre post. bs = pre @ in_batch w # post \<and>
        in_range w = \<lparr>range_start = length (concat (map (frame_of X) pre)),
                      range_end = length (concat (map (frame_of X) (pre @ [in_batch w])))\<rparr>)"

definition in_log :: "spool_system \<Rightarrow> inflight set" where
  "in_log S = set (sys_written S) \<union> set (publishing_batches S) \<union> set (sys_acked S)"

definition written_bytes :: "spool_system \<Rightarrow> nat" where
  "written_bytes S = sum_list (map in_stored (sys_written S))"

definition log_inv :: "'x spool_env_scheme \<Rightarrow> nat \<Rightarrow> spool_system \<Rightarrow> bool" where
  "log_inv X l S \<longleftrightarrow>
     (\<exists>bs tail cp. list_all (batch_ok X l) bs \<and>
        sp_data (sys_spool S) = concat (map (frame_of X) bs) @ tail \<and>
        sys_synced S \<le> length (concat (map (frame_of X) bs)) \<and>
        length (concat (map (frame_of X) bs)) \<le> u64_max \<and>
        torn_tail X l (length (concat (map (frame_of X) bs))) tail \<and>
        sp_checkpoint_file (sys_spool S) = checkpoint_encode X cp \<and> log_boundary X bs cp \<and>
        (\<forall>w \<in> in_log S. placed X bs w \<and> range_end (in_range w) \<le> sys_synced S) \<and>
        (\<not> sp_failed (sys_spool S) \<longrightarrow> tail = [] \<and> cp = sp_checkpoint (sys_spool S) \<and>
           length (concat (map (frame_of X) bs)) = sp_committed_bytes (sys_spool S) + written_bytes S))"

lemma torn_tail_length: "torn_tail X l n tail \<Longrightarrow> n \<le> u64_max \<Longrightarrow> n + length tail \<le> u64_max"
  by (auto simp: torn_tail_def)

lemma log_inv_length: "log_inv X l S \<Longrightarrow> length (sp_data (sys_spool S)) \<le> u64_max"
  unfolding log_inv_def by (elim exE conjE) (drule (1) torn_tail_length, simp)

lemma log_boundary_0 [simp]: "log_boundary X bs 0"
  unfolding log_boundary_def by (intro exI [of _ "[]"] exI [of _ bs]) simp

lemma log_boundary_append:
  assumes "log_boundary X bs p" shows "log_boundary X (bs @ cs) p"
proof -
  from assms obtain seen rest where "bs = seen @ rest" "p = length (concat (map (frame_of X) seen))"
    unfolding log_boundary_def by blast
  then show ?thesis
    unfolding log_boundary_def by (intro exI [of _ seen] exI [of _ "rest @ cs"]) simp
qed

lemma placed_append:
  assumes "placed X bs w" shows "placed X (bs @ cs) w"
proof -
  from assms obtain pre post where "bs = pre @ in_batch w # post"
    "in_range w = \<lparr>range_start = length (concat (map (frame_of X) pre)),
                   range_end = length (concat (map (frame_of X) (pre @ [in_batch w])))\<rparr>"
    unfolding placed_def by blast
  then show ?thesis unfolding placed_def by (intro exI [of _ pre] exI [of _ "post @ cs"]) simp
qed

lemma placed_last:
  "in_range w = \<lparr>range_start = length (concat (map (frame_of X) bs)),
     range_end = length (concat (map (frame_of X) (bs @ [in_batch w])))\<rparr> \<Longrightarrow>
   placed X (bs @ [in_batch w]) w"
  unfolding placed_def by blast

lemma placed_range_end:
  "placed X bs w \<Longrightarrow> range_end (in_range w) \<le> length (concat (map (frame_of X) bs))"
  unfolding placed_def by auto

text \<open>Operations that leave the files alone keep the invariant.\<close>

lemma log_inv_same_files:
  assumes "log_inv X l S"
    and "sp_data (sys_spool T) = sp_data (sys_spool S)"
    and "sp_checkpoint_file (sys_spool T) = sp_checkpoint_file (sys_spool S)"
    and "sys_synced T = sys_synced S" "in_log T \<subseteq> in_log S"
    and "\<not> sp_failed (sys_spool T) \<Longrightarrow> \<not> sp_failed (sys_spool S) \<and>
      sp_checkpoint (sys_spool T) = sp_checkpoint (sys_spool S) \<and>
      sp_committed_bytes (sys_spool T) + written_bytes T =
      sp_committed_bytes (sys_spool S) + written_bytes S"
  shows "log_inv X l T"
proof -
  from assms(1) obtain bs tail cp where inv: "list_all (batch_ok X l) bs"
    "sp_data (sys_spool S) = concat (map (frame_of X) bs) @ tail"
    "sys_synced S \<le> length (concat (map (frame_of X) bs))"
    "length (concat (map (frame_of X) bs)) \<le> u64_max"
    "torn_tail X l (length (concat (map (frame_of X) bs))) tail"
    "sp_checkpoint_file (sys_spool S) = checkpoint_encode X cp" "log_boundary X bs cp"
    "\<forall>w \<in> in_log S. placed X bs w \<and> range_end (in_range w) \<le> sys_synced S"
    "\<not> sp_failed (sys_spool S) \<Longrightarrow> tail = [] \<and> cp = sp_checkpoint (sys_spool S) \<and>
       length (concat (map (frame_of X) bs)) = sp_committed_bytes (sys_spool S) + written_bytes S"
    unfolding log_inv_def by blast
  show ?thesis unfolding log_inv_def
    using inv assms(2-5) inv(9) assms(6)
    by (intro exI [of _ bs] exI [of _ tail] exI [of _ cp] conjI)
      (simp_all del: length_concat, blast)
qed

text \<open>A reservation leaves room for the frame it was made for.\<close>

lemma stored_le_reserved:
  assumes "accounting_inv l S"
  shows "written_bytes S \<le> sum_list (map in_reserved (sys_written S))"
  using assms unfolding written_bytes_def accounting_inv_def Let_def
  by (intro sum_list_mono) (auto simp: list_all_iff)

lemma write_fits:
  assumes acc: "accounting_inv l S" and log: "log_inv X l S"
    and r: "r \<in> set (sys_active S)" and chk: "append_checks r body (sys_spool S) = Inr ()"
    and m: "metadata_ok X m" and dig: "digest_ok X"
  shows "batch_ok X l (m, body)"
    and "length (sp_data (sys_spool S)) + (length body + FRAME_OVERHEAD_BYTES) \<le> u64_max"
proof -
  have nf: "\<not> sp_failed (sys_spool S)" and body: "length body \<le> res_body_limit r"
    using chk by (simp_all add: append_checks_Inr)
  have res: "res_reserved_bytes r = res_body_limit r + FRAME_OVERHEAD_BYTES" "res_body_limit r \<le> l"
    using acc r by (auto simp: accounting_inv_def Let_def list_all_iff)
  have data: "length (sp_data (sys_spool S)) = sp_committed_bytes (sys_spool S) + written_bytes S"
    using log nf unfolding log_inv_def by auto
  have active: "res_reserved_bytes r \<le> sum_list (map res_reserved_bytes (sys_active S))"
    using r by (intro member_le_sum_list) auto
  have sum: "sp_reserved_bytes (sys_spool S) = sum_list (map res_reserved_bytes (sys_active S)) +
      sum_list (map in_reserved (sys_written S))" "sp_capacity (sys_spool S) \<le> u64_max"
    "sp_reserved_bytes (sys_spool S) = 0 \<or>
     sp_committed_bytes (sys_spool S) + sp_reserved_bytes (sys_spool S) \<le> sp_capacity (sys_spool S)"
    using acc unfolding accounting_inv_def Let_def by blast+
  have "0 < res_reserved_bytes r" using res by (simp add: frame_constants)
  then show "length (sp_data (sys_spool S)) + (length body + FRAME_OVERHEAD_BYTES) \<le> u64_max"
    using data active sum stored_le_reserved [OF acc] body res(1) by linarith
  with body res m dig show "batch_ok X l (m, body)" by (simp add: batch_ok_def)
qed

lemma write_frame_Inl:
  assumes w: "write_frame X m body fault s = (Inl e, s')" and ok: "batch_ok X l (m, body)"
    and fits: "length (sp_data s) + (length body + FRAME_OVERHEAD_BYTES) \<le> u64_max"
  shows "\<exists>k. sp_data s' = sp_data s @ take k (frame_bytes X m body)"
proof -
  have new: "prepared_frame_new X m body =
     Inr \<lparr>pf_header = header_of X m body, pf_footer = footer_of X m body,
          pf_body_bytes = length body, pf_body_digest = blake3 X body,
          pf_stored_bytes = length body + FRAME_OVERHEAD_BYTES\<rparr>"
    using ok by (intro prepared_frame_new_ok) (auto simp: batch_ok_def)
  show ?thesis
  proof (cases fault)
    case NoFault
    with w new fits show ?thesis
      by (intro exI [of _ 0])
        (auto simp: write_frame_def ensure_writable_def result_simps spool_batch_range_new_def
          frame_constants Let_def split: if_split_asm)
  next
    case InspectFails
    with w new show ?thesis
      by (intro exI [of _ 0])
        (auto simp: write_frame_def ensure_writable_def mark_failed_def Let_def split: if_split_asm)
  next
    case (WriteFails k)
    with w new show ?thesis
      by (intro exI [of _ "if sp_failed s then 0 else min k (length (frame_bytes X m body) - 1)"])
        (auto simp: write_frame_def ensure_writable_def mark_failed_def Let_def frame_bytes_def
          split: if_split_asm)
  next
    case SynchronizeFails
    with w new show ?thesis
      by (intro exI [of _ "if sp_failed s then 0 else length (frame_bytes X m body)"])
        (auto simp: write_frame_def ensure_writable_def mark_failed_def Let_def frame_bytes_def
          split: if_split_asm)
  qed
qed

text \<open>Frames are self-delimiting: two frames at one place have the same length.\<close>

lemma frame_prefix_length:
  assumes a: "batch_ok X l a" and b: "batch_ok X l b" and eq: "frame_of X a @ x = frame_of X b @ y"
  shows "length (frame_of X a) = length (frame_of X b)"
proof -
  have a': "batch_ok X l (fst a, snd a)" and b': "batch_ok X l (fst b, snd b)" using a b by simp_all
  have "take HEADER_BYTES (frame_of X a @ x) = header_of X (fst a) (snd a)"
    "take HEADER_BYTES (frame_of X b @ y) = header_of X (fst b) (snd b)"
    using frame_of_parts(1) [OF a', of "[]" x] frame_of_parts(1) [OF b', of "[]" y] by simp_all
  then have "decoded_of X (fst a) (snd a) = decoded_of X (fst b) (snd b)"
    using eq decode_header_of [OF a'] decode_header_of [OF b'] by simp
  then show ?thesis
    using length_frame_bytes [OF a'] length_frame_bytes [OF b'] by (simp add: decoded_of_def)
qed

lemma frame_at_boundary:
  assumes ok: "list_all (batch_ok X l) bs" and p: "log_boundary X bs (range_start r)"
    and at: "frame_at X l (concat (map (frame_of X) bs)) r"
  shows "log_boundary X bs (range_end r)"
proof -
  obtain mb where mb: "batch_ok X l mb" "range_end r = range_start r + length (frame_of X mb)"
      "take (length (frame_of X mb)) (drop (range_start r) (concat (map (frame_of X) bs))) = frame_of X mb"
    using at unfolding frame_at_def by blast
  obtain seen rest where bs: "bs = seen @ rest" and st: "range_start r = length (concat (map (frame_of X) seen))"
    using p unfolding log_boundary_def by blast
  have pre: "take (length (frame_of X mb)) (concat (map (frame_of X) rest)) = frame_of X mb"
    using mb(3) unfolding st bs by simp
  have ne: "frame_of X mb \<noteq> []" by (rule frame_of_nonempty [OF mb(1)])
  then obtain b rest' where rest: "rest = b # rest'" using pre by (cases rest) auto
  have "frame_of X mb @ drop (length (frame_of X mb)) (concat (map (frame_of X) rest)) =
      frame_of X b @ concat (map (frame_of X) rest')"
    using append_take_drop_id [of "length (frame_of X mb)" "concat (map (frame_of X) rest)"]
    unfolding pre by (simp add: rest)
  moreover have "batch_ok X l b" using ok bs rest by simp
  ultimately have "length (frame_of X mb) = length (frame_of X b)"
    using frame_prefix_length mb(1) by blast
  then have "range_end r = length (concat (map (frame_of X) (seen @ [b])))"
    using mb(2) st by simp
  then show ?thesis unfolding log_boundary_def bs rest
    by (intro exI [of _ "seen @ [b]"] exI [of _ rest']) simp
qed

lemma contiguous_boundary:
  assumes "list_all (batch_ok X l) bs" "log_boundary X bs p" "contiguous p ready q"
    and "list_all (\<lambda>b. frame_at X l (concat (map (frame_of X) bs)) (req_spool_range b)) ready"
  shows "log_boundary X bs q"
  using assms(2-4)
proof (induction ready arbitrary: p)
  case (Cons b ready)
  then have "log_boundary X bs (range_end (req_spool_range b))"
    using frame_at_boundary [OF assms(1), of "req_spool_range b"] by simp
  with Cons show ?case by simp
qed simp

lemma plan_target_boundary:
  assumes "list_all (batch_ok X l) bs" "log_boundary X bs current"
    and plan: "plan_checkpoint current batches outputs = Inr (Some plan)"
    and "list_all (\<lambda>b. frame_at X l (concat (map (frame_of X) bs)) (req_spool_range b)) batches"
  shows "log_boundary X bs (plan_target plan)"
proof -
  obtain ready rest where "batches = ready @ rest" "contiguous current ready (plan_target plan)"
    using plan_checkpoint_ready [OF plan] by auto
  with assms show ?thesis by (intro contiguous_boundary [OF assms(1,2)]) auto
qed

lemma plan_checkpoint_current:
  "plan_checkpoint current batches outputs = Inr (Some plan) \<Longrightarrow> plan_current plan = current"
  by (erule plan_checkpoint_cases) (auto split: if_split_asm)

lemma advance_checkpoint_cases:
  assumes "advance_checkpoint X plan fault s = (res, s')"
  obtains (kept) "sp_checkpoint_file s' = sp_checkpoint_file s"
      "sp_failed s' \<or> sp_failed s' = sp_failed s \<and> sp_checkpoint s' = sp_checkpoint s"
  | (stored) "\<not> sp_failed s" "plan_current plan = sp_checkpoint s"
      "plan_target plan \<le> sp_committed_bytes s"
      "sp_checkpoint_file s' = checkpoint_encode X (plan_target plan)"
      "sp_failed s' \<or> sp_checkpoint s' = plan_target plan"
proof -
  have "sp_checkpoint_file s' = sp_checkpoint_file s \<and>
      (sp_failed s' \<or> sp_failed s' = sp_failed s \<and> sp_checkpoint s' = sp_checkpoint s) \<or>
    \<not> sp_failed s \<and> plan_current plan = sp_checkpoint s \<and>
      plan_target plan \<le> sp_committed_bytes s \<and>
      sp_checkpoint_file s' = checkpoint_encode X (plan_target plan) \<and>
      (sp_failed s' \<or> sp_checkpoint s' = plan_target plan)"
    using assms unfolding advance_checkpoint_def checkpoint_store_def ensure_writable_def mark_failed_def
    by (auto split: if_split_asm option.splits)
  then show ?thesis using kept stored by blast
qed

lemma log_inv_advance:
  assumes log: "log_inv X l S"
    and plan: "plan_checkpoint current batches outputs = Inr (Some plan)"
    and at: "list_all (\<lambda>b. frame_at X l (sp_data (sys_spool S)) (req_spool_range b)) batches"
    and adv: "advance_checkpoint X plan fault (sys_spool S) = (res, s)"
  shows "log_inv X l (S\<lparr>sys_spool := s\<rparr>)"
  using adv
proof (cases rule: advance_checkpoint_cases)
  case kept
  show ?thesis
    using kept advance_checkpoint_accounting [OF adv]
    by (intro log_inv_same_files [OF log]) (auto simp: in_log_def publishing_batches_def written_bytes_def)
next
  case stored
  obtain bs tail cp where inv: "list_all (batch_ok X l) bs"
    "sp_data (sys_spool S) = concat (map (frame_of X) bs) @ tail"
    "sys_synced S \<le> length (concat (map (frame_of X) bs))"
    "length (concat (map (frame_of X) bs)) \<le> u64_max" "log_boundary X bs cp"
    "\<forall>w \<in> in_log S. placed X bs w \<and> range_end (in_range w) \<le> sys_synced S"
    "tail = []" "cp = sp_checkpoint (sys_spool S)"
    "length (concat (map (frame_of X) bs)) = sp_committed_bytes (sys_spool S) + written_bytes S"
    using log stored(1) unfolding log_inv_def by blast
  have "plan_current plan = current" by (rule plan_checkpoint_current [OF plan])
  then have "log_boundary X bs (plan_target plan)"
    using inv(1,2,5,7,8) stored(2) at plan by (intro plan_target_boundary [OF inv(1) _ plan]) auto
  then show ?thesis unfolding log_inv_def
    using inv stored advance_checkpoint_accounting [OF adv]
    by (intro exI [of _ bs] exI [of _ "[]"] exI [of _ "plan_target plan"])
      (auto simp: in_log_def publishing_batches_def written_bytes_def simp del: length_concat)
qed

lemma log_inv_write:
  assumes acc: "accounting_inv l S" and log: "log_inv X l S" and dig: "digest_ok X"
    and act: "sys_active S = before @ r # after" and m: "metadata_ok X m"
    and chk: "append_checks r body (sys_spool S) = Inr ()"
    and w: "write_frame X m body fault (sys_spool S) = (Inr (prepared, r'), s)"
  shows "log_inv X l (S\<lparr>sys_spool := s, sys_active := before @ after,
       sys_written := sys_written S @
         [\<lparr>in_batch = (m, body), in_reserved = res_reserved_bytes r, in_range = r'\<rparr>],
       sys_synced := length (sp_data s)\<rparr>)"
proof -
  let ?w = "\<lparr>in_batch = (m, body), in_reserved = res_reserved_bytes r, in_range = r'\<rparr>"
  note wf = write_frame_Inr [OF w dig]
  have r: "r \<in> set (sys_active S)" using act by simp
  note fits = write_fits [OF acc log r chk m dig]
  have fl: "length (frame_bytes X m body) = length body + FRAME_OVERHEAD_BYTES"
    by (rule length_frame_bytes [OF fits(1)])
  obtain bs where inv: "list_all (batch_ok X l) bs"
    "sp_data (sys_spool S) = concat (map (frame_of X) bs)"
    "sys_synced S \<le> length (concat (map (frame_of X) bs))"
    "sp_checkpoint_file (sys_spool S) = checkpoint_encode X (sp_checkpoint (sys_spool S))"
    "log_boundary X bs (sp_checkpoint (sys_spool S))"
    "\<forall>w \<in> in_log S. placed X bs w \<and> range_end (in_range w) \<le> sys_synced S"
    "length (concat (map (frame_of X) bs)) = sp_committed_bytes (sys_spool S) + written_bytes S"
    using log wf(1) unfolding log_inv_def by (auto simp del: length_concat)
  have "placed X (bs @ [in_batch ?w]) ?w"
    using wf(4) inv(2) fl by (intro placed_last) simp
  moreover have "range_end (in_range ?w) = length (sp_data s)" using wf(3,4) fl by simp
  moreover have "sys_synced S \<le> length (sp_data s)" using wf(3) inv(2,3) by (simp del: length_concat)
  ultimately have "\<forall>v \<in> insert ?w (in_log S). placed X (bs @ [(m, body)]) v \<and> range_end (in_range v) \<le> length (sp_data s)"
    using inv(6) placed_append [of X bs _ "[(m, body)]"] by fastforce
  moreover have "log_boundary X (bs @ [(m, body)]) (sp_checkpoint (sys_spool S))"
    using inv(5) by (rule log_boundary_append)
  ultimately show ?thesis unfolding log_inv_def
    using inv wf(3,6) fits fl
    by (intro exI [of _ "bs @ [(m, body)]"] exI [of _ "[]"] exI [of _ "sp_checkpoint (sys_spool S)"])
      (simp add: in_log_def publishing_batches_def written_bytes_def in_stored_def del: length_concat)
qed

lemma log_inv_write_fails:
  assumes acc: "accounting_inv l S" and log: "log_inv X l S" and dig: "digest_ok X"
    and r: "r \<in> set (sys_active S)" and m: "metadata_ok X m"
    and chk: "append_checks r body (sys_spool S) = Inr ()"
    and w: "write_frame X m body fault (sys_spool S) = (Inl e, s)"
  shows "log_inv X l (S\<lparr>sys_spool := mark_failed s\<rparr>)"
proof -
  note fits = write_fits [OF acc log r chk m dig]
  have fl: "length (frame_bytes X m body) = length body + FRAME_OVERHEAD_BYTES"
    by (rule length_frame_bytes [OF fits(1)])
  have "\<not> sp_failed (sys_spool S)" using chk by (simp add: append_checks_Inr)
  then obtain bs cp where inv: "list_all (batch_ok X l) bs"
    "sp_data (sys_spool S) = concat (map (frame_of X) bs)"
    "sys_synced S \<le> length (concat (map (frame_of X) bs))"
    "length (concat (map (frame_of X) bs)) \<le> u64_max"
    "sp_checkpoint_file (sys_spool S) = checkpoint_encode X cp" "log_boundary X bs cp"
    "\<forall>w \<in> in_log S. placed X bs w \<and> range_end (in_range w) \<le> sys_synced S"
    using log unfolding log_inv_def by (auto simp del: length_concat)
  obtain k where "sp_data s = sp_data (sys_spool S) @ take k (frame_bytes X m body)"
    using write_frame_Inl [OF w fits] by blast
  moreover have "torn_tail X l (length (concat (map (frame_of X) bs))) (take k (frame_bytes X m body))"
    using fits inv(2) fl unfolding torn_tail_def
    by (intro disjI2 exI [of _ "(m, body)"] exI [of _ k]) simp
  ultimately show ?thesis unfolding log_inv_def
    using inv write_frame_accounting [OF w]
    by (intro exI [of _ bs] exI [of _ "take k (frame_bytes X m body)"] exI [of _ cp])
      (simp add: in_log_def publishing_batches_def written_bytes_def mark_failed_def del: length_concat)
qed

lemma reclaim_locked_cases:
  assumes "reclaim_locked X sf tf s = (res, s')"
  obtains (kept) "sp_data s' = sp_data s" "sp_checkpoint_file s' = sp_checkpoint_file s"
      "sp_committed_bytes s' = sp_committed_bytes s"
      "sp_failed s' \<or> sp_failed s' = sp_failed s \<and> sp_checkpoint s' = sp_checkpoint s"
  | (reset) "\<not> sp_failed s" "sp_reserved_bytes s = 0" "sp_checkpoint s = sp_committed_bytes s"
      "sp_checkpoint s \<noteq> 0" "sp_data s' = sp_data s" "sp_failed s'"
      "sp_checkpoint_file s' = checkpoint_encode X 0"
  | (truncated) "\<not> sp_failed s" "sp_reserved_bytes s = 0" "sp_checkpoint s = sp_committed_bytes s"
      "sp_checkpoint s \<noteq> 0" "sp_data s' = []" "sp_checkpoint_file s' = checkpoint_encode X 0"
      "sp_failed s' \<or> sp_checkpoint s' = 0 \<and> sp_committed_bytes s' = 0"
proof -
  let ?busy = "sp_reserved_bytes s \<noteq> 0 \<or> sp_checkpoint s = 0 \<or>
      sp_checkpoint s \<noteq> sp_committed_bytes s"
  consider (failed) "sp_failed s" | (busy) "\<not> sp_failed s" ?busy
    | (store) f where "\<not> sp_failed s" "\<not> ?busy" "sf = Some f"
    | (truncate) "\<not> sp_failed s" "\<not> ?busy" "sf = None"
    by (cases sf) blast+
  then show ?thesis
  proof cases
    case failed
    with assms have "s' = s" by (simp add: reclaim_locked_def ensure_writable_def)
    with kept show ?thesis by simp
  next
    case busy
    with assms have "s' = s" by (simp only: reclaim_locked_def ensure_writable_def if_True if_False) simp
    with kept show ?thesis by simp
  next
    case (store f)
    then have "reclaim_locked X sf tf s = (Inl (store_error f),
        mark_failed (s\<lparr>sp_checkpoint_file := if f = SynchronizeDirectoryFails
          then checkpoint_encode X 0 else sp_checkpoint_file s\<rparr>))"
      by (simp add: reclaim_locked_def ensure_writable_def checkpoint_store_def)
    with assms store kept reset show ?thesis
      by (cases "f = SynchronizeDirectoryFails") (auto simp: mark_failed_def)
  next
    case truncate
    note run = assms [unfolded reclaim_locked_def ensure_writable_def checkpoint_store_def]
    show ?thesis
    proof (cases tf)
      case TruncateFails
      with run truncate have "s' = mark_failed (s\<lparr>sp_checkpoint_file := checkpoint_encode X 0,
          sp_checkpoint := 0\<rparr>)" by (simp add: Let_def)
      with truncate reset show ?thesis by (simp add: mark_failed_def)
    next
      case NoTruncateFault
      with run truncate truncated show ?thesis
        by (cases "checked_add (sp_generation s) 1") (auto simp: Let_def mark_failed_def)
    next
      case SeekFails
      with run truncate truncated show ?thesis by (auto simp: Let_def mark_failed_def)
    next
      case ResynchronizeFails
      with run truncate truncated show ?thesis by (auto simp: Let_def mark_failed_def)
    qed
  qed
qed

text \<open>With no byte reserved, no append is between its write and its commit.\<close>

lemma idle_written:
  assumes "accounting_inv l S" "sp_reserved_bytes (sys_spool S) = 0"
  shows "sys_written S = []"
proof (cases "sys_written S")
  case (Cons w ws)
  with commit_fits(4) [OF assms(1), of "[]" w ws] assms(2) show ?thesis by simp
qed simp

text \<open>A reclamation finds every acknowledged append behind the checkpoint.\<close>

lemma log_inv_idle:
  assumes "accounting_inv l S" "log_inv X l S" "\<not> sp_failed (sys_spool S)"
    "sp_reserved_bytes (sys_spool S) = 0" "sp_checkpoint (sys_spool S) = sp_committed_bytes (sys_spool S)"
  shows "length (sp_data (sys_spool S)) = sp_checkpoint (sys_spool S)"
    and "w \<in> in_log S \<Longrightarrow> range_end (in_range w) \<le> sp_checkpoint (sys_spool S)"
proof -
  have "sys_written S = []" by (rule idle_written [OF assms(1,4)])
  moreover obtain bs where inv: "sp_data (sys_spool S) = concat (map (frame_of X) bs)"
      "\<forall>w \<in> in_log S. placed X bs w"
      "length (concat (map (frame_of X) bs)) = sp_committed_bytes (sys_spool S) + written_bytes S"
    using assms(2,3) unfolding log_inv_def by (auto simp del: length_concat)
  ultimately have len: "length (concat (map (frame_of X) bs)) = sp_checkpoint (sys_spool S)"
    using assms(5) by (simp add: written_bytes_def)
  with inv show "length (sp_data (sys_spool S)) = sp_checkpoint (sys_spool S)" by simp
  show "w \<in> in_log S \<Longrightarrow> range_end (in_range w) \<le> sp_checkpoint (sys_spool S)"
    using inv(2) placed_range_end [of X bs w] len by simp
qed

lemma log_inv_reclaim_kept:
  assumes acc: "accounting_inv l S" and log: "log_inv X l S"
    and rec: "reclaim_locked X sf tf (sys_spool S) = (res, s)"
    and same: "sp_data s = sp_data (sys_spool S)"
  shows "log_inv X l (S\<lparr>sys_spool := s\<rparr>)"
  using rec
proof (cases rule: reclaim_locked_cases)
  case kept
  then show ?thesis
    by (intro log_inv_same_files [OF log]) (auto simp: in_log_def publishing_batches_def written_bytes_def)
next
  case reset
  obtain bs where "list_all (batch_ok X l) bs" "sp_data (sys_spool S) = concat (map (frame_of X) bs)"
    "sys_synced S \<le> length (concat (map (frame_of X) bs))"
    "length (concat (map (frame_of X) bs)) \<le> u64_max"
    "\<forall>w \<in> in_log S. placed X bs w \<and> range_end (in_range w) \<le> sys_synced S"
    using log reset(1) unfolding log_inv_def by (auto simp del: length_concat)
  with reset show ?thesis unfolding log_inv_def
    by (intro exI [of _ bs] exI [of _ "[]"] exI [of _ 0])
      (simp add: in_log_def publishing_batches_def del: length_concat)
next
  case truncated
  with log_inv_idle(1) [OF acc log truncated(1,2,3)] same show ?thesis by simp
qed

lemma log_inv_reclaim:
  assumes acc: "accounting_inv l S" and log: "log_inv X l S"
    and rec: "reclaim_locked X sf tf (sys_spool S) = (res, s)"
    and changed: "sp_data s \<noteq> sp_data (sys_spool S)"
  shows "log_inv X l (S\<lparr>sys_spool := s,
       sys_publishing := map (\<lambda>(w, extent). (None, extent)) (sys_publishing S) @
         (case res of Inr (_, Some extent) \<Rightarrow> [(None, extent)] | _ \<Rightarrow> []),
       sys_acked := [], sys_retired := sys_retired S @ sys_acked S @ publishing_batches S,
       sys_synced := 0\<rparr>)" (is "log_inv X l ?T")
  using rec
proof (cases rule: reclaim_locked_cases)
  case truncated
  have "sys_written S = []" by (rule idle_written [OF acc truncated(2)])
  moreover have "publishing_batches ?T = []"
    by (auto simp: publishing_batches_def map_filter_def filter_empty_conv
        split: sum.splits option.splits prod.splits)
  ultimately have "in_log ?T = {}" "written_bytes ?T = 0" by (auto simp: in_log_def written_bytes_def)
  with truncated show ?thesis unfolding log_inv_def
    by (intro exI [of _ "[]"] exI [of _ "[]"] exI [of _ 0]) auto
qed (use changed in auto)

lemma set_publishing_batches:
  "set (publishing_batches S) = {w. \<exists>extent. (Some w, extent) \<in> set (sys_publishing S)}"
  by (force simp: publishing_batches_def map_filter_def)

text \<open>
  A crash: what is left of the file is the first frames and a torn one, every append in the log is
  inside of it, and so is the checkpoint unless it lies behind its end.
\<close>

lemma crash_log:
  assumes "log_inv X l S" "sys_synced S \<le> k"
  obtains bs tail cp where "list_all (batch_ok X l) bs"
    "take k (sp_data (sys_spool S)) = concat (map (frame_of X) bs) @ tail"
    "length (concat (map (frame_of X) bs)) \<le> u64_max"
    "torn_tail X l (length (concat (map (frame_of X) bs))) tail"
    "sp_checkpoint_file (sys_spool S) = checkpoint_encode X cp"
    "cp \<le> length (sp_data (sys_spool S))" "cp \<le> u64_max" "cp \<le> k \<longrightarrow> log_boundary X bs cp"
    "\<forall>w \<in> in_log S. placed X bs w \<and> range_end (in_range w) \<le> sys_synced S"
proof -
  obtain cs tail cp where inv: "list_all (batch_ok X l) cs"
    "sp_data (sys_spool S) = concat (map (frame_of X) cs) @ tail"
    "length (concat (map (frame_of X) cs)) \<le> u64_max"
    "torn_tail X l (length (concat (map (frame_of X) cs))) tail"
    "sp_checkpoint_file (sys_spool S) = checkpoint_encode X cp" "log_boundary X cs cp"
    "\<forall>w \<in> in_log S. placed X cs w \<and> range_end (in_range w) \<le> sys_synced S"
    using assms(1) unfolding log_inv_def by blast
  from take_log [of X l cs 0 tail k] inv(1,3,4) obtain bs rest tail' where cs: "cs = bs @ rest"
    and data: "take k (sp_data (sys_spool S)) = concat (map (frame_of X) bs) @ tail'"
    and torn: "torn_tail X l (length (concat (map (frame_of X) bs))) tail'"
    and kept: "\<forall>pre post. cs = pre @ post \<longrightarrow> length (concat (map (frame_of X) pre)) \<le> k \<longrightarrow> (\<exists>mid. bs = pre @ mid)"
    unfolding inv(2) by auto
  from inv(6) obtain seen unseen where cp: "cs = seen @ unseen" "cp = length (concat (map (frame_of X) seen))"
    unfolding log_boundary_def by blast
  have "placed X bs w" if "w \<in> in_log S" for w
  proof -
    from inv(7) that obtain pre post where pre: "cs = pre @ in_batch w # post"
      "in_range w = \<lparr>range_start = length (concat (map (frame_of X) pre)),
                     range_end = length (concat (map (frame_of X) (pre @ [in_batch w])))\<rparr>"
      unfolding placed_def by blast
    have "range_end (in_range w) \<le> k" using inv(7) that assms(2) by fastforce
    with kept [rule_format, of "pre @ [in_batch w]" post] pre obtain mid where "bs = (pre @ [in_batch w]) @ mid"
      by auto
    with pre(2) show ?thesis unfolding placed_def by (intro exI [of _ pre] exI [of _ mid]) simp
  qed
  moreover have "log_boundary X bs cp" if "cp \<le> k"
    using kept cp that unfolding log_boundary_def by blast
  moreover have "length (concat (map (frame_of X) bs)) \<le> u64_max" "list_all (batch_ok X l) bs"
    using inv(1,3) cs by simp_all
  moreover have "cp \<le> length (concat (map (frame_of X) cs))" using cp by simp
  then have "cp \<le> length (sp_data (sys_spool S))" "cp \<le> u64_max" using inv(2,3) by simp_all
  ultimately show ?thesis using that [OF _ data _ torn inv(5)] inv(7) by blast
qed

lemma log_start:
  assumes log: "log_inv X l S" and dig: "digest_ok X" and k: "sys_synced S \<le> k"
    and opened: "spool_open X (Some (take k (sp_data (sys_spool S)))) (Some (sp_checkpoint_file (sys_spool S)))
      capacity l = Inr (s, reader, report)"
    and synced: "synced = length (sp_data s) \<or>
      synced = sys_synced S \<and> length (sp_data (sys_spool S)) \<le> k \<and> report_discarded_tail_bytes report = 0"
  shows "log_inv X l ((spool_start synced s)\<lparr>sys_acked := sys_acked S, sys_retired := retired\<rparr>)"
proof -
  obtain bs tail cp where crash: "list_all (batch_ok X l) bs"
    "take k (sp_data (sys_spool S)) = concat (map (frame_of X) bs) @ tail"
    "length (concat (map (frame_of X) bs)) \<le> u64_max"
    "torn_tail X l (length (concat (map (frame_of X) bs))) tail"
    "sp_checkpoint_file (sys_spool S) = checkpoint_encode X cp"
    "cp \<le> length (sp_data (sys_spool S))" "cp \<le> u64_max" "cp \<le> k \<longrightarrow> log_boundary X bs cp"
    "\<forall>w \<in> in_log S. placed X bs w \<and> range_end (in_range w) \<le> sys_synced S"
    by (rule crash_log [OF log k])
  obtain data where opened: "recover_files X (Some (sp_checkpoint_file (sys_spool S)))
      (Some (take k (sp_data (sys_spool S)))) capacity l = Inr (report, data)"
    "s = from_recovered X data capacity (length data) (report_checkpoint report)"
    "report_committed_bytes report = length data" "length data \<le> length (take k (sp_data (sys_spool S)))"
    "report_discarded_tail_bytes report = 0 \<longrightarrow> data = take k (sp_data (sys_spool S))"
    by (rule spool_open_files [OF dig opened])
  note files = opened(1) [unfolded crash(2,5)] opened(2,5)
  have "length (concat (map (frame_of X) bs) @ tail) \<le> k"
    using arg_cong [OF crash(2), of length] by simp
  then have "cp \<le> k"
    using recover_beyond_end [OF dig crash(1,3,4) _ crash(7), of capacity] files(1) by fastforce
  from crash(8) this obtain seen rest where bs: "bs = seen @ rest" "cp = length (concat (map (frame_of X) seen))"
    unfolding log_boundary_def by blast
  have lim: "l + FRAME_OVERHEAD_BYTES \<le> u64_max"
    using files(1) by (auto simp: recover_files_def reserved_frame_bytes_def result_simps Let_def)
  from recover_torn_tail [OF dig crash(1) [unfolded bs(1)] crash(3) [unfolded bs(1)] lim crash(4) [unfolded bs(1)], of capacity]
  obtain extra where extra: "list_all (batch_ok X l) extra" "data = concat (map (frame_of X) (bs @ extra))"
    "report_checkpoint report = cp" "length (concat (map (frame_of X) (bs @ extra))) \<le> u64_max"
    using files(1) unfolding bs by auto
  have acked: "placed X (bs @ extra) w \<and> range_end (in_range w) \<le> synced" if "w \<in> set (sys_acked S)" for w
    using crash(9) that synced placed_append [of X bs w extra] placed_range_end [of X "bs @ extra" w]
      files(2) extra(2) by (auto simp: in_log_def from_recovered_def simp del: length_concat)
  have "synced \<le> length data"
    using synced files(2,3) k log unfolding log_inv_def by (auto simp: from_recovered_def simp del: length_concat)
  with extra crash(1) acked files(2) bs show ?thesis unfolding log_inv_def
    by (intro exI [of _ "bs @ extra"] exI [of _ "[]"] exI [of _ cp])
      (auto simp: spool_start_def from_recovered_def in_log_def publishing_batches_def written_bytes_def
        map_filter_def log_boundary_def simp del: length_concat)
qed

lemma log_step:
  assumes acc: "accounting_inv l S" and log: "log_inv X l S" and dig: "digest_ok X"
    and step: "spool_step X l S T"
  shows "log_inv X l T"
  using step
proof cases
  case (Reserve b r s)
  with reserve_Inr [OF Reserve(3)] show ?thesis
    by (intro log_inv_same_files [OF log]) (auto simp: in_log_def set_publishing_batches written_bytes_def)
next
  case (Release before r after)
  then have "res_reserved_bytes r \<le> sp_reserved_bytes (sys_spool S)"
    using acc by (auto simp: accounting_inv_def Let_def)
  with Release show ?thesis
    by (intro log_inv_same_files [OF log])
      (auto simp: in_log_def set_publishing_batches written_bytes_def release_reservation_ok)
next
  case (Write before r after m body fault p r' s)
  then show ?thesis using log_inv_write [OF acc log dig] by blast
next
  case (Write_Fails r m body fault e s)
  then show ?thesis using log_inv_write_fails [OF acc log dig] by blast
next
  case (Commit before w after extent s)
  with commit_fits [OF acc Commit(2)] show ?thesis
    by (intro log_inv_same_files [OF log])
      (auto simp: in_log_def set_publishing_batches written_bytes_def commit_accounting_ok)
next
  case (Commit_Fails before w after e s)
  with commit_fits [OF acc Commit_Fails(2)] show ?thesis by (simp add: commit_accounting_ok)
next
  case (Publish_Extent before w extent after)
  then show ?thesis
    by (intro log_inv_same_files [OF log])
      (auto simp: in_log_def set_publishing_batches written_bytes_def publish_extent_def
        split: option.splits)
next
  case (Advance cur batches outputs plan fault res s)
  then show ?thesis using log_inv_advance [OF log] by blast
next
  case (Reclaim_Deferred sf tf res s)
  then show ?thesis using log_inv_reclaim_kept [OF acc log] by blast
next
  case (Reclaim sf tf res s)
  then show ?thesis using log_inv_reclaim [OF acc log] by blast
next
  case (Restart capacity s reader report)
  have "sys_synced S \<le> length (sp_data (sys_spool S))"
    using log unfolding log_inv_def by (auto simp del: length_concat)
  from log_start [OF log dig this, of capacity s reader report] Restart show ?thesis
    by (simp add: synced_by_recovery_def)
next
  case (Power_Loss k capacity s reader report)
  then show ?thesis using log_start [OF log dig Power_Loss(2,3)] by simp
qed

section \<open>The invariant\<close>

definition spool_inv :: "'x spool_env_scheme \<Rightarrow> nat \<Rightarrow> spool_system \<Rightarrow> bool" where
  "spool_inv X l S \<longleftrightarrow> digest_ok X \<and> accounting_inv l S \<and> log_inv X l S"

lemma spool_inv_init:
  assumes "spool_init X l S" shows "spool_inv X l S"
proof -
  obtain data cpf capacity s reader report n where
    opened: "spool_open X data cpf capacity l = Inr (s, reader, report)" and dig: "digest_ok X"
    and cap: "capacity \<le> u64_max" and len: "\<forall>d. data = Some d \<longrightarrow> length d \<le> u64_max"
    and n: "n \<le> length (sp_data s)" and S: "S = spool_start (synced_by_recovery report s n) s"
    using assms unfolding spool_init_def by blast
  have synced: "synced_by_recovery report s n \<le> length (sp_data s)"
    using n by (simp add: synced_by_recovery_def)
  obtain df cf log where rec: "recover_files X cf df capacity l = Inr (report, log)"
    and df: "\<forall>d. df = Some d \<longrightarrow> length d \<le> u64_max"
    and s: "s = from_recovered X log capacity (report_committed_bytes report) (report_checkpoint report)"
    using opened len by (auto simp: spool_open_def result_simps split: spool_files.splits)
  obtain seen rest tail where log: "list_all (batch_ok X l) (seen @ rest)"
    "log = concat (map (frame_of X) (seen @ rest))" "df = Some (log @ tail)"
    "cf = Some (checkpoint_encode X (report_checkpoint report))"
    "report_checkpoint report = length (concat (map (frame_of X) seen))"
    "report_committed_batches report = length (seen @ rest)"
    "report_pending_batches report = length rest"
    "report_committed_bytes report = length log"
    "report_discarded_tail_bytes report = length tail"
    by (rule recover_files_only_frames [OF dig rec])
  have u64: "length log \<le> u64_max" using df log(3) by simp
  have "accounting_inv l S"
    using S s cap u64 log(8) by (simp add: accounting_inv_def Let_def spool_start_def from_recovered_def)
  moreover have "log_boundary X (seen @ rest) (report_checkpoint report)"
    using log(5) unfolding log_boundary_def by blast
  then have "log_inv X l S" unfolding log_inv_def
    using S s u64 log synced
    by (intro exI [of _ "seen @ rest"] exI [of _ "[]"] exI [of _ "report_checkpoint report"])
      (simp add: spool_start_def from_recovered_def in_log_def publishing_batches_def written_bytes_def
        map_filter_def del: length_concat concat_append map_append)
  ultimately show ?thesis using dig by (simp add: spool_inv_def)
qed

interpretation spool: invariant_system "spool_init X l" "spool_step X l" "spool_inv X l"
  for X :: "'x spool_env_scheme" and l
proof unfold_locales
  fix S assume "spool_init X l S"
  then show "spool_inv X l S" by (rule spool_inv_init)
next
  fix S T assume "spool_inv X l S" "spool_step X l S T"
  then show "spool_inv X l T" unfolding spool_inv_def by (blast intro: accounting_step log_step log_inv_length)
qed

definition spool_reachable :: "'x spool_env_scheme \<Rightarrow> nat \<Rightarrow> spool_system \<Rightarrow> bool" where
  "spool_reachable X l S \<longleftrightarrow> (\<exists>S0. spool_init X l S0 \<and> (spool_step X l)\<^sup>*\<^sup>* S0 S)"

lemma reachable_inv: "spool_reachable X l S \<Longrightarrow> spool_inv X l S"
  unfolding spool_reachable_def by (blast intro: spool.inv_reachable)

lemma reachable_step: "spool_reachable X l S \<Longrightarrow> spool_step X l S T \<Longrightarrow> spool_reachable X l T"
  unfolding spool_reachable_def by (blast intro: rtranclp.rtrancl_into_rtrancl)

lemma reachable_cases:
  assumes "spool_reachable X l S"
  shows "digest_ok X" "accounting_inv l S" "log_inv X l S"
  using reachable_inv [OF assms] by (simp_all add: spool_inv_def)

section \<open>What survives a crash\<close>

lemma recovered_of_append:
  "recovered_of X p (us @ vs) =
   recovered_of X p us @ recovered_of X (p + length (concat (map (frame_of X) us))) vs"
  by (induction us arbitrary: p) (auto simp: add.assoc)

definition recovered_batch_of :: "'x spool_env_scheme \<Rightarrow> inflight \<Rightarrow> recovered_batch" where
  "recovered_batch_of X w =
     \<lparr>rb_metadata = fst (in_batch w), rb_body = snd (in_batch w),
      rb_body_digest = blake3 X (snd (in_batch w)), rb_range = in_range w\<rparr>"

lemma placed_recovered:
  assumes "placed X (seen @ rest) w" "length (concat (map (frame_of X) seen)) < range_end (in_range w)"
  shows "recovered_batch_of X w \<in> set (recovered_of X (length (concat (map (frame_of X) seen))) rest)"
proof -
  obtain pre post where split: "seen @ rest = pre @ in_batch w # post"
    and range: "in_range w = \<lparr>range_start = length (concat (map (frame_of X) pre)),
       range_end = length (concat (map (frame_of X) (pre @ [in_batch w])))\<rparr>"
    using assms(1) unfolding placed_def by blast
  from split consider us where "pre = seen @ us" "rest = us @ in_batch w # post"
    | us where "seen = pre @ us" "us @ rest = in_batch w # post"
    unfolding append_eq_append_conv2 by metis
  then show ?thesis
  proof cases
    case 1
    then show ?thesis using range by (simp add: recovered_of_append recovered_batch_of_def)
  next
    case (2 us)
    show ?thesis
    proof (cases us)
      case Nil
      with 2 range show ?thesis by (simp add: recovered_batch_of_def)
    next
      case (Cons u us')
      with 2 range assms(2) show ?thesis by simp
    qed
  qed
qed

lemma crash_recovery:
  assumes dig: "digest_ok X" and ok: "list_all (batch_ok X l) bs"
    and len: "length (concat (map (frame_of X) bs)) \<le> u64_max"
    and tail: "torn_tail X l (length (concat (map (frame_of X) bs))) tail"
    and lim: "l + FRAME_OVERHEAD_BYTES \<le> u64_max" and cp: "log_boundary X bs cp"
  obtains report log batches where
    "recover_files X (Some (checkpoint_encode X cp)) (Some (concat (map (frame_of X) bs) @ tail)) capacity l =
       Inr (report, log)"
    "report_checkpoint report = cp" "report_pending_batches report = length batches"
    "next_batches X log extent (length batches) (recovered_reader report l) =
       (map (\<lambda>b. Inr (Some b)) batches,
        (recovered_reader report l)\<lparr>rd_position := report_committed_bytes report\<rparr>)"
    "\<forall>w. placed X bs w \<longrightarrow> cp < range_end (in_range w) \<longrightarrow> recovered_batch_of X w \<in> set batches"
proof -
  obtain seen rest where bs: "bs = seen @ rest" and cp: "cp = length (concat (map (frame_of X) seen))"
    using cp unfolding log_boundary_def by blast
  from recover_torn_tail [OF dig ok [unfolded bs] len [unfolded bs] lim tail [unfolded bs], of capacity]
  obtain extra report where rec: "list_all (batch_ok X l) extra"
    "recover_files X (Some (checkpoint_encode X cp)) (Some (concat (map (frame_of X) bs) @ tail)) capacity l =
     Inr (report, concat (map (frame_of X) (seen @ rest @ extra)))"
    "report_checkpoint report = cp"
    "report_committed_bytes report = length (concat (map (frame_of X) (seen @ rest @ extra)))"
    "report_pending_batches report = length (rest @ extra)"
    "length (concat (map (frame_of X) (seen @ rest @ extra))) \<le> u64_max"
    unfolding cp bs by blast
  let ?batches = "recovered_of X cp (rest @ extra)"
  let ?r = "recovered_reader report l"
  have "next_batches X (concat (map (frame_of X) seen) @ concat (map (frame_of X) (rest @ extra)) @ [])
      extent (length (rest @ extra)) ?r =
    (map (\<lambda>b. Inr (Some b)) (recovered_of X (length (concat (map (frame_of X) seen))) (rest @ extra)),
     ?r\<lparr>rd_position := length (concat (map (frame_of X) seen) @ concat (map (frame_of X) (rest @ extra)))\<rparr>)"
    using rec ok bs cp
    by (intro next_batches_drain)
      (simp_all add: recovered_reader_def reader_live_def reader_end_def del: length_concat)
  then have drain: "next_batches X (concat (map (frame_of X) (seen @ rest @ extra))) extent
      (length ?batches) ?r =
    (map (\<lambda>b. Inr (Some b)) ?batches, ?r\<lparr>rd_position := report_committed_bytes report\<rparr>)"
    using rec(4) cp by simp
  have "recovered_batch_of X w \<in> set ?batches" if "placed X bs w" "cp < range_end (in_range w)" for w
    using placed_recovered [of X seen "rest @ extra" w] placed_append [OF that(1), of extra] that(2) bs cp by simp
  with that [OF rec(2,3), of ?batches] drain rec(5) show ?thesis by simp
qed

end
