(* ===== verification/Spool_Runs.thy ===== *)
theory Spool_Runs
  imports Spool_System
begin

text \<open>
  Runs of the spool: what the operations do when nothing fails, the steps they take in the
  system, two interleavings of a pair of appends, and a restart over a frame that is not on disk.
\<close>

section \<open>Operations that succeed\<close>

lemma reserve_ok:
  assumes "\<not> sp_failed s" "sp_capacity s \<le> u64_max"
    "sp_committed_bytes s + sp_reserved_bytes s + (b + FRAME_OVERHEAD_BYTES) \<le> sp_capacity s"
  shows "reserve b s = (Inr \<lparr>res_body_limit = b, res_reserved_bytes = b + FRAME_OVERHEAD_BYTES\<rparr>,
    s\<lparr>sp_reserved_bytes := sp_reserved_bytes s + (b + FRAME_OVERHEAD_BYTES)\<rparr>)"
  using assms
  by (simp add: reserve_def ensure_writable_def reserved_frame_bytes_def checked_add_def Let_def)

lemma write_frame_ok:
  assumes "\<not> sp_failed s" "batch_ok X l (m, body)"
    "length (sp_data s) + (length body + FRAME_OVERHEAD_BYTES) \<le> u64_max"
  shows "write_frame X m body NoFault s =
    (Inr (\<lparr>pf_header = header_of X m body, pf_footer = footer_of X m body,
           pf_body_bytes = length body, pf_body_digest = blake3 X body,
           pf_stored_bytes = length body + FRAME_OVERHEAD_BYTES\<rparr>,
          \<lparr>range_start = length (sp_data s),
           range_end = length (sp_data s) + (length body + FRAME_OVERHEAD_BYTES)\<rparr>),
     s\<lparr>sp_data := sp_data s @ frame_bytes X m body\<rparr>)"
proof -
  have "prepared_frame_new X m body =
     Inr \<lparr>pf_header = header_of X m body, pf_footer = footer_of X m body,
          pf_body_bytes = length body, pf_body_digest = blake3 X body,
          pf_stored_bytes = length body + FRAME_OVERHEAD_BYTES\<rparr>"
    using assms(2) by (intro prepared_frame_new_ok) (auto simp: batch_ok_def)
  then show ?thesis
    using assms(1,3)
    by (simp add: write_frame_def ensure_writable_def Let_def checked_add_def frame_bytes_def
        spool_batch_range_new_def frame_constants)
qed

text \<open>
  In every reachable state the counters fit: an append that holds its reservation and meets no
  I/O error is committed, and the caller learns where its frame lies.
\<close>

lemma append_succeeds:
  assumes reach: "spool_reachable X l S" and r: "r \<in> set (sys_active S)"
    and nf: "\<not> sp_failed (sys_spool S)" and m: "metadata_ok X m"
    and body: "length body \<le> res_body_limit r"
  shows "\<exists>s. append_batch X r m body NoFault (sys_spool S) =
    (Inr \<lparr>da_metadata = m, da_body_bytes = length body, da_body_digest = blake3 X body,
          da_range = \<lparr>range_start = length (sp_data (sys_spool S)),
            range_end = length (sp_data (sys_spool S)) + (length body + FRAME_OVERHEAD_BYTES)\<rparr>\<rparr>, s) \<and>
    sp_data s = sp_data (sys_spool S) @ frame_bytes X m body \<and> \<not> sp_failed s \<and>
    sp_committed_bytes s = sp_committed_bytes (sys_spool S) + (length body + FRAME_OVERHEAD_BYTES) \<and>
    sp_reserved_bytes s = sp_reserved_bytes (sys_spool S) - res_reserved_bytes r \<and>
    sp_extent s = \<lparr>extent_generation = sp_generation (sys_spool S), extent_end = sp_committed_bytes s\<rparr>"
proof -
  note inv = reachable_cases [OF reach]
  have acc: "sp_reserved_bytes (sys_spool S) = sum_list (map res_reserved_bytes (sys_active S)) +
      sum_list (map in_reserved (sys_written S))" "sp_capacity (sys_spool S) \<le> u64_max"
    "sp_reserved_bytes (sys_spool S) = 0 \<or>
     sp_committed_bytes (sys_spool S) + sp_reserved_bytes (sys_spool S) \<le> sp_capacity (sys_spool S)"
    and res: "res_reserved_bytes r = res_body_limit r + FRAME_OVERHEAD_BYTES" "res_body_limit r \<le> l"
    using inv(2) r unfolding accounting_inv_def Let_def list_all_iff by blast+
  have active: "res_reserved_bytes r \<le> sum_list (map res_reserved_bytes (sys_active S))"
    using r by (intro member_le_sum_list) auto
  then have pos: "0 < sp_reserved_bytes (sys_spool S)" using acc(1) res by (simp add: frame_constants)
  then have "length body \<le> u64_max" using acc active res body by linarith
  then have chk: "append_checks r body (sys_spool S) = Inr ()" using body nf by (simp add: append_checks_Inr)
  note fits = write_fits [OF inv(2,3) r chk m inv(1)]
  let ?c = "length body + FRAME_OVERHEAD_BYTES"
  have "?c \<le> res_reserved_bytes r" "res_reserved_bytes r \<le> sp_reserved_bytes (sys_spool S)"
    "sp_committed_bytes (sys_spool S) + ?c \<le> u64_max"
    using acc active res body pos by linarith+
  then show ?thesis
    using chk write_frame_ok [OF nf fits] nf
    by (simp add: append_batch_def append_reserved_def commit_reservation_def commit_accounting_ok
        publish_extent_def)
qed

section \<open>Interleavings\<close>

lemma run_reserve:
  assumes "spool_reachable X l S" "\<not> sp_failed (sys_spool S)"
    "sp_committed_bytes (sys_spool S) + sp_reserved_bytes (sys_spool S) + (l + FRAME_OVERHEAD_BYTES)
      \<le> sp_capacity (sys_spool S)"
  shows "spool_reachable X l (S\<lparr>sys_spool := (sys_spool S)
      \<lparr>sp_reserved_bytes := sp_reserved_bytes (sys_spool S) + (l + FRAME_OVERHEAD_BYTES)\<rparr>,
    sys_active := \<lparr>res_body_limit = l, res_reserved_bytes = l + FRAME_OVERHEAD_BYTES\<rparr> # sys_active S\<rparr>)"
proof -
  have "sp_capacity (sys_spool S) \<le> u64_max"
    using reachable_cases(2) [OF assms(1)] unfolding accounting_inv_def Let_def by blast
  then show ?thesis
    by (intro reachable_step [OF assms(1)] spool_step.Reserve [OF order_refl] reserve_ok assms)
qed

lemma run_write:
  assumes reach: "spool_reachable X l S" and nf: "\<not> sp_failed (sys_spool S)"
    and act: "sys_active S = \<lparr>res_body_limit = l, res_reserved_bytes = l + FRAME_OVERHEAD_BYTES\<rparr> # after"
    and m: "metadata_ok X m" and body: "length body \<le> l" and lim: "l + FRAME_OVERHEAD_BYTES \<le> u64_max"
  shows "spool_reachable X l (S\<lparr>
    sys_spool := (sys_spool S)\<lparr>sp_data := sp_data (sys_spool S) @ frame_bytes X m body\<rparr>,
    sys_active := after,
    sys_written := sys_written S @ [\<lparr>in_batch = (m, body), in_reserved = l + FRAME_OVERHEAD_BYTES,
      in_range = \<lparr>range_start = length (sp_data (sys_spool S)),
        range_end = length (sp_data (sys_spool S)) + (length body + FRAME_OVERHEAD_BYTES)\<rparr>\<rparr>],
    sys_synced := length (sp_data (sys_spool S) @ frame_bytes X m body)\<rparr>)"
proof -
  let ?r = "\<lparr>res_body_limit = l, res_reserved_bytes = l + FRAME_OVERHEAD_BYTES\<rparr>"
  have chk: "append_checks ?r body (sys_spool S) = Inr ()"
    using nf body lim by (simp add: append_checks_Inr)
  note inv = reachable_cases [OF reach]
  have r: "?r \<in> set (sys_active S)" using act by simp
  note fits = write_fits [OF inv(2,3) r chk m inv(1)]
  have act': "sys_active S = [] @ ?r # after" using act by simp
  show ?thesis
    using reachable_step [OF reach spool_step.Write [OF act' m chk write_frame_ok [OF nf fits]]]
    by simp
qed

lemma run_commit:
  assumes reach: "spool_reachable X l S" and w: "sys_written S = before @ w # after"
  shows "spool_reachable X l (S\<lparr>
    sys_spool := (sys_spool S)
      \<lparr>sp_committed_bytes := sp_committed_bytes (sys_spool S) + in_stored w,
       sp_reserved_bytes := sp_reserved_bytes (sys_spool S) - in_reserved w\<rparr>,
    sys_written := before @ after,
    sys_publishing := sys_publishing S @ [(Some w,
      \<lparr>extent_generation = sp_generation (sys_spool S),
       extent_end = sp_committed_bytes (sys_spool S) + in_stored w\<rparr>)]\<rparr>)"
  using commit_fits [OF reachable_cases(2) [OF reach] w]
  by (intro reachable_step [OF reach] spool_step.Commit [OF w] commit_accounting_ok) auto

lemma run_publish:
  assumes "spool_reachable X l S" "sys_publishing S = before @ (Some w, extent) # after"
  shows "spool_reachable X l (S\<lparr>sys_spool := (sys_spool S)\<lparr>sp_extent := extent\<rparr>,
    sys_publishing := before @ after, sys_acked := sys_acked S @ [w]\<rparr>)"
  using reachable_step [OF assms(1) spool_step.Publish_Extent [OF assms(2)]]
  by (simp add: publish_extent_def)

definition fresh_spool :: "'x spool_env_scheme \<Rightarrow> nat \<Rightarrow> spool_state" where
  "fresh_spool X capacity = from_recovered X [] capacity 0 0"

lemma spool_open_fresh:
  assumes "digest_ok X" "l + FRAME_OVERHEAD_BYTES \<le> u64_max"
  obtains report where "spool_open X None None capacity l =
      Inr (fresh_spool X capacity, recovered_reader report l, report)"
    "recovered_reader report l = \<lparr>rd_position = 0, rd_recovered_end = 0, rd_generation = 0,
       rd_body_limit = l, rd_state = ReadingRecovery\<rparr>"
  using recover_whole_spool [OF assms(1), of l "[]" "[]"] assms(2)
  by (simp add: spool_open_def inspect_spool_files_def fresh_spool_def recovered_reader_def)

lemma fresh_reachable:
  assumes "digest_ok X" "l + FRAME_OVERHEAD_BYTES \<le> u64_max" "capacity \<le> u64_max"
  shows "spool_reachable X l (spool_start 0 (fresh_spool X capacity))"
proof -
  obtain report where opened: "spool_open X None None capacity l =
      Inr (fresh_spool X capacity, recovered_reader report l, report)"
    by (rule spool_open_fresh [OF assms(1,2)])
  have "synced_by_recovery report (fresh_spool X capacity) 0 = 0"
    by (simp add: synced_by_recovery_def fresh_spool_def from_recovered_def)
  with opened assms(1,3) have "spool_init X l (spool_start 0 (fresh_spool X capacity))"
    unfolding spool_init_def
    by (intro exI [of _ None] exI [of _ capacity] exI [of _ "fresh_spool X capacity"]
        exI [of _ "recovered_reader report l"] exI [of _ report] exI [of _ 0]) simp
  then show ?thesis unfolding spool_reachable_def by blast
qed

lemma fresh_spool_simps [simp]:
  "sp_capacity (fresh_spool X c) = c" "sp_data (fresh_spool X c) = []"
  "sp_generation (fresh_spool X c) = 0" "sp_committed_bytes (fresh_spool X c) = 0"
  "sp_reserved_bytes (fresh_spool X c) = 0" "sp_checkpoint (fresh_spool X c) = 0"
  "\<not> sp_failed (fresh_spool X c)"
  by (simp_all add: fresh_spool_def from_recovered_def)

text \<open>
  Two appends, the first written before the second, and neither committed yet.
\<close>

definition two_written ::
  "'x spool_env_scheme \<Rightarrow> nat \<Rightarrow> nat \<Rightarrow> batch_metadata \<times> bytes \<Rightarrow> batch_metadata \<times> bytes \<Rightarrow> spool_system" where
  "two_written X l capacity a b =
     (let first_end = length (frame_of X a); second_end = first_end + length (frame_of X b);
          append = (\<lambda>mb start stop. \<lparr>in_batch = mb, in_reserved = l + FRAME_OVERHEAD_BYTES,
            in_range = \<lparr>range_start = start, range_end = stop\<rparr>\<rparr>)
      in \<lparr>sys_spool = (fresh_spool X capacity)
            \<lparr>sp_reserved_bytes := (l + FRAME_OVERHEAD_BYTES) + (l + FRAME_OVERHEAD_BYTES),
             sp_data := frame_of X a @ frame_of X b\<rparr>,
          sys_active = [], sys_written = [append a 0 first_end, append b first_end second_end],
          sys_publishing = [], sys_acked = [], sys_retired = [], sys_synced = second_end,
          sys_opened = 0\<rparr>)"

lemma two_written_reachable:
  assumes dig: "digest_ok X" and cap: "2 * (l + FRAME_OVERHEAD_BYTES) \<le> capacity" "capacity \<le> u64_max"
    and ma: "metadata_ok X (fst a)" "length (snd a) \<le> l"
    and mb: "metadata_ok X (fst b)" "length (snd b) \<le> l"
  shows "spool_reachable X l (two_written X l capacity a b)"
proof -
  have lim: "l + FRAME_OVERHEAD_BYTES \<le> u64_max" using cap by simp
  have ok: "batch_ok X l (fst a, snd a)" "batch_ok X l (fst b, snd b)"
    using dig ma mb lim by (auto simp: batch_ok_def)
  note len = length_frame_bytes [OF ok(1)] length_frame_bytes [OF ok(2)]
  note r0 = fresh_reachable [OF dig lim cap(2)]
  note r1 = run_reserve [OF r0]
  from r1 cap have r1: "spool_reachable X l ((spool_start 0 (fresh_spool X capacity))
      \<lparr>sys_spool := (fresh_spool X capacity)\<lparr>sp_reserved_bytes := l + FRAME_OVERHEAD_BYTES\<rparr>,
       sys_active := [\<lparr>res_body_limit = l, res_reserved_bytes = l + FRAME_OVERHEAD_BYTES\<rparr>]\<rparr>)"
    by (simp add: spool_start_def)
  from run_reserve [OF r1] cap have r2: "spool_reachable X l ((spool_start 0 (fresh_spool X capacity))
      \<lparr>sys_spool := (fresh_spool X capacity)\<lparr>sp_reserved_bytes := (l + FRAME_OVERHEAD_BYTES) + (l + FRAME_OVERHEAD_BYTES)\<rparr>,
       sys_active := [\<lparr>res_body_limit = l, res_reserved_bytes = l + FRAME_OVERHEAD_BYTES\<rparr>,
         \<lparr>res_body_limit = l, res_reserved_bytes = l + FRAME_OVERHEAD_BYTES\<rparr>]\<rparr>)"
    by simp
  note r3 = run_write [OF r2 _ _ ma(1,2) lim, simplified]
  from run_write [OF r3 _ _ mb(1,2) lim] len show ?thesis
    by (simp add: two_written_def Let_def spool_start_def)
qed


text \<open>
  The second append commits first. The extent it publishes is the sum of the committed frames,
  and ends inside the first frame when the first frame is the longer one.
\<close>

definition second_acked ::
  "'x spool_env_scheme \<Rightarrow> nat \<Rightarrow> nat \<Rightarrow> batch_metadata \<times> bytes \<Rightarrow> batch_metadata \<times> bytes \<Rightarrow> spool_system" where
  "second_acked X l capacity a b =
     (let S = two_written X l capacity a b; w = sys_written S ! 1
      in S\<lparr>sys_spool := (sys_spool S)
              \<lparr>sp_committed_bytes := in_stored w, sp_reserved_bytes := l + FRAME_OVERHEAD_BYTES,
               sp_extent := \<lparr>extent_generation = 0, extent_end = in_stored w\<rparr>\<rparr>,
           sys_written := [sys_written S ! 0], sys_acked := [w]\<rparr>)"

lemma second_acked_reachable:
  assumes "spool_reachable X l (two_written X l capacity a b)"
  shows "spool_reachable X l (second_acked X l capacity a b)"
proof -
  let ?S = "two_written X l capacity a b"
  have w: "sys_written ?S = [sys_written ?S ! 0] @ (sys_written ?S ! 1) # []"
    by (simp add: two_written_def Let_def)
  note c = run_commit [OF assms w]
  from run_publish [OF c, of "[]" "sys_written ?S ! 1" _ "[]"] show ?thesis
    by (simp add: second_acked_def two_written_def Let_def)
qed

lemma next_batch_beyond_extent:
  assumes ok: "batch_ok X l (m, body)" and rd: "rd_state r = Following" "rd_position r = 0"
      "rd_body_limit r = l" "rd_generation r = extent_generation extent"
    and e: "0 < extent_end extent" "extent_end extent < length (frame_bytes X m body)"
  shows "next_batch X (frame_bytes X m body @ rest) extent r =
    (Inl (corrupt ''recovered spool frame exceeds its committed range''), r\<lparr>rd_state := Failed\<rparr>)"
proof -
  have "read_exact_committed (frame_bytes X m body @ rest) 0 HEADER_BYTES = Inr (header_of X m body)"
    using frame_of_parts(1) [OF ok, of "[]" rest] length_frame_bytes [OF ok]
    by (simp add: read_exact_committed_def frame_constants)
  moreover have "checked_add 0 (length body + FRAME_OVERHEAD_BYTES) =
      Some (length body + FRAME_OVERHEAD_BYTES)"
    using ok by (simp add: checked_add_def batch_ok_def)
  ultimately have "read_recovered_batch X (frame_bytes X m body @ rest) 0 (extent_end extent) l =
      Inl (corrupt ''recovered spool frame exceeds its committed range'')"
    using decode_header_of [OF ok] e(2) length_frame_bytes [OF ok]
    by (simp add: read_recovered_batch_def decoded_of_def)
  then show ?thesis using rd e by (simp add: next_batch_def next_batch_read_def)
qed

text \<open>
  Both commits precede both publications, and the older extent is published last.
\<close>

definition extents_swapped ::
  "'x spool_env_scheme \<Rightarrow> nat \<Rightarrow> nat \<Rightarrow> batch_metadata \<times> bytes \<Rightarrow> batch_metadata \<times> bytes \<Rightarrow> spool_system" where
  "extents_swapped X l capacity a b =
     (let S = two_written X l capacity a b; v = sys_written S ! 0; w = sys_written S ! 1
      in S\<lparr>sys_spool := (sys_spool S)
              \<lparr>sp_committed_bytes := in_stored v + in_stored w, sp_reserved_bytes := 0,
               sp_extent := \<lparr>extent_generation = 0, extent_end = in_stored v\<rparr>\<rparr>,
           sys_written := [], sys_acked := [w, v]\<rparr>)"

lemma extents_swapped_reachable:
  assumes "spool_reachable X l (two_written X l capacity a b)"
  shows "spool_reachable X l (extents_swapped X l capacity a b)"
proof -
  let ?S = "two_written X l capacity a b"
  have w: "sys_written ?S = [] @ (sys_written ?S ! 0) # [sys_written ?S ! 1]"
    by (simp add: two_written_def Let_def)
  note c = run_commit [OF assms w]
  note d = run_commit [OF c, of "[]" "sys_written ?S ! 1" "[]", simplified]
  note e = run_publish [OF d, simplified]
  from e [of "[(Some (sys_written ?S ! 0), \<lparr>extent_generation = 0, extent_end = in_stored (sys_written ?S ! 0)\<rparr>)]"
      "sys_written ?S ! 1" _ "[]"]
  have f: "spool_reachable X l (?S\<lparr>sys_spool := (sys_spool ?S)
      \<lparr>sp_committed_bytes := in_stored (sys_written ?S ! 0) + in_stored (sys_written ?S ! 1),
       sp_reserved_bytes := 0,
       sp_extent := \<lparr>extent_generation = 0,
         extent_end = in_stored (sys_written ?S ! 0) + in_stored (sys_written ?S ! 1)\<rparr>\<rparr>,
      sys_written := [],
      sys_publishing := [(Some (sys_written ?S ! 0),
        \<lparr>extent_generation = 0, extent_end = in_stored (sys_written ?S ! 0)\<rparr>)],
      sys_acked := [sys_written ?S ! 1]\<rparr>)"
    by (simp add: two_written_def Let_def)
  from run_publish [OF f, of "[]" "sys_written ?S ! 0" _ "[]"] show ?thesis
    by (simp add: extents_swapped_def two_written_def Let_def)
qed

section \<open>A restart over a frame that is not on disk\<close>

text \<open>
  A frame is written and its synchronization fails, which fails the spool. The process is started
  again as documented: the recovery finds a complete frame, discards nothing and so synchronizes
  nothing. The batch is processed and published, and the checkpoint passes it.
\<close>

definition published_batch :: "'x spool_env_scheme \<Rightarrow> batch_metadata \<times> bytes \<Rightarrow> batch_output_requirements" where
  "published_batch X mb = \<lparr>req_batch_id = batch_id (fst mb),
     req_spool_range = \<lparr>range_start = 0, range_end = length (frame_of X mb)\<rparr>, req_positions = [0]\<rparr>"

definition published_output :: "'x spool_env_scheme \<Rightarrow> batch_metadata \<times> bytes \<Rightarrow> unit output_recovery_record" where
  "published_output X mb = \<lparr>or_id = batch_id (fst mb), or_revision = 1, or_output = (),
     or_coverage = [\<lparr>cov_batch_id = batch_id (fst mb),
       cov_spool_range = \<lparr>range_start = 0, range_end = length (frame_of X mb)\<rparr>, cov_positions = [0]\<rparr>]\<rparr>"

definition unsynced_checkpointed :: "'x spool_env_scheme \<Rightarrow> nat \<Rightarrow> batch_metadata \<times> bytes \<Rightarrow> spool_system" where
  "unsynced_checkpointed X capacity mb =
     spool_start 0 ((from_recovered X (frame_of X mb) capacity (length (frame_of X mb)) 0)
       \<lparr>sp_checkpoint := length (frame_of X mb),
        sp_checkpoint_file := checkpoint_encode X (length (frame_of X mb))\<rparr>)"

lemma unsynced_plan:
  assumes "frame_of X mb \<noteq> []"
  shows "plan_checkpoint 0 [published_batch X mb] [published_output X mb] =
    Inr (Some \<lparr>plan_current = 0, plan_target = length (frame_of X mb)\<rparr>)"
  using assms
  by (simp add: plan_checkpoint_def published_batch_def published_output_def required_entries_def
      coverage_entries_def fully_covered_def Let_def)

lemma run_sync_fails:
  assumes dig: "digest_ok X" and cap: "l + FRAME_OVERHEAD_BYTES \<le> capacity" "capacity \<le> u64_max"
    and mb: "metadata_ok X (fst mb)" "length (snd mb) \<le> l"
  shows "\<exists>S. spool_reachable X l S \<and> sp_data (sys_spool S) = frame_of X mb \<and>
    sp_checkpoint_file (sys_spool S) = checkpoint_encode X 0 \<and> sys_synced S = 0 \<and>
    sys_acked S = [] \<and> sys_retired S = []"
proof -
  have lim: "l + FRAME_OVERHEAD_BYTES \<le> u64_max" using cap by simp
  let ?r = "\<lparr>res_body_limit = l, res_reserved_bytes = l + FRAME_OVERHEAD_BYTES\<rparr>"
  let ?s = "(fresh_spool X capacity)\<lparr>sp_reserved_bytes := l + FRAME_OVERHEAD_BYTES\<rparr>"
  let ?S = "(spool_start 0 (fresh_spool X capacity))\<lparr>sys_spool := ?s, sys_active := [?r]\<rparr>"
  have reserved: "spool_reachable X l ?S"
    using run_reserve [OF fresh_reachable [OF dig lim cap(2)]] cap by (simp add: spool_start_def)
  have chk: "append_checks ?r (snd mb) ?s = Inr ()" using mb(2) lim by (simp add: append_checks_Inr)
  have "prepared_frame_new X (fst mb) (snd mb) =
     Inr \<lparr>pf_header = header_of X (fst mb) (snd mb), pf_footer = footer_of X (fst mb) (snd mb),
          pf_body_bytes = length (snd mb), pf_body_digest = blake3 X (snd mb),
          pf_stored_bytes = length (snd mb) + FRAME_OVERHEAD_BYTES\<rparr>"
    using dig mb(2) lim by (intro prepared_frame_new_ok) simp_all
  then have "write_frame X (fst mb) (snd mb) SynchronizeFails ?s =
      (Inl (io_error ''synchronize''), mark_failed (?s\<lparr>sp_data := frame_of X mb\<rparr>))"
    by (simp add: write_frame_def ensure_writable_def Let_def frame_bytes_def)
  then have "spool_step X l ?S (?S\<lparr>sys_spool := mark_failed (mark_failed (?s\<lparr>sp_data := frame_of X mb\<rparr>))\<rparr>)"
    using chk mb(1) by (intro spool_step.Write_Fails [where r = ?r and m = "fst mb" and body = "snd mb"]) simp_all
  from reachable_step [OF reserved this] show ?thesis
    by (intro exI conjI) (assumption | simp add: spool_start_def mark_failed_def fresh_spool_def from_recovered_def)+
qed

lemma unsynced_checkpointed_reachable:
  assumes dig: "digest_ok X" and cap: "l + FRAME_OVERHEAD_BYTES \<le> capacity" "capacity \<le> u64_max"
    and mb: "metadata_ok X (fst mb)" "length (snd mb) \<le> l"
  shows "spool_reachable X l (unsynced_checkpointed X capacity mb)"
proof -
  have lim: "l + FRAME_OVERHEAD_BYTES \<le> u64_max" using cap by simp
  have ok: "batch_ok X l mb" using dig mb lim by (auto simp: batch_ok_def)
  have len: "length (frame_of X mb) \<le> u64_max"
    using length_frame_bytes [of X l "fst mb" "snd mb"] ok mb(2) lim by simp
  obtain S where S: "spool_reachable X l S" "sp_data (sys_spool S) = frame_of X mb"
    "sp_checkpoint_file (sys_spool S) = checkpoint_encode X 0" "sys_synced S = 0"
    "sys_acked S = []" "sys_retired S = []"
    using run_sync_fails [OF assms] by blast
  let ?s = "from_recovered X (frame_of X mb) capacity (length (frame_of X mb)) 0"
  obtain report where "recover_files X (Some (checkpoint_encode X 0)) (Some (frame_of X mb)) capacity l =
      Inr (report, frame_of X mb)" "report_checkpoint report = 0"
    "report_committed_bytes report = length (frame_of X mb)" "report_discarded_tail_bytes report = 0"
    using recover_whole_spool [OF dig, of l "[]" "[mb]" capacity] ok len lim by simp
  then have "spool_open X (Some (sp_data (sys_spool S))) (Some (sp_checkpoint_file (sys_spool S))) capacity l =
      Inr (?s, recovered_reader report l, report)"
    "synced_by_recovery report ?s 0 = 0"
    by (simp_all add: S spool_open_def inspect_spool_files_def synced_by_recovery_def)
  from reachable_step [OF S(1) spool_step.Restart [OF this(1) cap(2)]] this(2)
  have opened: "spool_reachable X l (spool_start 0 ?s)" by (simp add: S spool_start_def)
  have at: "frame_at X l (sp_data ?s) \<lparr>range_start = 0, range_end = length (frame_of X mb)\<rparr>"
    unfolding frame_at_def using ok by (intro exI [of _ mb]) (simp add: from_recovered_def)
  have "advance_checkpoint X \<lparr>plan_current = 0, plan_target = length (frame_of X mb)\<rparr> None ?s =
      (Inr (length (frame_of X mb)), ?s\<lparr>sp_checkpoint_file := checkpoint_encode X (length (frame_of X mb)),
         sp_checkpoint := length (frame_of X mb)\<rparr>)"
    by (simp add: advance_checkpoint_def ensure_writable_def checkpoint_store_def from_recovered_def)
  from reachable_step [OF opened spool_step.Advance [OF unsynced_plan [OF frame_of_nonempty [OF ok]]]] this at
  show ?thesis
    by (simp add: unsynced_checkpointed_def spool_start_def published_batch_def from_recovered_def)
qed

end
