(* ===== verification/Spool_Properties.thy ===== *)
theory Spool_Properties
  imports Spool_Runs
begin

text \<open>
  The properties of the durable spool: its file formats, its recovery, its concurrent operation
  and its checkpoint. The witnesses use a concrete environment, in which the version and the
  variant are read from the bits that RFC 9562 gives them and the digest is the 256-bit value of
  the bytes.
\<close>

definition demo_env :: spool_env where
  "demo_env =
     \<lparr>get_version = (\<lambda>u. if drop_bit 76 u AND 15 = 7 then Some VSortRand else None),
      get_variant = (\<lambda>u. if drop_bit 62 u AND 3 = 2 then RFC4122 else NCS),
      blake3 = (\<lambda>bs. be_bytes 32 (be_nat bs)),
      timestamp_millis_in_range =
        (\<lambda>t. -8334601228800000 \<le> t \<and> t \<le> 8210266876799999)\<rparr>"

definition demo_uuid :: "uuid \<Rightarrow> uuid" where
  "demo_uuid n = 0x018f2b4e7c0070008000000000000000 + n"

definition demo_metadata :: "uuid \<Rightarrow> batch_metadata" where
  "demo_metadata n =
     \<lparr>batch_id = demo_uuid n,
      catalog = \<lparr>pin_source_id = demo_uuid 1, pin_input_id = demo_uuid 2,
        pin_profile_revision_id = demo_uuid 3, pin_target_schema_id = demo_uuid 4\<rparr>,
      ingestion_time = 1700000000000\<rparr>"

definition demo_first :: "batch_metadata \<times> bytes" where
  "demo_first = (demo_metadata 8, [1, 2, 3])"

definition demo_second :: "batch_metadata \<times> bytes" where
  "demo_second = (demo_metadata 9, [4])"

lemma demo_digest_ok: "digest_ok demo_env"
  by (simp add: digest_ok_def demo_env_def)

lemma demo_metadata_ok:
  "metadata_ok demo_env (fst demo_first)" "metadata_ok demo_env (fst demo_second)"
  by (simp_all add: metadata_ok_def is_uuid_v7_def uuid_v7_new_def demo_env_def demo_uuid_def
      demo_metadata_def demo_first_def demo_second_def in_i64_def)

lemma demo_batch_ok:
  "batch_ok demo_env 1000 demo_first" "batch_ok demo_env 1000 demo_second"
  using demo_digest_ok demo_metadata_ok
  by (simp_all add: batch_ok_def demo_first_def demo_second_def frame_constants u64_max_def)


lemma demo_two_written: "spool_reachable demo_env 1000 (two_written demo_env 1000 4000 demo_first demo_second)"
  by (intro two_written_reachable demo_digest_ok demo_metadata_ok)
    (simp_all add: demo_first_def demo_second_def frame_constants u64_max_def)

lemma demo_lengths:
  "length (snd demo_first) = 3" "length (snd demo_second) = 1"
  "length (frame_of demo_env demo_first) = 199" "length (frame_of demo_env demo_second) = 197"
  using length_frame_bytes [of demo_env 1000 "fst demo_first" "snd demo_first"]
    length_frame_bytes [of demo_env 1000 "fst demo_second" "snd demo_second"] demo_batch_ok
  by (simp_all add: demo_first_def demo_second_def frame_constants)

section \<open>Crash safety\<close>

text \<open>
  C22. No acknowledged batch is lost before it is processed. Take any reachable state of the
  concurrent spool, over any number of restarts, and stop there; of the bytes that are not known
  to be on disk any number may be missing. If the checkpoint lies within what is left of the data
  file, which it does when only the process stopped, recovery succeeds, and reading the recovered
  spool returns, without an error, batches among which is every acknowledged append that the
  checkpoint does not cover, with its metadata, its body, its digest and the range its caller was
  told. If the checkpoint lies behind what is left, recovery reports corruption, and every
  acknowledged append is covered by the checkpoint.
\<close>

theorem acknowledged_batches_survive_crash:
  fixes capacity :: nat
  assumes "spool_reachable X l S" "sys_synced S \<le> k" "l + FRAME_OVERHEAD_BYTES \<le> u64_max"
  defines "recovery \<equiv> recover_files X (Some (sp_checkpoint_file (sys_spool S)))
    (Some (take k (sp_data (sys_spool S)))) capacity l"
  shows "\<exists>cp. sp_checkpoint_file (sys_spool S) = checkpoint_encode X cp \<and>
    cp \<le> length (sp_data (sys_spool S)) \<and>
    (if cp \<le> k
     then \<exists>report log batches. recovery = Inr (report, log) \<and> report_checkpoint report = cp \<and>
       report_pending_batches report = length batches \<and>
       next_batches X log extent (length batches) (recovered_reader report l) =
         (map (\<lambda>b. Inr (Some b)) batches,
          (recovered_reader report l)\<lparr>rd_position := report_committed_bytes report\<rparr>) \<and>
       (\<forall>w \<in> set (sys_acked S). cp < range_end (in_range w) \<longrightarrow> recovered_batch_of X w \<in> set batches)
     else recovery = Inl (corrupt ''spool checkpoint is not a committed frame boundary'') \<and>
       (\<forall>w \<in> set (sys_acked S). range_end (in_range w) \<le> cp))"
proof -
  note inv = reachable_cases [OF assms(1)]
  obtain bs tail cp where crash: "list_all (batch_ok X l) bs"
    "take k (sp_data (sys_spool S)) = concat (map (frame_of X) bs) @ tail"
    "length (concat (map (frame_of X) bs)) \<le> u64_max"
    "torn_tail X l (length (concat (map (frame_of X) bs))) tail"
    "sp_checkpoint_file (sys_spool S) = checkpoint_encode X cp"
    "cp \<le> length (sp_data (sys_spool S))" "cp \<le> u64_max" "cp \<le> k \<longrightarrow> log_boundary X bs cp"
    "\<forall>w \<in> in_log S. placed X bs w \<and> range_end (in_range w) \<le> sys_synced S"
    by (rule crash_log [OF inv(3) assms(2)])
  note recovery = recovery_def [unfolded crash(2,5)]
  show ?thesis
  proof (cases "cp \<le> k")
    case True
    with crash(8) have "log_boundary X bs cp" by simp
    from inv(1) crash(1,3,4) assms(3) this obtain report log batches where
      "recover_files X (Some (checkpoint_encode X cp)) (Some (concat (map (frame_of X) bs) @ tail)) capacity l =
         Inr (report, log)"
      "report_checkpoint report = cp" "report_pending_batches report = length batches"
      "next_batches X log extent (length batches) (recovered_reader report l) =
         (map (\<lambda>b. Inr (Some b)) batches,
          (recovered_reader report l)\<lparr>rd_position := report_committed_bytes report\<rparr>)"
      "\<forall>w. placed X bs w \<longrightarrow> cp < range_end (in_range w) \<longrightarrow> recovered_batch_of X w \<in> set batches"
      by (rule crash_recovery)
    with True crash(5,6,9) show ?thesis
      unfolding recovery by (intro exI [of _ cp]) (auto simp: in_log_def)
  next
    case False
    moreover have "length (concat (map (frame_of X) bs) @ tail) \<le> k"
      using arg_cong [OF crash(2), of length] by simp
    ultimately have "recovery = Inl (corrupt ''spool checkpoint is not a committed frame boundary'')"
      unfolding recovery using inv(1) crash(1,3,4,7) by (intro recover_beyond_end) simp_all
    moreover have "\<forall>w \<in> set (sys_acked S). range_end (in_range w) \<le> cp"
      using crash(9) assms(2) False unfolding in_log_def by force
    ultimately show ?thesis using False crash(5,6) by (intro exI [of _ cp]) simp
  qed
qed

theorem acknowledged_batches_survive_crash_witness:
  "let S = extents_swapped demo_env 1000 4000 demo_first demo_second;
       recovery = recover_files demo_env (Some (sp_checkpoint_file (sys_spool S)))
         (Some (take 396 (sp_data (sys_spool S)))) 4000 1000 in
   length (sys_acked S) = 2 \<and>
   (\<exists>cp. sp_checkpoint_file (sys_spool S) = checkpoint_encode demo_env cp \<and>
      cp \<le> length (sp_data (sys_spool S)) \<and>
      (if cp \<le> 396
       then \<exists>report log batches. recovery = Inr (report, log) \<and> report_checkpoint report = cp \<and>
         report_pending_batches report = length batches \<and>
         next_batches demo_env log (sp_extent (sys_spool S)) (length batches) (recovered_reader report 1000) =
           (map (\<lambda>b. Inr (Some b)) batches,
            (recovered_reader report 1000)\<lparr>rd_position := report_committed_bytes report\<rparr>) \<and>
         (\<forall>w \<in> set (sys_acked S). cp < range_end (in_range w) \<longrightarrow>
            recovered_batch_of demo_env w \<in> set batches)
       else recovery = Inl (corrupt ''spool checkpoint is not a committed frame boundary'') \<and>
         (\<forall>w \<in> set (sys_acked S). range_end (in_range w) \<le> cp)))"
  unfolding Let_def
  by (intro conjI acknowledged_batches_survive_crash extents_swapped_reachable demo_two_written)
    (simp_all add: extents_swapped_def two_written_def Let_def demo_lengths u64_max_def frame_constants)

text \<open>
  C23. Recovery is exact. A data file of complete frames and the first bytes of one more is
  recovered to exactly those frames: the report counts the batches, the pending batches behind
  the checkpoint, the committed bytes and the discarded bytes, and the file is truncated to the
  committed frames.
\<close>

theorem recovery_is_exact:
  assumes "list_all (batch_ok X l) (seen @ rest)" "batch_ok X l torn"
    and "k < length (frame_bytes X (fst torn) (snd torn))"
    and "length (concat (map (\<lambda>b. frame_bytes X (fst b) (snd b)) (seen @ rest @ [torn]))) \<le> u64_max"
    and "l + FRAME_OVERHEAD_BYTES \<le> u64_max"
  defines "log \<equiv> concat (map (\<lambda>b. frame_bytes X (fst b) (snd b)) (seen @ rest))"
    and "cp \<equiv> length (concat (map (\<lambda>b. frame_bytes X (fst b) (snd b)) seen))"
  shows "recover_files X (Some (checkpoint_encode X cp))
      (Some (log @ take k (frame_bytes X (fst torn) (snd torn)))) capacity l =
    Inr (\<lparr>report_checkpoint = cp, report_committed_batches = length (seen @ rest),
          report_pending_batches = length rest, report_committed_bytes = length log,
          report_discarded_tail_bytes = k,
          report_maximum_batch_admission =
            (if l + FRAME_OVERHEAD_BYTES \<le> capacity - length log then Available
             else CapacityIsExhausted)\<rparr>, log)"
  unfolding log_def cp_def using assms(1-5) by (intro recover_torn_spool) simp_all

theorem recovery_is_exact_witness:
  "recover_files demo_env (Some (checkpoint_encode demo_env 199))
     (Some ((frame_of demo_env demo_first @ frame_of demo_env demo_second) @
        take 100 (frame_of demo_env demo_first))) 1500 1000 =
   Inr (\<lparr>report_checkpoint = 199, report_committed_batches = 2, report_pending_batches = 1,
         report_committed_bytes = 396, report_discarded_tail_bytes = 100,
         report_maximum_batch_admission = CapacityIsExhausted\<rparr>,
        frame_of demo_env demo_first @ frame_of demo_env demo_second)"
  using recovery_is_exact [of demo_env 1000 "[demo_first]" "[demo_second]" demo_first 100 1500]
  by (simp add: demo_batch_ok demo_lengths frame_constants u64_max_def)

text \<open>
  C24. Recovery accepts nothing else. When recovery succeeds, the checkpoint file and the data
  file it accepted were the encoding of the reported checkpoint and a sequence of valid frames
  followed by the discarded tail, the checkpoint lies between two frames, and the file that is
  left is those frames.
\<close>

theorem recovery_accepts_only_frames:
  assumes "digest_ok X" "recover_files X checkpoint_file data_file capacity l = Inr (report, log)"
  shows "\<exists>seen rest tail. list_all (batch_ok X l) (seen @ rest) \<and>
    log = concat (map (\<lambda>b. frame_bytes X (fst b) (snd b)) (seen @ rest)) \<and>
    data_file = Some (log @ tail) \<and>
    checkpoint_file = Some (checkpoint_encode X (report_checkpoint report)) \<and>
    report_checkpoint report = length (concat (map (\<lambda>b. frame_bytes X (fst b) (snd b)) seen)) \<and>
    report_committed_batches report = length (seen @ rest) \<and>
    report_pending_batches report = length rest \<and>
    report_committed_bytes report = length log \<and> report_discarded_tail_bytes report = length tail"
  by (rule recover_files_only_frames [OF assms]) blast

theorem recovery_accepts_only_frames_witness:
  "let report = \<lparr>report_checkpoint = 0, report_committed_batches = 1, report_pending_batches = 1,
         report_committed_bytes = 199, report_discarded_tail_bytes = 1,
         report_maximum_batch_admission = Available\<rparr>; log = frame_of demo_env demo_first in
   recover_files demo_env (Some (checkpoint_encode demo_env 0)) (Some (log @ [0x45])) 4000 1000 =
     Inr (report, log) \<and>
   (\<exists>seen rest tail. list_all (batch_ok demo_env 1000) (seen @ rest) \<and>
      log = concat (map (\<lambda>b. frame_bytes demo_env (fst b) (snd b)) (seen @ rest)) \<and>
      Some (log @ [0x45]) = Some (log @ tail) \<and>
      Some (checkpoint_encode demo_env 0) =
        Some (checkpoint_encode demo_env (report_checkpoint report)) \<and>
      report_checkpoint report =
        length (concat (map (\<lambda>b. frame_bytes demo_env (fst b) (snd b)) seen)) \<and>
      report_committed_batches report = length (seen @ rest) \<and>
      report_pending_batches report = length rest \<and>
      report_committed_bytes report = length log \<and> report_discarded_tail_bytes report = length tail)"
proof -
  have "take 1 (frame_of demo_env demo_second) = [0x45]"
    using frame_bytes_eq [of demo_env 1000 "fst demo_second" "snd demo_second"] demo_batch_ok
    by (simp add: header_of_def frame_header_def FRAME_MAGIC_def byte_string_def)
  then have *: "recover_files demo_env (Some (checkpoint_encode demo_env 0))
      (Some (frame_of demo_env demo_first @ [0x45])) 4000 1000 =
    Inr (\<lparr>report_checkpoint = 0, report_committed_batches = 1, report_pending_batches = 1,
         report_committed_bytes = 199, report_discarded_tail_bytes = 1,
         report_maximum_batch_admission = Available\<rparr>, frame_of demo_env demo_first)"
    using recover_torn_spool [of demo_env 1000 "[]" "[demo_first]" demo_second 1 4000]
    by (simp add: demo_batch_ok demo_lengths frame_constants u64_max_def)
  show ?thesis unfolding Let_def
    by (rule conjI [OF * recovery_accepts_only_frames [OF demo_digest_ok *]])
qed

section \<open>Concurrent operation\<close>

text \<open>
  C25. Capacity. In every reachable state the reserved bytes are the sum of the reservations that
  are held and of those in flight; committed and reserved bytes together exceed neither the
  capacity nor, when the process was started over a longer log, the length of that log, and while
  anything is reserved they never exceed the capacity; and committing an append that was written
  never fails.
\<close>

theorem capacity_is_never_exceeded:
  assumes "spool_reachable X l S"
  defines "s \<equiv> sys_spool S"
  shows "sp_reserved_bytes s = sum_list (map res_reserved_bytes (sys_active S)) +
      sum_list (map in_reserved (sys_written S)) \<and>
    sp_committed_bytes s + sp_reserved_bytes s \<le> max (sp_capacity s) (sys_opened S) \<and>
    (sp_reserved_bytes s \<noteq> 0 \<longrightarrow> sp_committed_bytes s + sp_reserved_bytes s \<le> sp_capacity s) \<and>
    (\<forall>w \<in> set (sys_written S). \<exists>extent s'.
      commit_accounting (in_reserved w) (in_stored w) s = (Inr extent, s') \<and>
      sp_failed s' = sp_failed s)"
proof -
  note acc = reachable_cases(2) [OF assms(1)]
  have sum: "sp_reserved_bytes s = sum_list (map res_reserved_bytes (sys_active S)) +
      sum_list (map in_reserved (sys_written S))"
    and occupied: "sp_committed_bytes s + sp_reserved_bytes s \<le> max (sp_capacity s) (sys_opened S)"
    and room: "sp_reserved_bytes s = 0 \<or> sp_committed_bytes s + sp_reserved_bytes s \<le> sp_capacity s"
    using acc unfolding accounting_inv_def Let_def s_def by blast+
  have commits: "\<exists>extent s'. commit_accounting (in_reserved w) (in_stored w) s = (Inr extent, s') \<and>
      sp_failed s' = sp_failed s" if "w \<in> set (sys_written S)" for w
  proof -
    from that obtain before after where "sys_written S = before @ w # after" by (meson split_list)
    from commit_fits [OF acc this] show ?thesis unfolding s_def by (simp add: commit_accounting_ok)
  qed
  show ?thesis by (intro conjI ballI impI sum occupied commits) (use room in simp_all)
qed

theorem capacity_is_never_exceeded_witness:
  "let S = two_written demo_env 1000 4000 demo_first demo_second; s = sys_spool S in
   sp_reserved_bytes s = sum_list (map res_reserved_bytes (sys_active S)) +
      sum_list (map in_reserved (sys_written S)) \<and>
   sp_committed_bytes s + sp_reserved_bytes s \<le> max (sp_capacity s) (sys_opened S) \<and>
   (sp_reserved_bytes s \<noteq> 0 \<longrightarrow> sp_committed_bytes s + sp_reserved_bytes s \<le> sp_capacity s) \<and>
   (\<forall>w \<in> set (sys_written S). \<exists>extent s'.
      commit_accounting (in_reserved w) (in_stored w) s = (Inr extent, s') \<and>
      sp_failed s' = sp_failed s)"
  unfolding Let_def using capacity_is_never_exceeded [OF demo_two_written] by blast

text \<open>
  C26. An admitted append succeeds. A caller that holds a reservation and sends a body within its
  limit gets a durable append when no I/O operation fails: the frame is appended to the file, its
  range is what the caller is told, and exactly the reservation is turned into committed bytes.
\<close>

theorem admitted_append_succeeds:
  assumes "spool_reachable X l S" "r \<in> set (sys_active S)" "\<not> sp_failed (sys_spool S)"
    and "metadata_ok X m" "length body \<le> res_body_limit r"
  shows "\<exists>s. append_batch X r m body NoFault (sys_spool S) =
    (Inr \<lparr>da_metadata = m, da_body_bytes = length body, da_body_digest = blake3 X body,
          da_range = \<lparr>range_start = length (sp_data (sys_spool S)),
            range_end = length (sp_data (sys_spool S)) + (length body + FRAME_OVERHEAD_BYTES)\<rparr>\<rparr>, s) \<and>
    sp_data s = sp_data (sys_spool S) @ frame_bytes X m body \<and> \<not> sp_failed s \<and>
    sp_committed_bytes s = sp_committed_bytes (sys_spool S) + (length body + FRAME_OVERHEAD_BYTES) \<and>
    sp_reserved_bytes s = sp_reserved_bytes (sys_spool S) - res_reserved_bytes r \<and>
    sp_extent s = \<lparr>extent_generation = sp_generation (sys_spool S), extent_end = sp_committed_bytes s\<rparr>"
  using assms by (rule append_succeeds)


definition demo_reservation :: spool_reservation where
  "demo_reservation = \<lparr>res_body_limit = 1000, res_reserved_bytes = 1196\<rparr>"

definition demo_reserved :: spool_system where
  "demo_reserved = (spool_start 0 (fresh_spool demo_env 4000))
     \<lparr>sys_spool := (fresh_spool demo_env 4000)\<lparr>sp_reserved_bytes := 1196\<rparr>,
      sys_active := [demo_reservation]\<rparr>"

lemma demo_reserved_reachable: "spool_reachable demo_env 1000 demo_reserved"
  using run_reserve [OF fresh_reachable [OF demo_digest_ok, of 1000 4000]]
  by (simp add: demo_reserved_def demo_reservation_def spool_start_def frame_constants u64_max_def)

theorem admitted_append_succeeds_witness:
  "\<exists>s. append_batch demo_env demo_reservation (demo_metadata 8) [1, 2, 3] NoFault
     (sys_spool demo_reserved) =
    (Inr \<lparr>da_metadata = demo_metadata 8, da_body_bytes = 3, da_body_digest = blake3 demo_env [1, 2, 3],
          da_range = \<lparr>range_start = 0, range_end = 199\<rparr>\<rparr>, s) \<and>
    sp_data s = frame_bytes demo_env (demo_metadata 8) [1, 2, 3] \<and> \<not> sp_failed s \<and>
    sp_committed_bytes s = 199 \<and> sp_reserved_bytes s = 0 \<and>
    sp_extent s = \<lparr>extent_generation = 0, extent_end = 199\<rparr>"
  using admitted_append_succeeds [OF demo_reserved_reachable, of demo_reservation "demo_metadata 8"
      "[1, 2, 3]"] demo_metadata_ok
  by (auto simp: demo_reserved_def demo_reservation_def demo_first_def frame_constants)

text \<open>
  C27. What is appended is read. When no other append is between its write and its commit, a
  reader that follows the spool and has read everything before gets exactly the new batch.
\<close>

theorem append_then_read:
  assumes "spool_reachable X l S" "r \<in> set (sys_active S)" "sys_written S = []"
    and "metadata_ok X m" "length body \<le> res_body_limit r" "l + FRAME_OVERHEAD_BYTES \<le> u64_max"
    and "append_batch X r m body NoFault (sys_spool S) = (Inr appended, s)"
    and "rd_state reader = Following" "rd_generation reader = sp_generation (sys_spool S)"
    and "rd_position reader = length (sp_data (sys_spool S))" "rd_body_limit reader = l"
  shows "next_batch X (sp_data s) (sp_extent s) reader =
    (Inr (Some \<lparr>rb_metadata = m, rb_body = body, rb_body_digest = da_body_digest appended,
                rb_range = da_range appended\<rparr>),
     reader\<lparr>rd_position := range_end (da_range appended)\<rparr>)"
proof -
  note inv = reachable_cases [OF assms(1)]
  have chk: "append_checks r body (sys_spool S) = Inr ()"
    using assms(7) by (auto simp: append_batch_def split: sum.splits)
  then have nf: "\<not> sp_failed (sys_spool S)" by (simp add: append_checks_Inr)
  have data: "length (sp_data (sys_spool S)) = sp_committed_bytes (sys_spool S)"
    using inv(3) nf assms(3) unfolding log_inv_def written_bytes_def by auto
  obtain s' where app: "append_batch X r m body NoFault (sys_spool S) =
    (Inr \<lparr>da_metadata = m, da_body_bytes = length body, da_body_digest = blake3 X body,
          da_range = \<lparr>range_start = length (sp_data (sys_spool S)),
            range_end = length (sp_data (sys_spool S)) + (length body + FRAME_OVERHEAD_BYTES)\<rparr>\<rparr>, s')"
    "sp_data s' = sp_data (sys_spool S) @ frame_bytes X m body"
    "sp_committed_bytes s' = sp_committed_bytes (sys_spool S) + (length body + FRAME_OVERHEAD_BYTES)"
    "sp_extent s' = \<lparr>extent_generation = sp_generation (sys_spool S), extent_end = sp_committed_bytes s'\<rparr>"
    using append_succeeds [OF assms(1,2) nf assms(4,5)] by blast
  note fits = write_fits [OF inv(2,3) assms(2) chk assms(4) inv(1)]
  note len = length_frame_bytes [OF fits(1)]
  have "next_batch X (sp_data (sys_spool S) @ frame_of X (m, body) @ []) (sp_extent s') reader =
      (Inr (Some (hd (recovered_of X (length (sp_data (sys_spool S))) [(m, body)]))),
       reader\<lparr>rd_position := length (sp_data (sys_spool S) @ frame_of X (m, body))\<rparr>)"
    using assms(8-11) app(3,4) data fits len
    by (subst next_batch_live, simp add: reader_live_def, simp add: reader_end_def)
      (rule next_batch_read_frame, simp_all add: reader_end_def)
  moreover have "s = s'" "appended = \<lparr>da_metadata = m, da_body_bytes = length body,
      da_body_digest = blake3 X body,
          da_range = \<lparr>range_start = length (sp_data (sys_spool S)),
            range_end = length (sp_data (sys_spool S)) + (length body + FRAME_OVERHEAD_BYTES)\<rparr>\<rparr>"
    using assms(7) app(1) by simp_all
  ultimately show ?thesis using app(2) len by simp
qed

theorem append_then_read_witness:
  "\<exists>appended s. append_batch demo_env demo_reservation (demo_metadata 8) [1, 2, 3] NoFault
       (sys_spool demo_reserved) = (Inr appended, s) \<and>
     next_batch demo_env (sp_data s) (sp_extent s)
       \<lparr>rd_position = 0, rd_recovered_end = 0, rd_generation = 0, rd_body_limit = 1000,
        rd_state = Following\<rparr> =
     (Inr (Some \<lparr>rb_metadata = demo_metadata 8, rb_body = [1, 2, 3],
        rb_body_digest = da_body_digest appended, rb_range = da_range appended\<rparr>),
      \<lparr>rd_position = range_end (da_range appended), rd_recovered_end = 0, rd_generation = 0,
       rd_body_limit = 1000, rd_state = Following\<rparr>)"
proof -
  let ?reader = "\<lparr>rd_position = 0, rd_recovered_end = 0, rd_generation = 0, rd_body_limit = 1000,
        rd_state = Following\<rparr>"
  obtain appended s where app: "append_batch demo_env demo_reservation (demo_metadata 8) [1, 2, 3] NoFault
       (sys_spool demo_reserved) = (Inr appended, s)"
    using append_succeeds [OF demo_reserved_reachable, of demo_reservation "demo_metadata 8" "[1, 2, 3]"]
      demo_metadata_ok by (auto simp: demo_reserved_def demo_reservation_def demo_first_def)
  have "next_batch demo_env (sp_data s) (sp_extent s) ?reader =
     (Inr (Some \<lparr>rb_metadata = demo_metadata 8, rb_body = [1, 2, 3],
        rb_body_digest = da_body_digest appended, rb_range = da_range appended\<rparr>),
      ?reader\<lparr>rd_position := range_end (da_range appended)\<rparr>)"
    using demo_metadata_ok
    by (intro append_then_read [OF demo_reserved_reachable _ _ _ _ _ app])
      (simp_all add: demo_reserved_def demo_reservation_def demo_first_def spool_start_def
        frame_constants u64_max_def)
  with app show ?thesis by simp
qed


text \<open>
  C28. Reclamation forgets nothing unfinished. When the data file is truncated, no append is
  between its write and its commit, and every append that was acknowledged or is about to be
  lies behind the checkpoint; the checkpoint file is reset.
\<close>

theorem reclaim_drops_only_checkpointed:
  assumes "spool_reachable X l S" "reclaim_locked X store_fault fault (sys_spool S) = (result, s)"
    and "sp_data s \<noteq> sp_data (sys_spool S)"
  shows "sp_data s = [] \<and> sp_checkpoint_file s = checkpoint_encode X 0 \<and> sys_written S = [] \<and>
    sp_checkpoint (sys_spool S) = length (sp_data (sys_spool S)) \<and>
    (\<forall>w \<in> set (sys_acked S) \<union> set (publishing_batches S).
       range_end (in_range w) \<le> sp_checkpoint (sys_spool S))"
proof -
  note inv = reachable_cases [OF assms(1)]
  from assms(2) show ?thesis
  proof (cases rule: reclaim_locked_cases)
    case truncated
    note idle = log_inv_idle [OF inv(2,3) truncated(1,2,3)]
    show ?thesis
      using truncated(5,6) idle idle_written [OF inv(2) truncated(2)] by (auto simp: in_log_def)
  qed (use assms(3) in auto)
qed

definition demo_requirements :: "batch_output_requirements list" where
  "demo_requirements =
     [\<lparr>req_batch_id = demo_uuid 8, req_spool_range = \<lparr>range_start = 0, range_end = 199\<rparr>,
       req_positions = [0, 1]\<rparr>,
      \<lparr>req_batch_id = demo_uuid 9, req_spool_range = \<lparr>range_start = 199, range_end = 396\<rparr>,
       req_positions = [0]\<rparr>]"

definition demo_output :: "unit output_recovery_record" where
  "demo_output = \<lparr>or_id = demo_uuid 20, or_revision = 1, or_output = (),
     or_coverage =
       [\<lparr>cov_batch_id = demo_uuid 8, cov_spool_range = \<lparr>range_start = 0, range_end = 199\<rparr>,
         cov_positions = [0, 1]\<rparr>,
        \<lparr>cov_batch_id = demo_uuid 9, cov_spool_range = \<lparr>range_start = 199, range_end = 396\<rparr>,
         cov_positions = [0]\<rparr>]\<rparr>"

lemma demo_plan:
  "plan_checkpoint 0 demo_requirements [demo_output] =
   Inr (Some \<lparr>plan_current = 0, plan_target = 396\<rparr>)"
  by (simp add: plan_checkpoint_def demo_requirements_def demo_output_def required_entries_def
      coverage_entries_def fully_covered_def Let_def demo_uuid_def)

definition demo_checkpointed :: spool_system where
  "demo_checkpointed =
     (let S = extents_swapped demo_env 1000 4000 demo_first demo_second
      in S\<lparr>sys_spool := (sys_spool S)\<lparr>sp_checkpoint_file := checkpoint_encode demo_env 396,
             sp_checkpoint := 396\<rparr>\<rparr>)"

lemma demo_swapped_simps:
  "sp_data (sys_spool (extents_swapped demo_env 1000 4000 demo_first demo_second)) =
     frame_of demo_env demo_first @ frame_of demo_env demo_second"
  "sp_checkpoint (sys_spool (extents_swapped demo_env 1000 4000 demo_first demo_second)) = 0"
  "sp_committed_bytes (sys_spool (extents_swapped demo_env 1000 4000 demo_first demo_second)) = 396"
  "sp_reserved_bytes (sys_spool (extents_swapped demo_env 1000 4000 demo_first demo_second)) = 0"
  "sp_generation (sys_spool (extents_swapped demo_env 1000 4000 demo_first demo_second)) = 0"
  "\<not> sp_failed (sys_spool (extents_swapped demo_env 1000 4000 demo_first demo_second))"
  by (simp_all add: extents_swapped_def two_written_def Let_def in_stored_def demo_lengths frame_constants)

lemma demo_checkpointed_reachable: "spool_reachable demo_env 1000 demo_checkpointed"
proof -
  let ?S = "extents_swapped demo_env 1000 4000 demo_first demo_second"
  have "frame_at demo_env 1000 (sp_data (sys_spool ?S)) \<lparr>range_start = 0, range_end = 199\<rparr>"
    unfolding frame_at_def by (rule exI [of _ demo_first]) (simp add: demo_swapped_simps demo_batch_ok demo_lengths)
  moreover have "frame_at demo_env 1000 (sp_data (sys_spool ?S)) \<lparr>range_start = 199, range_end = 396\<rparr>"
    unfolding frame_at_def by (rule exI [of _ demo_second]) (simp add: demo_swapped_simps demo_batch_ok demo_lengths)
  ultimately have "list_all (\<lambda>b. frame_at demo_env 1000 (sp_data (sys_spool ?S)) (req_spool_range b))
      demo_requirements" by (simp add: demo_requirements_def)
  moreover have "advance_checkpoint demo_env \<lparr>plan_current = 0, plan_target = 396\<rparr> None (sys_spool ?S) =
      (Inr 396, (sys_spool ?S)\<lparr>sp_checkpoint_file := checkpoint_encode demo_env 396, sp_checkpoint := 396\<rparr>)"
    by (simp add: advance_checkpoint_def ensure_writable_def checkpoint_store_def demo_swapped_simps)
  ultimately show ?thesis
    using reachable_step [OF extents_swapped_reachable [OF demo_two_written] spool_step.Advance [OF demo_plan]]
    by (simp add: demo_checkpointed_def Let_def)
qed

theorem reclaim_drops_only_checkpointed_witness:
  "\<exists>s. reclaim_locked demo_env None NoTruncateFault (sys_spool demo_checkpointed) =
      (Inr (Reclaimed 396, Some \<lparr>extent_generation = 1, extent_end = 0\<rparr>), s) \<and>
    sp_data s = [] \<and> sp_checkpoint_file s = checkpoint_encode demo_env 0 \<and>
    sys_written demo_checkpointed = [] \<and>
    sp_checkpoint (sys_spool demo_checkpointed) = length (sp_data (sys_spool demo_checkpointed)) \<and>
    (\<forall>w \<in> set (sys_acked demo_checkpointed) \<union> set (publishing_batches demo_checkpointed).
       range_end (in_range w) \<le> sp_checkpoint (sys_spool demo_checkpointed))"
proof -
  let ?s = "snd (reclaim_locked demo_env None NoTruncateFault (sys_spool demo_checkpointed))"
  have run: "reclaim_locked demo_env None NoTruncateFault (sys_spool demo_checkpointed) =
      (Inr (Reclaimed 396, Some \<lparr>extent_generation = 1, extent_end = 0\<rparr>), ?s)" "sp_data ?s = []"
    by (simp_all add: demo_checkpointed_def Let_def reclaim_locked_def ensure_writable_def
        checkpoint_store_def demo_swapped_simps checked_add_def u64_max_def)
  have "length (sp_data (sys_spool demo_checkpointed)) = 396"
    by (simp add: demo_checkpointed_def Let_def demo_swapped_simps demo_lengths)
  then have "sp_data ?s \<noteq> sp_data (sys_spool demo_checkpointed)" using run(2) by auto
  from reclaim_drops_only_checkpointed [OF demo_checkpointed_reachable run(1) this] run(1)
  show ?thesis by blast
qed

section \<open>The checkpoint plan\<close>

text \<open>
  C29. A checkpoint plan is sound and maximal. The batches a plan passes are the first ones, they
  follow one another without a gap from the current checkpoint to the target, every occurrence of
  each of them is covered by a published output for that very range, no occurrence of a planned
  batch is covered twice, and the batch after the target is the first with an occurrence that is
  not published.
\<close>

theorem checkpoint_plan_is_sound:
  assumes "plan_checkpoint current batches outputs = Inr plan"
  defines "target \<equiv> case plan of None \<Rightarrow> current | Some p \<Rightarrow> plan_target p"
  shows "(\<exists>ready rest. batches = ready @ rest \<and> contiguous current ready target \<and>
      list_all (published outputs) ready \<and> (rest = [] \<or> \<not> published outputs (hd rest))) \<and>
    distinct (map fst (known_entries (set (map req_batch_id batches)) (coverage_entries outputs)))"
proof (intro conjI)
  show "\<exists>ready rest. batches = ready @ rest \<and> contiguous current ready target \<and>
      list_all (published outputs) ready \<and> (rest = [] \<or> \<not> published outputs (hd rest))"
    unfolding target_def by (rule plan_checkpoint_ready [OF assms(1)])
  show "distinct (map fst (known_entries (set (map req_batch_id batches)) (coverage_entries outputs)))"
    by (rule plan_checkpoint_cases [OF assms(1)]) (drule cover_occurrences_spec, blast)
qed

theorem checkpoint_plan_is_sound_witness:
  "plan_checkpoint 0 demo_requirements [demo_output] =
     Inr (Some \<lparr>plan_current = 0, plan_target = 396\<rparr>) \<and>
   (\<exists>ready rest. demo_requirements = ready @ rest \<and> contiguous 0 ready 396 \<and>
      list_all (published [demo_output]) ready \<and> (rest = [] \<or> \<not> published [demo_output] (hd rest))) \<and>
   distinct (map fst (known_entries (set (map req_batch_id demo_requirements))
     (coverage_entries [demo_output])))"
  using checkpoint_plan_is_sound [OF demo_plan] demo_plan by simp

section \<open>Interleavings that the reader does not survive\<close>

text \<open>
  C30. Two concurrent appends can stop the live reader. The first frame is written before the
  second, and the second append commits first: the published extent is the length of the second
  frame, which ends inside the longer first frame. The caller of the second append has its
  acknowledgement, nothing has failed, and a reader that follows the spool from its start reports
  corruption and stays failed.
\<close>

theorem out_of_order_commit_fails_reader:
  assumes "digest_ok X" "2 * (l + FRAME_OVERHEAD_BYTES) \<le> capacity" "capacity \<le> u64_max"
    and "metadata_ok X (fst a)" "length (snd a) \<le> l" "metadata_ok X (fst b)"
    and "length (snd b) < length (snd a)"
  defines "S \<equiv> second_acked X l capacity a b"
    and "reader \<equiv> \<lparr>rd_position = 0, rd_recovered_end = 0, rd_generation = 0, rd_body_limit = l,
       rd_state = Following\<rparr>"
  shows "spool_reachable X l S \<and> \<not> sp_failed (sys_spool S) \<and> map in_batch (sys_acked S) = [b] \<and>
    next_batch X (sp_data (sys_spool S)) (sp_extent (sys_spool S)) reader =
      (Inl (corrupt ''recovered spool frame exceeds its committed range''),
       reader\<lparr>rd_state := Failed\<rparr>)"
proof -
  have "batch_ok X l (fst a, snd a)" "batch_ok X l (fst b, snd b)"
    using assms(1-7) by (auto simp: batch_ok_def)
  note ok = this
  have "spool_reachable X l S"
    unfolding S_def using assms(1-7) by (intro second_acked_reachable two_written_reachable) auto
  moreover have S: "sp_data (sys_spool S) = frame_bytes X (fst a) (snd a) @ frame_of X b"
    "sp_extent (sys_spool S) = \<lparr>extent_generation = 0, extent_end = length (snd b) + FRAME_OVERHEAD_BYTES\<rparr>"
    "\<not> sp_failed (sys_spool S)" "map in_batch (sys_acked S) = [b]"
    by (simp_all add: S_def second_acked_def two_written_def Let_def in_stored_def)
  moreover have "next_batch X (sp_data (sys_spool S)) (sp_extent (sys_spool S)) reader =
      (Inl (corrupt ''recovered spool frame exceeds its committed range''),
       reader\<lparr>rd_state := Failed\<rparr>)"
    unfolding S using assms(7) length_frame_bytes [OF ok(1)]
    by (intro next_batch_beyond_extent [OF ok(1)]) (simp_all add: reader_def frame_constants)
  ultimately show ?thesis by blast
qed

theorem out_of_order_commit_fails_reader_witness:
  "let S = second_acked demo_env 1000 4000 demo_first demo_second;
       reader = \<lparr>rd_position = 0, rd_recovered_end = 0, rd_generation = 0, rd_body_limit = 1000,
         rd_state = Following\<rparr>
   in spool_reachable demo_env 1000 S \<and> \<not> sp_failed (sys_spool S) \<and>
      map in_batch (sys_acked S) = [demo_second] \<and>
      next_batch demo_env (sp_data (sys_spool S)) (sp_extent (sys_spool S)) reader =
        (Inl (corrupt ''recovered spool frame exceeds its committed range''),
         reader\<lparr>rd_state := Failed\<rparr>)"
  unfolding Let_def
  by (intro out_of_order_commit_fails_reader demo_digest_ok demo_metadata_ok)
    (simp_all add: demo_lengths frame_constants u64_max_def)

text \<open>
  C31. A late publication hides an acknowledged batch. When two commits publish their extents in
  the opposite order, the spool is left idle with both appends acknowledged and an extent that
  ends after the first frame: a following reader returns the first batch and then waits, although
  the second batch is durable.
\<close>

theorem late_extent_hides_batch:
  assumes "digest_ok X" "2 * (l + FRAME_OVERHEAD_BYTES) \<le> capacity" "capacity \<le> u64_max"
    and "metadata_ok X (fst a)" "length (snd a) \<le> l" "metadata_ok X (fst b)" "length (snd b) \<le> l"
  defines "S \<equiv> extents_swapped X l capacity a b"
    and "reader \<equiv> \<lparr>rd_position = 0, rd_recovered_end = 0, rd_generation = 0, rd_body_limit = l,
       rd_state = Following\<rparr>"
  shows "spool_reachable X l S \<and> \<not> sp_failed (sys_spool S) \<and> map in_batch (sys_acked S) = [b, a] \<and>
    sys_active S = [] \<and> sys_written S = [] \<and> sys_publishing S = [] \<and>
    (\<exists>first reader'. next_batches X (sp_data (sys_spool S)) (sp_extent (sys_spool S)) 2 reader =
       ([Inr (Some first), Inr None], reader') \<and> rb_metadata first = fst a)"
proof -
  have ok: "batch_ok X l a" using assms(1-7) by (auto simp: batch_ok_def)
  have len: "length (frame_of X a) = length (snd a) + FRAME_OVERHEAD_BYTES"
    using length_frame_bytes [of X l "fst a" "snd a"] ok by simp
  have "spool_reachable X l S"
    unfolding S_def using assms(1-7) by (intro extents_swapped_reachable two_written_reachable) auto
  moreover have S: "sp_data (sys_spool S) = [] @ frame_of X a @ frame_of X b"
    "sp_extent (sys_spool S) = \<lparr>extent_generation = 0, extent_end = length (snd a) + FRAME_OVERHEAD_BYTES\<rparr>"
    "\<not> sp_failed (sys_spool S)" "map in_batch (sys_acked S) = [b, a]"
    "sys_active S = []" "sys_written S = []" "sys_publishing S = []"
    by (simp_all add: S_def extents_swapped_def two_written_def Let_def in_stored_def)
  moreover have "next_batch X (sp_data (sys_spool S)) (sp_extent (sys_spool S)) reader =
      (Inr (Some (hd (recovered_of X (length ([] :: bytes)) [a]))),
       reader\<lparr>rd_position := length ([] @ frame_of X a)\<rparr>)"
    unfolding S using ok len assms(2,3,5)
    by (subst next_batch_live, simp add: reader_live_def reader_def, simp add: reader_end_def reader_def)
      (rule next_batch_read_frame, simp_all add: reader_def reader_end_def)
  moreover have "next_batch X (sp_data (sys_spool S)) (sp_extent (sys_spool S))
       (reader\<lparr>rd_position := length ([] @ frame_of X a)\<rparr>) =
      (Inr None, reader\<lparr>rd_position := length ([] @ frame_of X a)\<rparr>)"
    using S(2) len by (simp add: next_batch_def next_batch_read_def reader_def)
  ultimately show ?thesis by (simp add: numeral_2_eq_2)
qed

theorem late_extent_hides_batch_witness:
  "let S = extents_swapped demo_env 1000 4000 demo_first demo_second;
       reader = \<lparr>rd_position = 0, rd_recovered_end = 0, rd_generation = 0, rd_body_limit = 1000,
         rd_state = Following\<rparr>
   in spool_reachable demo_env 1000 S \<and> \<not> sp_failed (sys_spool S) \<and>
      map in_batch (sys_acked S) = [demo_second, demo_first] \<and>
      sys_active S = [] \<and> sys_written S = [] \<and> sys_publishing S = [] \<and>
      (\<exists>first reader'. next_batches demo_env (sp_data (sys_spool S)) (sp_extent (sys_spool S)) 2 reader =
         ([Inr (Some first), Inr None], reader') \<and> rb_metadata first = fst demo_first)"
  unfolding Let_def
  by (intro late_extent_hides_batch demo_digest_ok demo_metadata_ok)
    (simp_all add: demo_lengths frame_constants u64_max_def)




section \<open>Formats\<close>

text \<open>
  C33. The frame header has one spelling. A 148-byte header is accepted only if it is the
  encoding of the metadata, the lengths and the digest that were decoded, with valid identities
  and time, a body within the limit and a stored length of body and overhead; and the header of
  every valid batch is accepted and decodes to that batch.
\<close>

theorem frame_header_is_canonical:
  assumes "length raw = HEADER_BYTES" "batch_ok X l (m, body)"
  shows "(\<forall>d. decode_header X raw l = Inr d \<longrightarrow>
       raw = frame_header (dh_metadata d) (dh_stored_bytes d) (dh_body_bytes d) (dh_body_digest d) \<and>
       metadata_ok X (dh_metadata d) \<and> dh_body_bytes d \<le> l \<and>
       dh_stored_bytes d = dh_body_bytes d + FRAME_OVERHEAD_BYTES) \<and>
    decode_header X (frame_header m (length body + FRAME_OVERHEAD_BYTES) (length body) (blake3 X body)) l =
      Inr \<lparr>dh_raw = frame_header m (length body + FRAME_OVERHEAD_BYTES) (length body) (blake3 X body),
           dh_metadata = m, dh_body_bytes = length body, dh_body_digest = blake3 X body,
           dh_stored_bytes = length body + FRAME_OVERHEAD_BYTES\<rparr>"
  by (intro conjI allI impI decode_header_inv(2-4,7) [OF _ assms(1)]
      decode_header_of [OF assms(2), unfolded header_of_def decoded_of_def])

theorem frame_header_is_canonical_witness:
  "let raw = header_of demo_env (demo_metadata 8) [1, 2, 3] in
   (\<forall>d. decode_header demo_env raw 1000 = Inr d \<longrightarrow>
       raw = frame_header (dh_metadata d) (dh_stored_bytes d) (dh_body_bytes d) (dh_body_digest d) \<and>
       metadata_ok demo_env (dh_metadata d) \<and> dh_body_bytes d \<le> 1000 \<and>
       dh_stored_bytes d = dh_body_bytes d + FRAME_OVERHEAD_BYTES) \<and>
   (\<exists>d. decode_header demo_env raw 1000 = Inr d \<and> dh_metadata d = demo_metadata 8)"
  using frame_header_is_canonical [OF length_header_of [OF demo_digest_ok, of "demo_metadata 8" "[1, 2, 3]"],
      of demo_env 1000 "demo_metadata 8" "[1, 2, 3]"] demo_batch_ok
  by (simp add: demo_first_def header_of_def)

interpretation checkpoint_file:
  codec "checkpoint_encode X" "\<lambda>bs. checkpoint_load X (Some bs)" "\<lambda>p. digest_ok X \<and> p \<le> u64_max"
  for X :: "'x spool_env_scheme"
  by unfold_locales (simp add: checkpoint_load_encode)

text \<open>
  C34. The checkpoint file has one spelling: the files that load are exactly the encodings of
  the 64-bit positions, so a file with a changed byte that still loads has a digest that matches
  its changed prefix.
\<close>

theorem checkpoint_file_is_canonical:
  assumes "digest_ok X"
  shows "checkpoint_load X (Some bs) = Inr p \<longleftrightarrow> p \<le> u64_max \<and> bs = checkpoint_encode X p"
  using assms checkpoint_load_inv [of X bs p] checkpoint_file.dec_enc [of X p] by auto

theorem checkpoint_file_is_canonical_witness:
  "checkpoint_load demo_env (Some (checkpoint_encode demo_env 396)) = Inr 396"
  using checkpoint_file_is_canonical [OF demo_digest_ok] by (simp add: u64_max_def)

end
