(* ===== verification/Query_Ast.thy ===== *)
theory Query_Ast
  imports Elucid_Prelude
begin

text \<open>
  The syntax tree of the query language (\<open>elucid-language/src/ast.rs\<close>, \<open>span.rs\<close>). A boxed
  expression is the expression itself; the accessors are the record selectors. The text of a
  floating-point token is kept, as in the source.
\<close>

record span =
  sp_start :: nat
  sp_end :: nat

record ast_identifier =
  id_value :: string
  id_span :: span

record system_identifier =
  sid_value :: string
  sid_span :: span

datatype field_reference = UserReference ast_identifier | SystemReference system_identifier

primrec field_reference_as_str :: "field_reference \<Rightarrow> string" where
  "field_reference_as_str (UserReference i) = id_value i"
| "field_reference_as_str (SystemReference i) = sid_value i"

primrec field_reference_span :: "field_reference \<Rightarrow> span" where
  "field_reference_span (UserReference i) = id_span i"
| "field_reference_span (SystemReference i) = sid_span i"

record string_literal =
  sl_value :: string
  sl_span :: span

datatype literal_kind =
    LitNull
  | LitBoolean bool
  | LitInteger nat
  | LitFloatingPoint string
  | LitString string

record ast_literal =
  al_kind :: literal_kind
  al_span :: span

datatype numeric_sign = NonNegative | Negative

datatype numeric_literal_kind = NumInteger nat | NumFloatingPoint string

record signed_numeric_literal =
  snl_sign :: numeric_sign
  snl_kind :: numeric_literal_kind
  snl_span :: span

record signed_integer_literal =
  sil_sign :: numeric_sign
  sil_magnitude :: nat
  sil_span :: span

datatype numeric_type = NumInt32 | NumInt64 | NumUInt32 | NumUInt64 | NumFloat32 | NumFloat64

datatype ast_logical_type =
    AstBool | AstInt32 | AstInt64 | AstUInt32 | AstUInt64 | AstFloat32 | AstFloat64
  | AstUtf8 | AstDatetime | AstEid | AstJson

datatype constructor_kind =
    NumericConstructor numeric_type signed_numeric_literal
  | DatetimeConstructor string_literal
  | EidConstructor string_literal

record ast_constructor =
  con_kind :: constructor_kind
  con_span :: span

datatype ast_cast_kind = AstStrict | AstNullOnFailure

datatype ast_remainder_function = AstValue | AstExists

record remainder_expression =
  rem_function :: ast_remainder_function
  rem_key :: string_literal
  rem_span :: span

datatype ast_unary_operator = AstNot | AstNegate

datatype ast_binary_operator =
    AstAdd | AstSubtract | AstMultiply | AstDivide
  | AstEqual | AstNotEqual | AstGreaterThan | AstGreaterThanOrEqual | AstLessThan | AstLessThanOrEqual
  | AstAnd | AstOr

text \<open>\<open>CastExpression\<close> is a struct with the expression inside, hence a type of the mutual recursion.\<close>

datatype (plugins only: size code) ast_expression =
    AstExpression (ast_kind: ast_expression_kind) (ast_span: span)
and ast_expression_kind =
    AstLiteral ast_literal
  | AstField field_reference
  | AstConstructor ast_constructor
  | AstCast cast_expression
  | AstRemainder remainder_expression
  | AstUnary ast_unary_operator ast_expression
  | AstBinary ast_binary_operator ast_expression ast_expression
and cast_expression =
    CastExpression (cast_kind: ast_cast_kind) (cast_expression: ast_expression)
      (cast_target: ast_logical_type) (cast_span: span)

datatype time_unit = Second | Minute | Hour | Day

datatype time_direction = Forward | Backward

datatype time_operation_kind = Truncate time_unit | Shift time_direction nat time_unit

record time_operation =
  to_kind :: time_operation_kind
  to_span :: span

datatype time_expression_kind =
    TimeDatetime string_literal
  | TimeNow
  | TimeRelative "time_operation list"

record time_expression =
  te_kind :: time_expression_kind
  te_span :: span

record source_expression =
  se_name :: ast_identifier
  se_start_inclusive :: "time_expression option"
  se_end_exclusive :: "time_expression option"
  se_span :: span

record computed_projection =
  cp_alias :: ast_identifier
  cp_expression :: ast_expression
  cp_span :: span

datatype ast_projection =
    ProjectField field_reference
  | ProjectComputed computed_projection
  | ProjectUnaliased ast_expression

datatype sort_direction = SortAscending | SortDescending

record sort_item =
  si_field :: field_reference
  si_direction :: sort_direction
  si_span :: span

datatype ast_aggregate_function = AstCount | AstSum | AstMin | AstMax | AstAvg

record aggregate_call =
  ac_function :: ast_aggregate_function
  ac_argument :: "field_reference option"
  ac_span :: span

record ast_measure =
  me_alias :: "ast_identifier option"
  me_aggregate :: aggregate_call
  me_span :: span

datatype ast_stage_kind =
    AstFilter ast_expression
  | AstProject "ast_projection list"
  | AstSort "sort_item list"
  | AstTake signed_integer_literal
  | AstSummarize "ast_measure list" "field_reference list"

record ast_stage =
  st_kind :: ast_stage_kind
  st_span :: span

record query =
  qu_source :: source_expression
  qu_stages :: "ast_stage list"
  qu_span :: span

end
