(* ===== verification/Catalog_Value.thy ===== *)
theory Catalog_Value
  imports Identity
begin


text \<open>
  Values of the catalog (\<open>elucid-catalog\<close>): the model errors (\<open>error.rs\<close>), JSON Pointers
  (\<open>json_pointer.rs\<close>), logical types, nullability and field roles (\<open>logical_type.rs\<close>), names,
  versions, digests and ordinals (\<open>value.rs\<close>).

  A Rust string is the list of its UTF-8 bytes. The characters that the code looks for are
  ASCII, which no other character contains, so that scanning characters and scanning bytes find
  the same ones.
\<close>

section \<open>JSON Pointers\<close>

type_synonym json_pointer = "string list"

datatype logical_type =
    TBool | TInt32 | TInt64 | TUInt32 | TUInt64 | TFloat32 | TFloat64 | TUtf8 | TDatetime | TEid | TJson

datatype user_logical_type =
    UBool | UInt32 | UInt64 | UUInt32 | UUInt64 | UFloat32 | UFloat64 | UUtf8 | UDatetime

datatype nullability = NonNull | Nullable

datatype field_role = RoleEventTime | RoleIngestionTime | RoleEventId | RoleData | RoleRemainder

section \<open>Errors\<close>

datatype name_kind = NameSource | NameInput | NameUserField

datatype version_kind = VersionSchema | VersionIngestionProfileRevision

datatype schema_incompatibility =
    ExistingFieldNotPreserved uuid string nat
  | IncompatibleLogicalType uuid string logical_type logical_type
  | IncompatibleNullability uuid string nullability nullability
  | IncompatibleHistoricalRemainderPointer uuid string "json_pointer option" "json_pointer option"
  | AppendedFieldMustBeNullable uuid string

datatype (plugins only: size code) catalog_model_error =
    CatalogIdentityMustBeUuidV7 identity_kind uuid
  | InvalidName name_kind string
  | VersionMustBePositive version_kind
  | MaximumRecordBytesMustBePositive
  | JsonPointerMustStartWithSlash
  | InvalidJsonPointerEscape nat nat
  | SystemFieldIdentityIsReserved uuid
  | HistoricalRemainderPointerRequiresNullableField uuid
  | SystemFieldCannotBeMapped uuid
  | DuplicateFieldIdentity uuid
  | DuplicateFieldName string
  | FieldOrdinalOverflow
  | DuplicateProfileMappingTarget uuid
  | EmptyProfileRevisionHistory uuid
  | ProfileRevisionInputMismatch uuid uuid uuid
  | ProfileRevisionsMustIncrease nat nat
  | DuplicateProfileRevisionIdentity uuid
  | ActiveProfileRevisionNotFound uuid uuid
  | EmptySchemaHistory
  | SchemaSourceMismatch uuid uuid uuid
  | SchemaVersionsMustIncrease nat nat
  | SchemaHistoryIncompatible nat nat schema_incompatibility
  | DuplicateSchemaIdentity uuid
  | ActiveSchemaNotFound uuid uuid
  | FieldIdentityReusedWithDifferentName uuid string string
  | FieldNameReusedWithDifferentIdentity string uuid uuid
  | InputSourceMismatch uuid uuid uuid
  | DuplicateInputIdentity uuid
  | DuplicateInputName string
  | ProfileTargetSchemaNotFound uuid uuid
  | ProfileMappingTargetNotFound uuid uuid uuid
  | ProfileMappingMissing uuid uuid uuid

section \<open>Parsing and printing JSON Pointers\<close>

text \<open>\<open>str::split\<close> with a single character: one more piece than there are separators.\<close>

fun split_on :: "char \<Rightarrow> string \<Rightarrow> string list" where
  "split_on c [] = [[]]"
| "split_on c (x # xs) =
     (if x = c then [] # split_on c xs
      else (x # hd (split_on c xs)) # tl (split_on c xs))"

fun decode_token_from :: "nat \<Rightarrow> nat \<Rightarrow> string \<Rightarrow> catalog_model_error + string" where
  "decode_token_from token_index byte_offset [] = Inr []"
| "decode_token_from token_index byte_offset (c # cs) =
     (if c \<noteq> CHR ''~'' then
        sbind (decode_token_from token_index (byte_offset + 1) cs) (\<lambda>decoded. Inr (c # decoded))
      else case cs of
          d # ds \<Rightarrow>
            if d = CHR ''0'' then
              sbind (decode_token_from token_index (byte_offset + 2) ds)
                (\<lambda>decoded. Inr (CHR ''~'' # decoded))
            else if d = CHR ''1'' then
              sbind (decode_token_from token_index (byte_offset + 2) ds)
                (\<lambda>decoded. Inr (CHR ''/'' # decoded))
            else Inl (InvalidJsonPointerEscape token_index byte_offset)
        | [] \<Rightarrow> Inl (InvalidJsonPointerEscape token_index byte_offset))"

definition decode_token :: "string \<Rightarrow> nat \<Rightarrow> catalog_model_error + string" where
  "decode_token encoded token_index = decode_token_from token_index 0 encoded"

definition json_pointer_parse :: "string \<Rightarrow> catalog_model_error + json_pointer" where
  "json_pointer_parse value =
     (case value of
        [] \<Rightarrow> Inr []
      | c # encoded_tokens \<Rightarrow>
          if c \<noteq> CHR ''/'' then Inl JsonPointerMustStartWithSlash
          else traverse (\<lambda>(token_index, token). decode_token token token_index)
                 (enumerate 0 (split_on (CHR ''/'') encoded_tokens)))"

definition escape_char :: "char \<Rightarrow> string" where
  "escape_char c = (if c = CHR ''~'' then ''~0'' else if c = CHR ''/'' then ''~1'' else [c])"

definition escape_token :: "string \<Rightarrow> string" where
  "escape_token token = concat (map escape_char token)"

definition json_pointer_display :: "json_pointer \<Rightarrow> string" where
  "json_pointer_display pointer = concat (map (\<lambda>token. CHR ''/'' # escape_token token) pointer)"

definition is_root :: "json_pointer \<Rightarrow> bool" where
  "is_root pointer \<longleftrightarrow> pointer = []"

lemma split_on_nonempty [simp]: "split_on c s \<noteq> []"
  by (induction s) auto

lemma split_on_no_separator: "piece \<in> set (split_on c s) \<Longrightarrow> c \<notin> set piece"
proof (induction s arbitrary: piece)
  case (Cons x s)
  then show ?case
    by (cases "split_on c s") (auto split: if_split_asm)
qed simp

lemma join_split_on: "concat (map ((#) c) (split_on c s)) = c # s"
proof (induction s)
  case (Cons x s)
  then show ?case by (cases "split_on c s") auto
qed simp

lemma split_on_append: "c \<notin> set piece \<Longrightarrow> split_on c (piece @ c # s) = piece # split_on c s"
  by (induction piece) auto

lemma split_on_single: "c \<notin> set piece \<Longrightarrow> split_on c piece = [piece]"
  by (induction piece) auto

lemma split_on_join:
  "pieces \<noteq> [] \<Longrightarrow> (\<And>piece. piece \<in> set pieces \<Longrightarrow> c \<notin> set piece) \<Longrightarrow>
   split_on c (tl (concat (map ((#) c) pieces))) = pieces"
proof (induction pieces)
  case (Cons piece pieces)
  show ?case
  proof (cases pieces)
    case Nil
    with Cons.prems show ?thesis by (simp add: split_on_single)
  next
    case (Cons piece' pieces')
    have "concat (map ((#) c) pieces) = c # tl (concat (map ((#) c) pieces))" using Cons by simp
    with Cons.IH Cons.prems Cons show ?thesis
      by (simp add: split_on_append)
  qed
qed simp

lemma escape_token_Cons [simp]: "escape_token (c # cs) = escape_char c @ escape_token cs"
  by (simp add: escape_token_def)

lemma escape_token_Nil [simp]: "escape_token [] = []"
  by (simp add: escape_token_def)

lemma slash_not_escaped: "CHR ''/'' \<notin> set (escape_token token)"
  by (induction token) (auto simp: escape_char_def)

lemma decode_escape: "decode_token_from i k (escape_token token) = Inr token"
  by (induction token arbitrary: k) (auto simp: escape_char_def)

lemma escape_decode:
  "decode_token_from i k s = Inr token \<Longrightarrow> CHR ''/'' \<notin> set s \<Longrightarrow> escape_token token = s"
proof (induction s arbitrary: k token rule: length_induct)
  case (1 s)
  show ?case
  proof (cases s)
    case Nil
    with "1.prems" show ?thesis by simp
  next
    case (Cons c cs)
    show ?thesis
    proof (cases "c = CHR ''~''")
      case False
      with "1.prems" Cons obtain decoded where "decode_token_from i (k + 1) cs = Inr decoded"
          "token = c # decoded" by (auto simp: result_simps)
      moreover from this "1.IH" "1.prems" Cons have "escape_token decoded = cs" by auto
      ultimately show ?thesis using False "1.prems" Cons by (auto simp: escape_char_def)
    next
      case True
      with "1.prems" Cons obtain d ds decoded where cs: "cs = d # ds"
          and dec: "decode_token_from i (k + 2) ds = Inr decoded"
          and tok: "d = CHR ''0'' \<and> token = CHR ''~'' # decoded \<or>
            d = CHR ''1'' \<and> token = CHR ''/'' # decoded"
        by (cases cs) (auto simp: result_simps split: if_split_asm)
      from "1.IH" dec "1.prems" Cons cs have "escape_token decoded = ds" by auto
      then show ?thesis using tok True Cons cs by (auto simp: escape_char_def)
    qed
  qed
qed

lemma traverse_enumerate:
  "traverse (\<lambda>(i, x). f x i) (enumerate n xs) = Inr ys \<longleftrightarrow>
   length ys = length xs \<and> (\<forall>k < length xs. f (xs ! k) (n + k) = Inr (ys ! k))"
  by (auto simp: traverse_eq_Inr list_all2_conv_all_nth nth_enumerate_eq)

interpretation json_pointer:
  canonical_codec json_pointer_display json_pointer_parse "\<lambda>_. True"
proof unfold_locales
  fix pointer :: json_pointer
  show "json_pointer_parse (json_pointer_display pointer) = Inr pointer"
  proof (cases pointer)
    case Nil
    then show ?thesis by (simp add: json_pointer_parse_def json_pointer_display_def)
  next
    case (Cons token tokens)
    let ?pieces = "map escape_token pointer"
    have shown: "json_pointer_display pointer = CHR ''/'' # tl (concat (map ((#) CHR ''/'') ?pieces))"
      using Cons by (simp add: json_pointer_display_def comp_def)
    have "split_on (CHR ''/'') (tl (concat (map ((#) CHR ''/'') ?pieces))) = ?pieces"
      using Cons slash_not_escaped by (intro split_on_join) auto
    then show ?thesis
      unfolding shown json_pointer_parse_def
      by (simp add: traverse_enumerate decode_token_def decode_escape)
  qed
next
  fix s pointer assume parsed: "json_pointer_parse s = Inr pointer"
  show "True \<and> json_pointer_display pointer = s"
  proof (cases s)
    case Nil
    with parsed show ?thesis by (simp add: json_pointer_parse_def json_pointer_display_def)
  next
    case (Cons c rest)
    let ?pieces = "split_on (CHR ''/'') rest"
    from parsed Cons have c: "c = CHR ''/''"
      and dec: "length pointer = length ?pieces"
        "\<forall>k < length ?pieces. decode_token_from k 0 (?pieces ! k) = Inr (pointer ! k)"
      by (auto simp: json_pointer_parse_def traverse_enumerate decode_token_def split: if_split_asm)
    have "map escape_token pointer = ?pieces"
    proof (rule nth_equalityI)
      fix k assume "k < length (map escape_token pointer)"
      then show "map escape_token pointer ! k = ?pieces ! k"
        using dec escape_decode [of k 0 "?pieces ! k" "pointer ! k"]
          split_on_no_separator [of "?pieces ! k" "CHR ''/''" rest] by simp
    qed (use dec in simp)
    then have "json_pointer_display pointer = concat (map ((#) CHR ''/'') ?pieces)"
      by (metis (no_types, lifting) json_pointer_display_def list.map_comp comp_apply map_eq_conv)
    then show ?thesis using Cons c by (simp add: join_split_on)
  qed
qed

section \<open>Logical types\<close>

primrec logical_type_as_str :: "logical_type \<Rightarrow> string" where
  "logical_type_as_str TBool = ''bool''"
| "logical_type_as_str TInt32 = ''int32''"
| "logical_type_as_str TInt64 = ''int64''"
| "logical_type_as_str TUInt32 = ''uint32''"
| "logical_type_as_str TUInt64 = ''uint64''"
| "logical_type_as_str TFloat32 = ''float32''"
| "logical_type_as_str TFloat64 = ''float64''"
| "logical_type_as_str TUtf8 = ''utf8''"
| "logical_type_as_str TDatetime = ''datetime''"
| "logical_type_as_str TEid = ''eid''"
| "logical_type_as_str TJson = ''json''"

text \<open>The part of Arrow's \<open>DataType\<close> that the catalog uses.\<close>

datatype arrow_data_type =
    ArrowBoolean
  | ArrowInt32
  | ArrowInt64
  | ArrowUInt32
  | ArrowUInt64
  | ArrowFloat32
  | ArrowFloat64
  | ArrowUtf8
  | ArrowTimestampMillisecondUtc
  | ArrowFixedSizeBinary nat

primrec logical_type_arrow_data_type :: "logical_type \<Rightarrow> arrow_data_type" where
  "logical_type_arrow_data_type TBool = ArrowBoolean"
| "logical_type_arrow_data_type TInt32 = ArrowInt32"
| "logical_type_arrow_data_type TInt64 = ArrowInt64"
| "logical_type_arrow_data_type TUInt32 = ArrowUInt32"
| "logical_type_arrow_data_type TUInt64 = ArrowUInt64"
| "logical_type_arrow_data_type TFloat32 = ArrowFloat32"
| "logical_type_arrow_data_type TFloat64 = ArrowFloat64"
| "logical_type_arrow_data_type TUtf8 = ArrowUtf8"
| "logical_type_arrow_data_type TJson = ArrowUtf8"
| "logical_type_arrow_data_type TDatetime = ArrowTimestampMillisecondUtc"
| "logical_type_arrow_data_type TEid = ArrowFixedSizeBinary 16"

definition logical_type_metadata_value :: "logical_type \<Rightarrow> string option" where
  "logical_type_metadata_value t =
     (case t of TEid \<Rightarrow> Some ''eid'' | TJson \<Rightarrow> Some ''json'' | _ \<Rightarrow> None)"

primrec user_logical_type_into :: "user_logical_type \<Rightarrow> logical_type" where
  "user_logical_type_into UBool = TBool"
| "user_logical_type_into UInt32 = TInt32"
| "user_logical_type_into UInt64 = TInt64"
| "user_logical_type_into UUInt32 = TUInt32"
| "user_logical_type_into UUInt64 = TUInt64"
| "user_logical_type_into UFloat32 = TFloat32"
| "user_logical_type_into UFloat64 = TFloat64"
| "user_logical_type_into UUtf8 = TUtf8"
| "user_logical_type_into UDatetime = TDatetime"

primrec user_logical_type_as_str :: "user_logical_type \<Rightarrow> string" where
  "user_logical_type_as_str UBool = ''bool''"
| "user_logical_type_as_str UInt32 = ''int32''"
| "user_logical_type_as_str UInt64 = ''int64''"
| "user_logical_type_as_str UUInt32 = ''uint32''"
| "user_logical_type_as_str UUInt64 = ''uint64''"
| "user_logical_type_as_str UFloat32 = ''float32''"
| "user_logical_type_as_str UFloat64 = ''float64''"
| "user_logical_type_as_str UUtf8 = ''utf8''"
| "user_logical_type_as_str UDatetime = ''datetime''"

primrec nullability_as_str :: "nullability \<Rightarrow> string" where
  "nullability_as_str NonNull = ''NON_NULL''"
| "nullability_as_str Nullable = ''NULLABLE''"

primrec is_nullable :: "nullability \<Rightarrow> bool" where
  "is_nullable NonNull = False"
| "is_nullable Nullable = True"

primrec field_role_as_str :: "field_role \<Rightarrow> string" where
  "field_role_as_str RoleEventTime = ''EVENT_TIME''"
| "field_role_as_str RoleIngestionTime = ''INGESTION_TIME''"
| "field_role_as_str RoleEventId = ''EVENT_ID''"
| "field_role_as_str RoleData = ''DATA''"
| "field_role_as_str RoleRemainder = ''REMAINDER''"

text \<open>
  A column of the storage format is read back as the logical type it was written with: the Arrow
  type together with the metadata value determines the logical type.
\<close>

lemma arrow_type_and_metadata_inject:
  "logical_type_arrow_data_type t = logical_type_arrow_data_type u \<Longrightarrow>
   logical_type_metadata_value t = logical_type_metadata_value u \<Longrightarrow> t = u"
  by (cases t; cases u) (simp_all add: logical_type_metadata_value_def)

lemma user_logical_type_into_inject: "user_logical_type_into t = user_logical_type_into u \<longleftrightarrow> t = u"
  by (cases t; cases u) simp_all

lemma user_logical_type_spelling:
  "logical_type_as_str (user_logical_type_into t) = user_logical_type_as_str t"
  by (cases t) simp_all

section \<open>Names, versions and ordinals\<close>

definition is_ascii_alphabetic :: "char \<Rightarrow> bool" where
  "is_ascii_alphabetic c =
     (let v = (of_char c :: nat) in 65 \<le> v \<and> v \<le> 90 \<or> 97 \<le> v \<and> v \<le> 122)"

definition is_ascii_digit :: "char \<Rightarrow> bool" where
  "is_ascii_digit c = (let v = (of_char c :: nat) in 48 \<le> v \<and> v \<le> 57)"

definition is_ascii_alphanumeric :: "char \<Rightarrow> bool" where
  "is_ascii_alphanumeric c \<longleftrightarrow> is_ascii_alphabetic c \<or> is_ascii_digit c"

fun is_valid_name :: "string \<Rightarrow> bool" where
  "is_valid_name [] \<longleftrightarrow> False"
| "is_valid_name (first # rest) \<longleftrightarrow>
     (is_ascii_alphabetic first \<or> first = CHR ''_'') \<and>
     list_all (\<lambda>c. is_ascii_alphanumeric c \<or> c = CHR ''_'') rest"

definition catalog_name_try_from :: "name_kind \<Rightarrow> string \<Rightarrow> catalog_model_error + string" where
  "catalog_name_try_from kind value =
     (if \<not> is_valid_name value then Inl (InvalidName kind value) else Inr value)"

definition schema_version_new :: "nat \<Rightarrow> catalog_model_error + nat" where
  "schema_version_new value =
     (if value = 0 then Inl (VersionMustBePositive VersionSchema) else Inr value)"

definition profile_revision_new :: "nat \<Rightarrow> catalog_model_error + nat" where
  "profile_revision_new value =
     (if value = 0 then Inl (VersionMustBePositive VersionIngestionProfileRevision) else Inr value)"

definition maximum_record_bytes_new :: "nat \<Rightarrow> catalog_model_error + nat" where
  "maximum_record_bytes_new value =
     (if value = 0 then Inl MaximumRecordBytesMustBePositive else Inr value)"

record definition_digests =
  dd_declaration :: bytes
  dd_materialized :: bytes

text \<open>An ordinal is a non-negative \<open>i32\<close>.\<close>

definition i32_max :: nat where
  "i32_max = 2147483647"

definition field_ordinal_from_index :: "nat \<Rightarrow> catalog_model_error + nat" where
  "field_ordinal_from_index index =
     (if index \<le> i32_max then Inr index else Inl FieldOrdinalOverflow)"

text \<open>A name never starts with the character that marks the system fields.\<close>

lemma valid_name_not_system: "is_valid_name name \<Longrightarrow> hd name \<noteq> CHR ''@''"
  by (cases name) (auto simp: is_ascii_alphabetic_def Let_def)

end
