(* ===== verification/Ieee.thy ===== *)
theory Ieee
  imports Complex_Main "HOL-Library.Log_Nat" "HOL-Library.Char_ord"
begin

text \<open>
  IEEE 754 binary formats, as the Rust types \<open>f32\<close> and \<open>f64\<close> use them: round to nearest, ties to
  even. A finite nonzero value is represented by the rational number it stands for, so that
  \<open>f64::from(f32)\<close> changes nothing; zeros and infinities carry their sign.
\<close>

record fp_format =
  fp_precision :: nat
  fp_emax :: int

definition binary32 :: fp_format where
  "binary32 = \<lparr>fp_precision = 24, fp_emax = 127\<rparr>"

definition binary64 :: fp_format where
  "binary64 = \<lparr>fp_precision = 53, fp_emax = 1023\<rparr>"

datatype fp = FNan | FInf bool | FZero bool | FNum rat

abbreviation fp_emin :: "fp_format \<Rightarrow> int" where
  "fp_emin F \<equiv> 1 - fp_emax F"

section \<open>Rounding\<close>

definition ilog2 :: "rat \<Rightarrow> int" where
  "ilog2 q = (let (a, b) = quotient_of q; e = bitlen a - bitlen b
     in if (2 :: rat) powi e \<le> q then e else e - 1)"

definition round_half_even :: "rat \<Rightarrow> int" where
  "round_half_even q = (let f = \<lfloor>q\<rfloor>; r = q - of_int f
     in if r < 1 / 2 then f else if r > 1 / 2 then f + 1 else if even f then f else f + 1)"

text \<open>\<open>fp_round F s q\<close> rounds the positive magnitude \<open>q\<close> with the sign \<open>s\<close>.\<close>

definition fp_ulp :: "fp_format \<Rightarrow> rat \<Rightarrow> rat" where
  "fp_ulp F q = 2 powi (max (ilog2 q) (fp_emin F) - (int (fp_precision F) - 1))"

definition fp_round :: "fp_format \<Rightarrow> bool \<Rightarrow> rat \<Rightarrow> fp" where
  "fp_round F s q =
     (let r = of_int (round_half_even (q / fp_ulp F q)) * fp_ulp F q
      in if r = 0 then FZero s
         else if r \<ge> 2 powi (fp_emax F + 1) then FInf s
         else FNum (if s then - r else r))"

definition fp_of_rat :: "fp_format \<Rightarrow> rat \<Rightarrow> fp" where
  "fp_of_rat F q = (if q = 0 then FZero False else fp_round F (q < 0) \<bar>q\<bar>)"

definition fp_format_ok :: "fp_format \<Rightarrow> bool" where
  "fp_format_ok F \<longleftrightarrow> 1 < fp_precision F \<and> int (fp_precision F) \<le> fp_emax F"

lemma formats_ok [simp]: "fp_format_ok binary32" "fp_format_ok binary64"
  by (simp_all add: fp_format_ok_def binary32_def binary64_def)

text \<open>The finite nonzero values of a format.\<close>

definition representable :: "fp_format \<Rightarrow> rat \<Rightarrow> bool" where
  "representable F q \<longleftrightarrow> q \<noteq> 0 \<and> \<bar>q\<bar> < 2 powi (fp_emax F + 1) \<and>
     (\<exists>m e. \<bar>m\<bar> < 2 ^ fp_precision F \<and> fp_emin F - (int (fp_precision F) - 1) \<le> e \<and>
       q = of_int m * 2 powi e)"

lemma representableI:
  "q \<noteq> 0 \<Longrightarrow> \<bar>q\<bar> < 2 powi (fp_emax F + 1) \<Longrightarrow> \<bar>m\<bar> < 2 ^ fp_precision F \<Longrightarrow>
   fp_emin F - (int (fp_precision F) - 1) \<le> e \<Longrightarrow> q = of_int m * 2 powi e \<Longrightarrow> representable F q"
  unfolding representable_def by blast

lemma powi_pos [simp]: "(0 :: rat) < 2 powi e"
  by simp

lemma powi_mono: "a \<le> b \<Longrightarrow> (2 :: rat) powi a \<le> 2 powi b"
  by (simp add: power_int_increasing)

lemma powi_strict: "(2 :: rat) powi a < 2 powi b \<longleftrightarrow> a < b"
  by (metis less_irrefl linorder_not_less power_int_strict_increasing powi_mono one_less_numeral_iff semiring_norm(76))

lemma powi_le: "(2 :: rat) powi a \<le> 2 powi b \<longleftrightarrow> a \<le> b"
  using powi_strict [of b a] by (simp add: linorder_not_less [symmetric])

lemma powi_nat: "(2 :: rat) powi int n = 2 ^ n"
  by simp

lemma powi_times: "(2 :: rat) powi a * 2 powi b = 2 powi (a + b)"
  by (simp add: power_int_add)

lemma ilog2_bounds:
  assumes "0 < q"
  shows "2 powi ilog2 q \<le> q \<and> q < 2 powi (ilog2 q + 1)"
proof -
  obtain a b where ab: "quotient_of q = (a, b)" by (cases "quotient_of q")
  have b: "0 < b" using ab quotient_of_denom_pos by blast
  have q: "q = of_int a / of_int b" using ab by (rule quotient_of_div)
  with assms b have a: "0 < a" by (simp add: zero_less_divide_iff)
  have len: "1 \<le> bitlen c" if "0 < c" for c using that by (simp add: bitlen_def floorlog_def)
  define x y where "x = bitlen a" and "y = bitlen b"
  have x: "1 \<le> x" "2 ^ nat (x - 1) \<le> a" "a < 2 ^ nat x"
    and y: "1 \<le> y" "2 ^ nat (y - 1) \<le> b" "b < 2 ^ nat y"
    using bitlen_bounds [of a] bitlen_bounds [of b] len [OF a] len [OF b] a b by (simp_all add: x_def y_def)
  have pa: "(2 :: rat) powi (x - 1) \<le> of_int a" "of_int a < (2 :: rat) powi x"
  proof -
    have "(2 :: rat) powi (x - 1) = of_int (2 ^ nat (x - 1))" using x(1) by (simp add: power_int_def)
    with x(2) show "(2 :: rat) powi (x - 1) \<le> of_int a" by (metis of_int_le_iff)
    have "(2 :: rat) powi x = of_int (2 ^ nat x)" using x(1) by (simp add: power_int_def)
    with x(3) show "of_int a < (2 :: rat) powi x" by (metis of_int_less_iff)
  qed
  have pb: "(2 :: rat) powi (y - 1) \<le> of_int b" "of_int b < (2 :: rat) powi y"
  proof -
    have "(2 :: rat) powi (y - 1) = of_int (2 ^ nat (y - 1))" using y(1) by (simp add: power_int_def)
    with y(2) show "(2 :: rat) powi (y - 1) \<le> of_int b" by (metis of_int_le_iff)
    have "(2 :: rat) powi y = of_int (2 ^ nat y)" using y(1) by (simp add: power_int_def)
    with y(3) show "of_int b < (2 :: rat) powi y" by (metis of_int_less_iff)
  qed
  have lower: "2 powi (x - y - 1) \<le> q"
  proof -
    have "2 powi (x - y - 1) * of_int b \<le> 2 powi (x - y - 1) * (2 :: rat) powi y"
      using pb(2) by (simp add: mult_left_mono)
    also have "\<dots> = 2 powi (x - 1)" by (simp add: powi_times)
    also have "\<dots> \<le> of_int a" by (rule pa)
    finally show ?thesis using b by (simp add: q pos_le_divide_eq)
  qed
  have upper: "q < 2 powi (x - y + 1)"
  proof -
    have "of_int a < (2 :: rat) powi x" by (rule pa)
    also have "\<dots> = 2 powi (x - y + 1) * (2 :: rat) powi (y - 1)" by (simp add: powi_times)
    also have "\<dots> \<le> 2 powi (x - y + 1) * of_int b" using pb(1) by (simp add: mult_left_mono)
    finally show ?thesis using b by (simp add: q pos_divide_less_eq)
  qed
  show ?thesis
  proof (cases "(2 :: rat) powi (x - y) \<le> q")
    case True
    then have "ilog2 q = x - y" by (simp add: ilog2_def ab x_def y_def)
    with True upper show ?thesis by simp
  next
    case False
    then have "ilog2 q = x - y - 1" by (simp add: ilog2_def ab x_def y_def)
    with False lower show ?thesis by simp
  qed
qed

lemma ilog2_unique:
  assumes "2 powi e \<le> q" "q < 2 powi (e + 1)"
  shows "ilog2 q = e"
proof -
  have "0 < q" using assms(1) powi_pos [of e] by linarith
  note b = ilog2_bounds [OF this]
  have "(2 :: rat) powi ilog2 q < 2 powi (e + 1)" "(2 :: rat) powi e < 2 powi (ilog2 q + 1)"
    using b assms by linarith+
  then show ?thesis by (simp add: powi_strict)
qed

lemma round_half_even_int [simp]: "round_half_even (of_int m) = m"
  by (simp add: round_half_even_def)

lemma round_half_even_mono_bounds:
  "of_int m \<le> q \<Longrightarrow> m \<le> round_half_even q"
  "q \<le> of_int m \<Longrightarrow> round_half_even q \<le> m"
proof -
  assume "of_int m \<le> q"
  then have "m \<le> \<lfloor>q\<rfloor>" by (simp add: le_floor_iff)
  then show "m \<le> round_half_even q" by (simp add: round_half_even_def Let_def)
next
  assume le: "q \<le> of_int m"
  show "round_half_even q \<le> m"
  proof (cases "\<lfloor>q\<rfloor> = m")
    case True
    then have "q = of_int m" using le by (metis antisym of_int_floor_le)
    then show ?thesis by simp
  next
    case False
    moreover have "\<lfloor>q\<rfloor> \<le> m" using le by (metis floor_mono floor_of_int)
    ultimately have "\<lfloor>q\<rfloor> + 1 \<le> m" by simp
    then show ?thesis by (auto simp: round_half_even_def Let_def)
  qed
qed

lemma round_half_even_error: "\<bar>of_int (round_half_even q) - q\<bar> \<le> 1 / 2"
proof -
  define f where "f = \<lfloor>q\<rfloor>"
  have f: "of_int f \<le> q" "q < of_int f + 1" unfolding f_def by linarith+
  have "round_half_even q = f \<and> q - of_int f \<le> 1 / 2 \<or> round_half_even q = f + 1 \<and> 1 / 2 \<le> q - of_int f"
    by (auto simp: round_half_even_def f_def Let_def)
  then show ?thesis
  proof
    assume "round_half_even q = f \<and> q - of_int f \<le> 1 / 2"
    with f show ?thesis by (simp add: abs_le_iff)
  next
    assume "round_half_even q = f + 1 \<and> 1 / 2 \<le> q - of_int f"
    with f show ?thesis by (simp add: abs_le_iff)
  qed
qed

text \<open>The exponent of the last place.\<close>

definition fp_uexp :: "fp_format \<Rightarrow> rat \<Rightarrow> int" where
  "fp_uexp F q = max (ilog2 q) (fp_emin F) - (int (fp_precision F) - 1)"

lemma fp_ulp_uexp: "fp_ulp F q = 2 powi fp_uexp F q"
  by (simp add: fp_ulp_def fp_uexp_def)

lemma fp_uexp_ge: "fp_emin F - (int (fp_precision F) - 1) \<le> fp_uexp F q"
  by (simp add: fp_uexp_def)

lemma fp_scaled_bound:
  assumes "0 < q"
  shows "q / fp_ulp F q \<le> 2 ^ fp_precision F"
proof -
  have "ilog2 q + 1 \<le> fp_uexp F q + int (fp_precision F)" by (simp add: fp_uexp_def)
  then have "(2 :: rat) powi (ilog2 q + 1) \<le> 2 powi (int (fp_precision F) + fp_uexp F q)"
    by (intro powi_mono) simp
  with ilog2_bounds [OF assms] have "q \<le> 2 powi int (fp_precision F) * 2 powi fp_uexp F q"
    unfolding powi_times by linarith
  then show ?thesis by (simp add: fp_ulp_uexp pos_divide_le_eq)
qed

lemma fp_round_exact:
  assumes "representable F q" "0 < q"
  shows "fp_round F s q = FNum (if s then - q else q)"
proof -
  from assms obtain m e where m: "\<bar>m\<bar> < 2 ^ fp_precision F"
    and e: "fp_emin F - (int (fp_precision F) - 1) \<le> e" and q: "q = of_int m * 2 powi e"
    and max: "q < 2 powi (fp_emax F + 1)"
    by (auto simp: representable_def)
  let ?u = "fp_uexp F q"
  have "?u \<le> e"
  proof (rule ccontr)
    assume "\<not> ?u \<le> e"
    then have "?u = ilog2 q - (int (fp_precision F) - 1)" "e + 1 \<le> ?u" using e by (auto simp: fp_uexp_def)
    then have u: "ilog2 q = ?u + int (fp_precision F) - 1" by simp
    have "m < 2 ^ fp_precision F" using m by simp
    then have "(of_int m :: rat) < of_int (2 ^ fp_precision F)" by (simp only: of_int_less_iff)
    then have "(of_int m :: rat) < 2 powi int (fp_precision F)" by simp
    then have "q < 2 powi int (fp_precision F) * 2 powi e"
      unfolding q by (rule mult_strict_right_mono) simp
    also have "\<dots> = 2 powi (int (fp_precision F) + e)" by (rule powi_times)
    also have "\<dots> \<le> 2 powi ilog2 q" using u \<open>e + 1 \<le> ?u\<close> by (intro powi_mono) simp
    also have "\<dots> \<le> q" using ilog2_bounds [OF assms(2)] by simp
    finally show False by simp
  qed
  then have "q = of_int (m * 2 ^ nat (e - ?u)) * 2 powi ?u"
  proof -
    have "(2 :: rat) powi e = 2 powi (e - ?u) * 2 powi ?u" by (simp add: powi_times)
    also have "(2 :: rat) powi (e - ?u) = of_int (2 ^ nat (e - ?u))"
      using \<open>?u \<le> e\<close> by (simp add: power_int_def)
    finally show ?thesis unfolding q by simp
  qed
  then obtain n :: int where n: "q = of_int n * fp_ulp F q" unfolding fp_ulp_uexp by blast
  have ulp: "0 < fp_ulp F q" by (simp add: fp_ulp_uexp)
  from n ulp have "q / fp_ulp F q = of_int n" by (simp add: nonzero_divide_eq_eq)
  then have "of_int (round_half_even (q / fp_ulp F q)) * fp_ulp F q = q" using n by simp
  with assms(2) max show ?thesis by (simp add: fp_round_def)
qed

lemma fp_of_rat_exact: "representable F q \<Longrightarrow> fp_of_rat F q = FNum q"
proof -
  assume r: "representable F q"
  then have "q \<noteq> 0" by (simp add: representable_def)
  have abs: "representable F \<bar>q\<bar>"
  proof -
    from r obtain m e where "\<bar>m\<bar> < 2 ^ fp_precision F" "fp_emin F - (int (fp_precision F) - 1) \<le> e"
      "q = of_int m * 2 powi e" "\<bar>q\<bar> < 2 powi (fp_emax F + 1)" by (auto simp: representable_def)
    then show ?thesis
      unfolding representable_def using \<open>q \<noteq> 0\<close>
      by (intro conjI exI [of _ "\<bar>m\<bar>"] exI [of _ e]) (simp_all add: abs_mult)
  qed
  from fp_round_exact [OF this, of "q < 0"] \<open>q \<noteq> 0\<close> show ?thesis by (simp add: fp_of_rat_def)
qed

lemma representable_minus [simp]: "representable F (- q) = representable F q"
proof -
  have "representable F (- q)" if r: "representable F q" for q
  proof -
    from r obtain m e where "\<bar>m\<bar> < 2 ^ fp_precision F" "fp_emin F - (int (fp_precision F) - 1) \<le> e"
      "q = of_int m * 2 powi e" "\<bar>q\<bar> < 2 powi (fp_emax F + 1)" "q \<noteq> 0" by (auto simp: representable_def)
    then show ?thesis
      unfolding representable_def
      by (intro conjI exI [of _ "- m"] exI [of _ e]) simp_all
  qed
  from this [of q] this [of "- q"] show ?thesis by auto
qed

lemma fp_round_representable:
  assumes "0 < q" "fp_format_ok F" "fp_round F s q = FNum r"
  shows "representable F r"
proof -
  define n where "n = round_half_even (q / fp_ulp F q)"
  define x where "x = of_int n * fp_ulp F q"
  have ulp: "0 < fp_ulp F q" by (simp add: fp_ulp_uexp)
  have n: "0 \<le> n" "n \<le> 2 ^ fp_precision F"
    unfolding n_def using assms(1) ulp fp_scaled_bound [OF assms(1), of F]
    by (intro round_half_even_mono_bounds; simp)+
  from assms(3) have x: "x \<noteq> 0" "x < 2 powi (fp_emax F + 1)" and r: "r = (if s then - x else x)"
    by (auto simp: fp_round_def x_def n_def Let_def split: if_split_asm)
  have "0 \<le> x" using n(1) ulp by (simp add: x_def)
  have "representable F x"
  proof (cases "n = 2 ^ fp_precision F")
    case False
    with n have "\<bar>n\<bar> < 2 ^ fp_precision F" by simp
    with x \<open>0 \<le> x\<close> show ?thesis
      using fp_uexp_ge [of F q] by (intro representableI [of x F n "fp_uexp F q"]) (simp_all add: x_def fp_ulp_uexp)
  next
    case True
    obtain p where p: "fp_precision F = Suc p" using assms(2) by (cases "fp_precision F") (auto simp: fp_format_ok_def)
    have "x = of_int (2 ^ p) * 2 powi (fp_uexp F q + 1)"
      by (simp add: x_def True p fp_ulp_uexp power_int_add)
    with x \<open>0 \<le> x\<close> fp_uexp_ge [of F q] show ?thesis
      by (intro representableI [of x F "2 ^ p" "fp_uexp F q + 1"]) (simp_all add: p)
  qed
  then show ?thesis using r by simp
qed

lemma fp_of_rat_representable:
  "fp_format_ok F \<Longrightarrow> fp_of_rat F q = FNum r \<Longrightarrow> representable F r"
  using fp_round_representable [of "\<bar>q\<bar>" F "q < 0" r] by (auto simp: fp_of_rat_def split: if_split_asm)

section \<open>Operations\<close>

fun fp_is_finite :: "fp \<Rightarrow> bool" where
  "fp_is_finite FNan = False"
| "fp_is_finite (FInf _) = False"
| "fp_is_finite _ = True"

fun fp_ok :: "fp_format \<Rightarrow> fp \<Rightarrow> bool" where
  "fp_ok F (FNum q) = representable F q"
| "fp_ok F _ = True"

fun fp_neg :: "fp \<Rightarrow> fp" where
  "fp_neg FNan = FNan"
| "fp_neg (FInf s) = FInf (\<not> s)"
| "fp_neg (FZero s) = FZero (\<not> s)"
| "fp_neg (FNum q) = FNum (- q)"

fun fp_add :: "fp_format \<Rightarrow> fp \<Rightarrow> fp \<Rightarrow> fp" where
  "fp_add F FNan _ = FNan"
| "fp_add F _ FNan = FNan"
| "fp_add F (FInf s) (FInf t) = (if s = t then FInf s else FNan)"
| "fp_add F (FInf s) _ = FInf s"
| "fp_add F _ (FInf t) = FInf t"
| "fp_add F (FZero s) (FZero t) = FZero (s \<and> t)"
| "fp_add F (FZero _) (FNum y) = FNum y"
| "fp_add F (FNum x) (FZero _) = FNum x"
| "fp_add F (FNum x) (FNum y) = fp_of_rat F (x + y)"

definition fp_sub :: "fp_format \<Rightarrow> fp \<Rightarrow> fp \<Rightarrow> fp" where
  "fp_sub F x y = fp_add F x (fp_neg y)"

fun fp_negative :: "fp \<Rightarrow> bool" where
  "fp_negative FNan = False"
| "fp_negative (FInf s) = s"
| "fp_negative (FZero s) = s"
| "fp_negative (FNum q) = (q < 0)"

fun fp_mul :: "fp_format \<Rightarrow> fp \<Rightarrow> fp \<Rightarrow> fp" where
  "fp_mul F FNan _ = FNan"
| "fp_mul F _ FNan = FNan"
| "fp_mul F (FInf s) (FZero _) = FNan"
| "fp_mul F (FZero _) (FInf t) = FNan"
| "fp_mul F (FInf s) y = FInf (s \<noteq> fp_negative y)"
| "fp_mul F x (FInf t) = FInf (fp_negative x \<noteq> t)"
| "fp_mul F (FZero s) y = FZero (s \<noteq> fp_negative y)"
| "fp_mul F x (FZero t) = FZero (fp_negative x \<noteq> t)"
| "fp_mul F (FNum x) (FNum y) = fp_round F (x * y < 0) \<bar>x * y\<bar>"

fun fp_div :: "fp_format \<Rightarrow> fp \<Rightarrow> fp \<Rightarrow> fp" where
  "fp_div F FNan _ = FNan"
| "fp_div F _ FNan = FNan"
| "fp_div F (FInf s) (FInf _) = FNan"
| "fp_div F (FInf s) y = FInf (s \<noteq> fp_negative y)"
| "fp_div F x (FInf t) = FZero (fp_negative x \<noteq> t)"
| "fp_div F (FZero _) (FZero _) = FNan"
| "fp_div F (FZero s) y = FZero (s \<noteq> fp_negative y)"
| "fp_div F x (FZero t) = FInf (fp_negative x \<noteq> t)"
| "fp_div F (FNum x) (FNum y) = fp_round F (x / y < 0) \<bar>x / y\<bar>"

text \<open>The value of a finite number, and the comparisons of \<open>PartialOrd\<close>.\<close>

fun fp_value :: "fp \<Rightarrow> rat" where
  "fp_value (FNum q) = q"
| "fp_value _ = 0"

fun fp_lt :: "fp \<Rightarrow> fp \<Rightarrow> bool" where
  "fp_lt FNan _ = False"
| "fp_lt _ FNan = False"
| "fp_lt (FInf s) (FInf t) = (s \<and> \<not> t)"
| "fp_lt (FInf s) _ = s"
| "fp_lt _ (FInf t) = (\<not> t)"
| "fp_lt x y = (fp_value x < fp_value y)"

fun fp_eq :: "fp \<Rightarrow> fp \<Rightarrow> bool" where
  "fp_eq FNan _ = False"
| "fp_eq _ FNan = False"
| "fp_eq (FInf s) (FInf t) = (s = t)"
| "fp_eq (FInf s) _ = False"
| "fp_eq _ (FInf t) = False"
| "fp_eq x y = (fp_value x = fp_value y)"

definition fp_le :: "fp \<Rightarrow> fp \<Rightarrow> bool" where
  "fp_le x y \<longleftrightarrow> fp_lt x y \<or> fp_eq x y"

text \<open>\<open>as f32\<close> and \<open>as f64\<close> on integers, and \<open>as f32\<close> on an \<open>f64\<close>.\<close>

definition fp_of_int :: "fp_format \<Rightarrow> int \<Rightarrow> fp" where
  "fp_of_int F n = fp_of_rat F (of_int n)"

fun fp_convert :: "fp_format \<Rightarrow> fp \<Rightarrow> fp" where
  "fp_convert F (FNum q) = fp_of_rat F q"
| "fp_convert F x = x"

text \<open>\<open>fract() == 0.0\<close> on a finite value, and the truncating \<open>as\<close> of an integral one.\<close>

definition fp_is_integral :: "fp \<Rightarrow> bool" where
  "fp_is_integral x \<longleftrightarrow> fp_is_finite x \<and> of_int \<lfloor>fp_value x\<rfloor> = fp_value x"

lemma fp_round_zero: "fp_round F s 0 = FZero s"
  using round_half_even_int [of 0] by (simp add: fp_round_def)

lemma fp_ok_round: "fp_format_ok F \<Longrightarrow> 0 \<le> q \<Longrightarrow> fp_ok F (fp_round F s q)"
  using fp_round_representable [of q F s] fp_round_zero [of F s]
  by (cases "q = 0"; cases "fp_round F s q") simp_all

lemma fp_ok_of_rat [simp]: "fp_format_ok F \<Longrightarrow> fp_ok F (fp_of_rat F q)"
  by (simp add: fp_of_rat_def fp_ok_round)

lemma fp_ok_neg [simp]: "fp_ok F (fp_neg x) = fp_ok F x"
  by (cases x) simp_all

lemma fp_finite_neg [simp]: "fp_is_finite (fp_neg x) = fp_is_finite x"
  by (cases x) simp_all

lemma fp_ok_add: "fp_format_ok F \<Longrightarrow> fp_ok F x \<Longrightarrow> fp_ok F y \<Longrightarrow> fp_ok F (fp_add F x y)"
  by (induction F x y rule: fp_add.induct) simp_all

lemma fp_ok_sub: "fp_format_ok F \<Longrightarrow> fp_ok F x \<Longrightarrow> fp_ok F y \<Longrightarrow> fp_ok F (fp_sub F x y)"
  by (simp add: fp_sub_def fp_ok_add)

lemma representable_nonzero: "representable F q \<Longrightarrow> q \<noteq> 0"
  by (simp add: representable_def)

lemma fp_ok_mul: "fp_format_ok F \<Longrightarrow> fp_ok F x \<Longrightarrow> fp_ok F y \<Longrightarrow> fp_ok F (fp_mul F x y)"
  by (induction F x y rule: fp_mul.induct) (auto intro!: fp_ok_round)

lemma fp_ok_div: "fp_format_ok F \<Longrightarrow> fp_ok F x \<Longrightarrow> fp_ok F y \<Longrightarrow> fp_ok F (fp_div F x y)"
  by (induction F x y rule: fp_div.induct) (auto intro!: fp_ok_round)

lemma fp_ok_of_int [simp]: "fp_format_ok F \<Longrightarrow> fp_ok F (fp_of_int F n)"
  by (simp add: fp_of_int_def)

lemma fp_ok_convert [simp]: "fp_format_ok F \<Longrightarrow> fp_ok F (fp_convert F x)"
  by (cases x) simp_all

lemma fp_convert_id: "fp_ok F x \<Longrightarrow> fp_convert F x = x"
  by (cases x) (simp_all add: fp_of_rat_exact)

text \<open>Every \<open>f32\<close> is an \<open>f64\<close>.\<close>

lemma binary32_binary64: "representable binary32 q \<Longrightarrow> representable binary64 q"
proof -
  assume "representable binary32 q"
  then obtain m e where q: "q \<noteq> 0" "\<bar>q\<bar> < 2 powi (128 :: int)" and m: "\<bar>m\<bar> < (2 :: int) ^ 24"
    and e: "- 149 \<le> e" and eq: "q = of_int m * 2 powi e"
    by (auto simp: representable_def binary32_def)
  have "\<bar>q\<bar> < 2 powi (1024 :: int)"
    using q(2) powi_mono [of 128 1024] by linarith
  moreover have "\<bar>m\<bar> < (2 :: int) ^ 53" using m by simp
  ultimately show ?thesis
    using q(1) e eq by (intro representableI [of q binary64 m e]) (simp_all add: binary64_def)
qed

lemma fp_ok_widen: "fp_ok binary32 x \<Longrightarrow> fp_ok binary64 x"
  by (cases x) (simp_all add: binary32_binary64)

text \<open>An integer with few significant bits is converted exactly.\<close>

lemma representable_int:
  assumes "n \<noteq> 0" "n = m * 2 ^ t" "\<bar>m\<bar> < 2 ^ fp_precision F" "fp_format_ok F"
    "\<bar>of_int n :: rat\<bar> < 2 powi (fp_emax F + 1)"
  shows "representable F (of_int n)"
  using assms by (intro representableI [of "of_int n" F m "int t"]) (auto simp: fp_format_ok_def)

lemma fp_of_int_exact:
  "representable F (of_int n) \<or> n = 0 \<Longrightarrow> fp_value (fp_of_int F n) = of_int n \<and> fp_is_finite (fp_of_int F n)"
  by (auto simp: fp_of_int_def fp_of_rat_exact) (simp_all add: fp_of_rat_def)

section \<open>Decimal text\<close>

text \<open>
  \<open>str::parse::<f32>\<close> and \<open>str::parse::<f64>\<close>: an optional sign, then \<open>inf\<close>, \<open>infinity\<close> or \<open>nan\<close>
  in any case, or digits with an optional point and an optional exponent, at least one digit
  before or after the point. The decimal value is rounded once.
\<close>

definition is_digit :: "char \<Rightarrow> bool" where
  "is_digit c \<longleftrightarrow> CHR ''0'' \<le> c \<and> c \<le> CHR ''9''"

definition digit_value :: "char \<Rightarrow> nat" where
  "digit_value c = of_char c - 48"

definition decimal_value :: "string \<Rightarrow> nat" where
  "decimal_value ds = foldl (\<lambda>n c. 10 * n + digit_value c) 0 ds"

definition lower_char :: "char \<Rightarrow> char" where
  "lower_char c = (if CHR ''A'' \<le> c \<and> c \<le> CHR ''Z'' then char_of (of_char c + (32 :: nat)) else c)"

fun parse_sign :: "string \<Rightarrow> bool \<times> string" where
  "parse_sign (c # cs) = (if c = CHR ''-'' then (True, cs) else if c = CHR ''+'' then (False, cs) else (False, c # cs))"
| "parse_sign [] = (False, [])"

definition parse_exponent :: "string \<Rightarrow> int option" where
  "parse_exponent s = (case s of
       [] \<Rightarrow> Some 0
     | c # cs \<Rightarrow>
         if c = CHR ''e'' \<or> c = CHR ''E'' then
           (let (neg, ds) = parse_sign cs in
            if ds \<noteq> [] \<and> list_all is_digit ds
            then Some (if neg then - int (decimal_value ds) else int (decimal_value ds)) else None)
         else None)"

definition parse_number :: "string \<Rightarrow> rat option" where
  "parse_number s =
     (let whole = takeWhile is_digit s; rest = dropWhile is_digit s;
          (fraction, rest) = (case rest of
              c # cs \<Rightarrow> if c = CHR ''.'' then (takeWhile is_digit cs, dropWhile is_digit cs) else ([], rest)
            | [] \<Rightarrow> ([], []))
      in if whole = [] \<and> fraction = [] then None
         else map_option (\<lambda>e. of_nat (decimal_value (whole @ fraction)) * 10 powi (e - int (length fraction)))
           (parse_exponent rest))"

definition fp_parse :: "fp_format \<Rightarrow> string \<Rightarrow> fp option" where
  "fp_parse F s =
     (let (neg, body) = parse_sign s; word = map lower_char body in
      if word = ''inf'' \<or> word = ''infinity'' then Some (FInf neg)
      else if word = ''nan'' then Some FNan
      else map_option (\<lambda>q. if q = 0 then FZero neg else fp_round F neg q) (parse_number body))"

lemma parse_number_nonneg: "parse_number s = Some q \<Longrightarrow> 0 \<le> q"
  by (auto simp: parse_number_def Let_def split: prod.split_asm if_split_asm list.split_asm)

lemma fp_parse_ok: "fp_format_ok F \<Longrightarrow> fp_parse F s = Some x \<Longrightarrow> fp_ok F x"
  by (auto simp: fp_parse_def Let_def split: prod.split_asm if_split_asm
      dest!: parse_number_nonneg intro!: fp_ok_round)

end
