(* ===== verification/Query_Ir.thy ===== *)
theory Query_Ir
  imports Query_Ast Catalog_Value Identity Ieee
begin

text \<open>
  The typed intermediate representation (\<open>elucid-language/src/ir.rs\<close>) and the diagnostics
  (\<open>semantic/error.rs\<close>). Integers are \<open>int\<close> and the invariant \<open>literal_ok\<close> keeps each in the range
  of its type; a UTC instant is its number of milliseconds.
\<close>

section \<open>Diagnostics\<close>

datatype (plugins only: size code) diagnostic_code =
    SyntaxError | SourceNotFound | FieldNotFound | TimeExpressionInvalid | TimeBoundUnresolved
  | TimeRangeInvalid | LiteralInvalid | FunctionArityInvalid | FunctionArgumentTypeInvalid
  | CastInvalid | ProjectionAliasRequired | AggregateAliasRequired | DuplicateOutputField
  | StageOrderInvalid | TakeInvalid | TypeMismatch | ConstantEvaluationFailed

primrec diagnostic_code_as_str :: "diagnostic_code \<Rightarrow> string" where
  "diagnostic_code_as_str SyntaxError = ''QUERY_SYNTAX_ERROR''"
| "diagnostic_code_as_str SourceNotFound = ''QUERY_SOURCE_NOT_FOUND''"
| "diagnostic_code_as_str FieldNotFound = ''QUERY_FIELD_NOT_FOUND''"
| "diagnostic_code_as_str TimeExpressionInvalid = ''QUERY_TIME_EXPRESSION_INVALID''"
| "diagnostic_code_as_str TimeBoundUnresolved = ''QUERY_TIME_BOUND_UNRESOLVED''"
| "diagnostic_code_as_str TimeRangeInvalid = ''QUERY_TIME_RANGE_INVALID''"
| "diagnostic_code_as_str LiteralInvalid = ''QUERY_LITERAL_INVALID''"
| "diagnostic_code_as_str FunctionArityInvalid = ''QUERY_FUNCTION_ARITY_INVALID''"
| "diagnostic_code_as_str FunctionArgumentTypeInvalid = ''QUERY_FUNCTION_ARGUMENT_TYPE_INVALID''"
| "diagnostic_code_as_str CastInvalid = ''QUERY_CAST_INVALID''"
| "diagnostic_code_as_str ProjectionAliasRequired = ''QUERY_PROJECTION_ALIAS_REQUIRED''"
| "diagnostic_code_as_str AggregateAliasRequired = ''QUERY_AGGREGATE_ALIAS_REQUIRED''"
| "diagnostic_code_as_str DuplicateOutputField = ''QUERY_DUPLICATE_OUTPUT_FIELD''"
| "diagnostic_code_as_str StageOrderInvalid = ''QUERY_STAGE_ORDER_INVALID''"
| "diagnostic_code_as_str TakeInvalid = ''QUERY_TAKE_INVALID''"
| "diagnostic_code_as_str TypeMismatch = ''QUERY_TYPE_MISMATCH''"
| "diagnostic_code_as_str ConstantEvaluationFailed = ''QUERY_CONSTANT_EVALUATION_FAILED''"

datatype diagnostic_severity = SeverityError | SeverityWarning

record source_position =
  pos_line :: nat
  pos_column :: nat

record source_range =
  sr_start :: source_position
  sr_end :: source_position

record diagnostic =
  diag_code :: diagnostic_code
  diag_severity :: diagnostic_severity
  diag_message :: string
  diag_span :: "span option"
  diag_source_range :: "source_range option"

definition diagnostic_error :: "diagnostic_code \<Rightarrow> string \<Rightarrow> span \<Rightarrow> diagnostic" where
  "diagnostic_error code message sp =
     \<lparr>diag_code = code, diag_severity = SeverityError, diag_message = message,
      diag_span = Some sp, diag_source_range = None\<rparr>"

text \<open>
  \<open>format!("{:?}", name)\<close> on a name: the names are identifiers of the language, without a
  character that the debug format escapes.
\<close>

definition debug_name :: "string \<Rightarrow> string" where
  "debug_name s = ''\"'' @ s @ ''\"''"

section \<open>Literals\<close>

definition in_i32 :: "int \<Rightarrow> bool" where
  "in_i32 i \<longleftrightarrow> - (2 ^ 31) \<le> i \<and> i < 2 ^ 31"

definition in_u32 :: "int \<Rightarrow> bool" where
  "in_u32 i \<longleftrightarrow> 0 \<le> i \<and> i < 2 ^ 32"

definition in_u64 :: "int \<Rightarrow> bool" where
  "in_u64 i \<longleftrightarrow> 0 \<le> i \<and> i < 2 ^ 64"

lemmas int_ranges = in_i32_def in_i64_def in_u32_def in_u64_def

datatype (plugins only: size code) ir_literal =
    LNull logical_type
  | LBoolean bool
  | LInt32 int
  | LInt64 int
  | LUInt32 int
  | LUInt64 int
  | LFloat32 fp
  | LFloat64 fp
  | LUtf8 string
  | LDatetime int
  | LEid bytes

primrec literal_logical_type :: "ir_literal \<Rightarrow> logical_type" where
  "literal_logical_type (LNull t) = t"
| "literal_logical_type (LBoolean _) = TBool"
| "literal_logical_type (LInt32 _) = TInt32"
| "literal_logical_type (LInt64 _) = TInt64"
| "literal_logical_type (LUInt32 _) = TUInt32"
| "literal_logical_type (LUInt64 _) = TUInt64"
| "literal_logical_type (LFloat32 _) = TFloat32"
| "literal_logical_type (LFloat64 _) = TFloat64"
| "literal_logical_type (LUtf8 _) = TUtf8"
| "literal_logical_type (LDatetime _) = TDatetime"
| "literal_logical_type (LEid _) = TEid"

primrec literal_nullability :: "ir_literal \<Rightarrow> nullability" where
  "literal_nullability (LNull _) = Nullable"
| "literal_nullability (LBoolean _) = NonNull"
| "literal_nullability (LInt32 _) = NonNull"
| "literal_nullability (LInt64 _) = NonNull"
| "literal_nullability (LUInt32 _) = NonNull"
| "literal_nullability (LUInt64 _) = NonNull"
| "literal_nullability (LFloat32 _) = NonNull"
| "literal_nullability (LFloat64 _) = NonNull"
| "literal_nullability (LUtf8 _) = NonNull"
| "literal_nullability (LDatetime _) = NonNull"
| "literal_nullability (LEid _) = NonNull"

text \<open>The invariant of a literal: in the range of its type, and a finite float of its format.\<close>

primrec literal_ok :: "ir_literal \<Rightarrow> bool" where
  "literal_ok (LNull _) = True"
| "literal_ok (LBoolean _) = True"
| "literal_ok (LInt32 i) = in_i32 i"
| "literal_ok (LInt64 i) = in_i64 i"
| "literal_ok (LUInt32 i) = in_u32 i"
| "literal_ok (LUInt64 i) = in_u64 i"
| "literal_ok (LFloat32 x) = (fp_is_finite x \<and> fp_ok binary32 x)"
| "literal_ok (LFloat64 x) = (fp_is_finite x \<and> fp_ok binary64 x)"
| "literal_ok (LUtf8 _) = True"
| "literal_ok (LDatetime i) = in_i64 i"
| "literal_ok (LEid bs) = event_id_ok bs"

section \<open>Expressions and relations\<close>

datatype ir_unary_operator = OpNot | OpNegate

datatype (plugins only: size code) ir_binary_operator =
    OpAdd | OpSubtract | OpMultiply | OpDivide
  | OpEqual | OpNotEqual | OpGreaterThan | OpGreaterThanOrEqual | OpLessThan | OpLessThanOrEqual
  | OpAnd | OpOr

datatype ir_cast_kind = Lossless | Strict | NullOnFailure

datatype ir_remainder_function = RemValue | RemExists

datatype null_predicate = IsNull | IsNotNull

datatype field_origin = OriginSchema uuid | OriginSystem uuid | OriginDerived span

record ir_field =
  if_name :: string
  if_logical_type :: logical_type
  if_nullability :: nullability
  if_origin :: field_origin

text \<open>\<open>Relation\<close> has the single component \<open>fields\<close>.\<close>

type_synonym relation = "ir_field list"

definition relation_field :: "relation \<Rightarrow> string \<Rightarrow> ir_field option" where
  "relation_field r name = find (\<lambda>f. if_name f = name) r"

datatype (plugins only: size code) ir_expression =
    IrExpression (ir_kind: ir_expression_kind) (ir_logical_type: logical_type)
      (ir_nullability: nullability)
and ir_expression_kind =
    IrLiteral ir_literal
  | IrField ir_field
  | IrUnary ir_unary_operator ir_expression
  | IrBinary ir_binary_operator ir_expression ir_expression
  | IrCast ir_cast_kind ir_expression logical_type
  | IrRemainder ir_remainder_function ir_field string
  | IrNullPredicate ir_expression null_predicate

definition expression_literal :: "ir_literal \<Rightarrow> ir_expression" where
  "expression_literal l = IrExpression (IrLiteral l) (literal_logical_type l) (literal_nullability l)"

definition expression_field :: "ir_field \<Rightarrow> ir_expression" where
  "expression_field f = IrExpression (IrField f) (if_logical_type f) (if_nullability f)"

section \<open>Pipelines\<close>

record ir_source =
  is_source_id :: uuid
  is_name :: string
  is_active_schema_id :: uuid

record time_range =
  tr_start_inclusive :: int
  tr_end_exclusive :: int

definition time_range_new :: "int \<Rightarrow> int \<Rightarrow> time_range option" where
  "time_range_new start_inclusive end_exclusive =
     (if start_inclusive \<ge> end_exclusive then None
      else Some \<lparr>tr_start_inclusive = start_inclusive, tr_end_exclusive = end_exclusive\<rparr>)"

record ir_projection =
  pj_expression :: ir_expression
  pj_output_field :: ir_field

datatype sort_order = Ascending | Descending

record sort_spec =
  ss_field :: ir_field
  ss_order :: sort_order

datatype aggregate_function = Count | Sum | Min | Max | Average

primrec aggregate_function_as_str :: "aggregate_function \<Rightarrow> string" where
  "aggregate_function_as_str Count = ''count''"
| "aggregate_function_as_str Sum = ''sum''"
| "aggregate_function_as_str Min = ''min''"
| "aggregate_function_as_str Max = ''max''"
| "aggregate_function_as_str Average = ''avg''"

record aggregate_expression =
  ae_function :: aggregate_function
  ae_argument :: "ir_field option"
  ae_output_field :: ir_field

datatype ir_stage_kind =
    IrFilter ir_expression
  | IrProject "ir_projection list"
  | IrAggregate "aggregate_expression list" "ir_field list"
  | IrSort "sort_spec list"
  | IrTake nat

record ir_stage =
  ig_kind :: ir_stage_kind
  ig_output_relation :: relation

record pipeline =
  pl_source :: ir_source
  pl_time_range :: time_range
  pl_source_relation :: relation
  pl_stages :: "ir_stage list"

definition pipeline_output_relation :: "pipeline \<Rightarrow> relation" where
  "pipeline_output_relation p =
     (if pl_stages p = [] then pl_source_relation p else ig_output_relation (last (pl_stages p)))"

end
