(* ===== verification/Query_Expression.thy ===== *)
theory Query_Expression
  imports Query_Ir "HOL-Library.Signed_Division" "HOL-Library.List_Lexorder"
begin

text \<open>
  Typed analysis of expressions (\<open>elucid-language/src/semantic/expression.rs\<close>): contextual typing
  of literals, lossless coercion, casts and constant folding. The vector of diagnostics that the
  functions pass along is never written by them and is left out. \<open>chrono\<close> parses RFC 3339
  texts: a parameter that gives the nanoseconds below the second and the timestamp in
  milliseconds.
\<close>

record chrono_env =
  parse_from_rfc3339 :: "string \<Rightarrow> (nat \<times> int) option"

text \<open>\<open>timestamp_millis\<close> is an \<open>i64\<close>.\<close>

definition chrono_ok :: "'x chrono_env_scheme \<Rightarrow> bool" where
  "chrono_ok C \<longleftrightarrow> (\<forall>s n ms. parse_from_rfc3339 C s = Some (n, ms) \<longrightarrow> in_i64 ms)"

lemma map_sum_eq_Inr [result_simps]: "map_sum f g r = Inr y \<longleftrightarrow> (\<exists>x. r = Inr x \<and> g x = y)"
  by (cases r) auto

section \<open>Errors and classes of types\<close>

definition literal_invalid :: "string \<Rightarrow> span \<Rightarrow> diagnostic" where
  "literal_invalid message sp = diagnostic_error LiteralInvalid message sp"

definition type_mismatch :: "string \<Rightarrow> span \<Rightarrow> diagnostic" where
  "type_mismatch message sp = diagnostic_error TypeMismatch message sp"

definition constant_evaluation_failed :: "string \<Rightarrow> span \<Rightarrow> diagnostic" where
  "constant_evaluation_failed message sp = diagnostic_error ConstantEvaluationFailed message sp"

definition is_numeric :: "logical_type \<Rightarrow> bool" where
  "is_numeric t \<longleftrightarrow> t \<in> {TInt32, TInt64, TUInt32, TUInt64, TFloat32, TFloat64}"

definition is_integer :: "logical_type \<Rightarrow> bool" where
  "is_integer t \<longleftrightarrow> t \<in> {TInt32, TInt64, TUInt32, TUInt64}"

primrec from_numeric_type :: "numeric_type \<Rightarrow> logical_type" where
  "from_numeric_type NumInt32 = TInt32"
| "from_numeric_type NumInt64 = TInt64"
| "from_numeric_type NumUInt32 = TUInt32"
| "from_numeric_type NumUInt64 = TUInt64"
| "from_numeric_type NumFloat32 = TFloat32"
| "from_numeric_type NumFloat64 = TFloat64"

primrec from_ast_logical_type :: "ast_logical_type \<Rightarrow> logical_type" where
  "from_ast_logical_type AstBool = TBool"
| "from_ast_logical_type AstInt32 = TInt32"
| "from_ast_logical_type AstInt64 = TInt64"
| "from_ast_logical_type AstUInt32 = TUInt32"
| "from_ast_logical_type AstUInt64 = TUInt64"
| "from_ast_logical_type AstFloat32 = TFloat32"
| "from_ast_logical_type AstFloat64 = TFloat64"
| "from_ast_logical_type AstUtf8 = TUtf8"
| "from_ast_logical_type AstDatetime = TDatetime"
| "from_ast_logical_type AstEid = TEid"
| "from_ast_logical_type AstJson = TJson"

primrec binary_operator :: "ast_binary_operator \<Rightarrow> ir_binary_operator" where
  "binary_operator AstAdd = OpAdd"
| "binary_operator AstSubtract = OpSubtract"
| "binary_operator AstMultiply = OpMultiply"
| "binary_operator AstDivide = OpDivide"
| "binary_operator AstEqual = OpEqual"
| "binary_operator AstNotEqual = OpNotEqual"
| "binary_operator AstGreaterThan = OpGreaterThan"
| "binary_operator AstGreaterThanOrEqual = OpGreaterThanOrEqual"
| "binary_operator AstLessThan = OpLessThan"
| "binary_operator AstLessThanOrEqual = OpLessThanOrEqual"
| "binary_operator AstAnd = OpAnd"
| "binary_operator AstOr = OpOr"

definition combine_nullability :: "nullability \<Rightarrow> nullability \<Rightarrow> nullability" where
  "combine_nullability l r = (if l = Nullable \<or> r = Nullable then Nullable else NonNull)"

fun can_widen :: "logical_type \<Rightarrow> logical_type \<Rightarrow> bool" where
  "can_widen s t = (s = t \<or>
     s = TInt32 \<and> (t = TInt64 \<or> t = TFloat64) \<or>
     s = TUInt32 \<and> (t = TUInt64 \<or> t = TFloat64) \<or>
     s = TFloat32 \<and> t = TFloat64)"

definition common_numeric_type :: "logical_type \<Rightarrow> logical_type \<Rightarrow> logical_type option" where
  "common_numeric_type l r =
     find (\<lambda>c. can_widen l c \<and> can_widen r c) [TInt32, TUInt32, TInt64, TUInt64, TFloat32, TFloat64]"

definition cast_is_defined :: "logical_type \<Rightarrow> logical_type \<Rightarrow> bool" where
  "cast_is_defined s t \<longleftrightarrow>
     s = t \<or> is_numeric s \<and> is_numeric t \<or> t = TJson \<or> s = TJson \<or> t = TUtf8 \<or>
     s = TUtf8 \<and> t \<in> {TBool, TInt32, TInt64, TUInt32, TUInt64, TFloat32, TFloat64, TDatetime, TEid}"

section \<open>Literals\<close>

text \<open>
  \<open>leading_zeros\<close> and \<open>trailing_zeros\<close> of a \<open>u64\<close>: the number of significant bits, and the largest
  power of two that divides the value (64 for zero).
\<close>

fun significant_bits :: "nat \<Rightarrow> nat" where
  "significant_bits n = (if n = 0 then 0 else Suc (significant_bits (n div 2)))"

declare significant_bits.simps [simp del]

fun trailing_zeros_below :: "nat \<Rightarrow> nat \<Rightarrow> nat" where
  "trailing_zeros_below 0 n = 0"
| "trailing_zeros_below (Suc k) n = (if even n then Suc (trailing_zeros_below k (n div 2)) else 0)"

definition trailing_zeros :: "nat \<Rightarrow> nat" where
  "trailing_zeros n = trailing_zeros_below 64 n"

definition integer_is_exact :: "nat \<Rightarrow> nat \<Rightarrow> bool" where
  "integer_is_exact value mantissa_digits =
     (let bits = significant_bits value in
      bits \<le> mantissa_digits \<or> trailing_zeros value \<ge> bits - mantissa_digits)"

datatype integer_literal_site = SiteExpression | SiteConstructor

definition signed_i128 :: "nat \<Rightarrow> bool \<Rightarrow> int" where
  "signed_i128 magnitude negative = (if negative then - int magnitude else int magnitude)"

definition in_range :: "(int \<Rightarrow> bool) \<Rightarrow> int \<Rightarrow> int option" where
  "in_range P i = (if P i then Some i else None)"

definition fp_signed :: "bool \<Rightarrow> fp \<Rightarrow> fp" where
  "fp_signed negative x = (if negative then fp_neg x else x)"

definition integer_literal ::
  "nat \<Rightarrow> numeric_sign \<Rightarrow> logical_type option \<Rightarrow> span \<Rightarrow> integer_literal_site \<Rightarrow> diagnostic + ir_literal" where
  "integer_literal magnitude sign expected sp site =
     (let target = (case expected of Some t \<Rightarrow> t | None \<Rightarrow> TInt64);
          has_leading_minus = (sign = Negative);
          negative = (has_leading_minus \<and> magnitude \<noteq> 0);
          value = signed_i128 magnitude negative in
      case target of
        TInt32 \<Rightarrow> map_sum id LInt32 (ok_or (in_range in_i32 value)
          (literal_invalid ''integer literal is outside int32'' sp))
      | TInt64 \<Rightarrow> map_sum id LInt64 (ok_or (in_range in_i64 value)
          (literal_invalid ''integer literal is outside int64'' sp))
      | TUInt32 \<Rightarrow>
          if site = SiteConstructor \<and> has_leading_minus
          then Inl (literal_invalid ''unsigned constructor does not accept a leading minus'' sp)
          else if negative
          then Inl (type_mismatch ''negative expression cannot acquire an unsigned type'' sp)
          else map_sum id LUInt32 (ok_or (in_range in_u32 (int magnitude))
            (literal_invalid ''integer literal is outside uint32'' sp))
      | TUInt64 \<Rightarrow>
          if site = SiteConstructor \<and> has_leading_minus
          then Inl (literal_invalid ''unsigned constructor does not accept a leading minus'' sp)
          else if negative
          then Inl (type_mismatch ''negative expression cannot acquire an unsigned type'' sp)
          else Inr (LUInt64 (int magnitude))
      | TFloat32 \<Rightarrow>
          if integer_is_exact magnitude 24
          then Inr (LFloat32 (fp_signed negative (fp_of_int binary32 (int magnitude))))
          else Inl (literal_invalid
            ''integer literal is not exactly representable in the contextual floating type'' sp)
      | TFloat64 \<Rightarrow>
          if integer_is_exact magnitude 53
          then Inr (LFloat64 (fp_signed negative (fp_of_int binary64 (int magnitude))))
          else Inl (literal_invalid
            ''integer literal is not exactly representable in the contextual floating type'' sp)
      | _ \<Rightarrow> Inl (type_mismatch ''integer literal requires a numeric contextual type'' sp))"

definition floating_constructor_from_integer ::
  "nat \<Rightarrow> numeric_sign \<Rightarrow> logical_type \<Rightarrow> span \<Rightarrow> diagnostic + ir_literal" where
  "floating_constructor_from_integer magnitude sign target sp =
     (let negative = (sign = Negative) in
      case target of
        TFloat32 \<Rightarrow>
          (let value = fp_of_int binary32 (int magnitude) in
           if fp_is_finite value then Inr (LFloat32 (fp_signed negative value))
           else Inl (literal_invalid ''float32 constructor is non-finite'' sp))
      | TFloat64 \<Rightarrow> Inr (LFloat64 (fp_signed negative (fp_of_int binary64 (int magnitude))))
      | _ \<Rightarrow> Inl (literal_invalid ''floating constructor requires a floating target'' sp))"

definition floating_constructor ::
  "string \<Rightarrow> numeric_sign \<Rightarrow> logical_type \<Rightarrow> span \<Rightarrow> diagnostic + ir_literal" where
  "floating_constructor token sign target sp =
     (let negative = (sign = Negative) in
      case target of
        TFloat32 \<Rightarrow>
          sbind (ok_or (fp_parse binary32 token) (literal_invalid ''float32 constructor is invalid'' sp))
            (\<lambda>value. if \<not> fp_is_finite value
               then Inl (literal_invalid ''float32 constructor is non-finite'' sp)
               else Inr (LFloat32 (fp_signed negative value)))
      | TFloat64 \<Rightarrow>
          sbind (ok_or (fp_parse binary64 token) (literal_invalid ''float64 constructor is invalid'' sp))
            (\<lambda>value. if \<not> fp_is_finite value
               then Inl (literal_invalid ''float64 constructor is non-finite'' sp)
               else Inr (LFloat64 (fp_signed negative value)))
      | _ \<Rightarrow> Inl (literal_invalid ''floating constructor requires a floating target'' sp))"

definition parse_datetime_with_code ::
  "'x chrono_env_scheme \<Rightarrow> string \<Rightarrow> span \<Rightarrow> diagnostic_code \<Rightarrow> diagnostic + int" where
  "parse_datetime_with_code C value sp code =
     sbind (ok_or (parse_from_rfc3339 C value)
       (diagnostic_error code ''datetime must be RFC 3339 with an explicit offset'' sp))
       (\<lambda>(subsec_nanos, millis).
         if subsec_nanos mod 1000000 \<noteq> 0
         then Inl (diagnostic_error code ''datetime contains sub-millisecond precision'' sp)
         else Inr millis)"

definition parse_datetime :: "'x chrono_env_scheme \<Rightarrow> string \<Rightarrow> span \<Rightarrow> diagnostic + int" where
  "parse_datetime C value sp = parse_datetime_with_code C value sp TimeExpressionInvalid"

definition parse_datetime_literal :: "'x chrono_env_scheme \<Rightarrow> string \<Rightarrow> span \<Rightarrow> diagnostic + int" where
  "parse_datetime_literal C value sp = parse_datetime_with_code C value sp LiteralInvalid"

definition convert_literal ::
  "ast_literal \<Rightarrow> logical_type option \<Rightarrow> span \<Rightarrow> diagnostic + ir_expression" where
  "convert_literal literal expected sp =
     map_sum id expression_literal (case al_kind literal of
       LitNull \<Rightarrow> map_sum id LNull
         (ok_or expected (type_mismatch ''null literal has no unique contextual type'' sp))
     | LitBoolean value \<Rightarrow> Inr (LBoolean value)
     | LitInteger magnitude \<Rightarrow> integer_literal magnitude NonNegative expected sp SiteExpression
     | LitFloatingPoint value \<Rightarrow>
         sbind (ok_or (fp_parse binary64 value)
           (literal_invalid ''floating-point literal is not representable'' sp)) (\<lambda>value.
         if \<not> fp_is_finite value then Inl (literal_invalid ''floating-point literal must be finite'' sp)
         else Inr (LFloat64 value))
     | LitString value \<Rightarrow> Inr (LUtf8 value))"

definition convert_constructor :: "'x chrono_env_scheme \<Rightarrow> ast_constructor \<Rightarrow> diagnostic + ir_expression" where
  "convert_constructor C con =
     map_sum id expression_literal (case con_kind con of
       NumericConstructor target literal \<Rightarrow>
         (let target = from_numeric_type target in
          case snl_kind literal of
            NumInteger magnitude \<Rightarrow>
              if is_integer target
              then integer_literal magnitude (snl_sign literal) (Some target) (con_span con) SiteConstructor
              else floating_constructor_from_integer magnitude (snl_sign literal) target (con_span con)
          | NumFloatingPoint value \<Rightarrow>
              floating_constructor value (snl_sign literal) target (con_span con))
     | DatetimeConstructor value \<Rightarrow>
         map_sum id LDatetime (parse_datetime_literal C (sl_value value) (con_span con))
     | EidConstructor value \<Rightarrow>
         map_sum (\<lambda>_. literal_invalid ''eid must contain exactly 32 lowercase hexadecimal characters''
           (con_span con)) LEid (event_id_from_str (sl_value value)))"

section \<open>Constant folding\<close>

datatype cmp = Less | Equal | Greater

definition cmp :: "'a :: linorder \<Rightarrow> 'a \<Rightarrow> cmp" where
  "cmp a b = (if a < b then Less else if a = b then Equal else Greater)"

definition checked_neg :: "(int \<Rightarrow> bool) \<Rightarrow> int \<Rightarrow> int option" where
  "checked_neg P a = in_range P (- a)"

definition checked_int_add :: "(int \<Rightarrow> bool) \<Rightarrow> int \<Rightarrow> int \<Rightarrow> int option" where
  "checked_int_add P a b = in_range P (a + b)"

definition checked_sub :: "(int \<Rightarrow> bool) \<Rightarrow> int \<Rightarrow> int \<Rightarrow> int option" where
  "checked_sub P a b = in_range P (a - b)"

definition checked_mul :: "(int \<Rightarrow> bool) \<Rightarrow> int \<Rightarrow> int \<Rightarrow> int option" where
  "checked_mul P a b = in_range P (a * b)"

text \<open>Integer division truncates toward zero; the quotient of the minimum by \<open>-1\<close> is out of range.\<close>

definition checked_div :: "(int \<Rightarrow> bool) \<Rightarrow> int \<Rightarrow> int \<Rightarrow> int option" where
  "checked_div P a b = (if b = 0 then None else in_range P (a sdiv b))"

definition fold_unary ::
  "ir_unary_operator \<Rightarrow> ir_expression \<Rightarrow> span \<Rightarrow> diagnostic + ir_expression option" where
  "fold_unary operator operand sp = (case ir_kind operand of
     IrLiteral literal \<Rightarrow>
       map_sum id (map_option expression_literal) (case (operator, literal) of
         (_, LNull t) \<Rightarrow> Inr (Some (LNull t))
       | (OpNot, LBoolean value) \<Rightarrow> Inr (Some (LBoolean (\<not> value)))
       | (OpNegate, LInt32 value) \<Rightarrow> map_sum id (Some \<circ> LInt32) (ok_or (checked_neg in_i32 value)
           (constant_evaluation_failed ''integer negation overflowed'' sp))
       | (OpNegate, LInt64 value) \<Rightarrow> map_sum id (Some \<circ> LInt64) (ok_or (checked_neg in_i64 value)
           (constant_evaluation_failed ''integer negation overflowed'' sp))
       | (OpNegate, LFloat32 value) \<Rightarrow> Inr (Some (LFloat32 (fp_neg value)))
       | (OpNegate, LFloat64 value) \<Rightarrow> Inr (Some (LFloat64 (fp_neg value)))
       | _ \<Rightarrow> Inr None)
   | _ \<Rightarrow> Inr None)"

definition fold_integer ::
  "(int \<Rightarrow> bool) \<Rightarrow> (int \<Rightarrow> ir_literal) \<Rightarrow> ir_binary_operator \<Rightarrow> int \<Rightarrow> int \<Rightarrow> span \<Rightarrow>
   diagnostic + ir_literal option" where
  "fold_integer P variant operator left right sp =
     (let finish = (\<lambda>value. map_sum id (Some \<circ> variant) (ok_or value
            (constant_evaluation_failed ''integer arithmetic overflowed or divided by zero'' sp)))
      in case operator of
        OpAdd \<Rightarrow> finish (checked_int_add P left right)
      | OpSubtract \<Rightarrow> finish (checked_sub P left right)
      | OpMultiply \<Rightarrow> finish (checked_mul P left right)
      | OpDivide \<Rightarrow> finish (checked_div P left right)
      | OpEqual \<Rightarrow> Inr (Some (LBoolean (left = right)))
      | OpNotEqual \<Rightarrow> Inr (Some (LBoolean (left \<noteq> right)))
      | OpGreaterThan \<Rightarrow> Inr (Some (LBoolean (left > right)))
      | OpGreaterThanOrEqual \<Rightarrow> Inr (Some (LBoolean (left \<ge> right)))
      | OpLessThan \<Rightarrow> Inr (Some (LBoolean (left < right)))
      | OpLessThanOrEqual \<Rightarrow> Inr (Some (LBoolean (left \<le> right)))
      | OpAnd \<Rightarrow> Inr None
      | OpOr \<Rightarrow> Inr None)"

text \<open>\<open>fold_f32\<close> and \<open>fold_f64\<close>, which differ in the format only.\<close>

definition fold_float ::
  "fp_format \<Rightarrow> (fp \<Rightarrow> ir_literal) \<Rightarrow> ir_binary_operator \<Rightarrow> fp \<Rightarrow> fp \<Rightarrow> span \<Rightarrow>
   diagnostic + ir_literal option" where
  "fold_float F variant operator left right sp =
     (let finish = (\<lambda>value. if fp_is_finite value then Inr (Some (variant value))
            else Inl (constant_evaluation_failed
              ''floating-point arithmetic produced a non-finite result'' sp))
      in case operator of
        OpAdd \<Rightarrow> finish (fp_add F left right)
      | OpSubtract \<Rightarrow> finish (fp_sub F left right)
      | OpMultiply \<Rightarrow> finish (fp_mul F left right)
      | OpDivide \<Rightarrow>
          if fp_eq right (FZero False)
          then Inl (constant_evaluation_failed ''floating-point arithmetic divided by zero'' sp)
          else finish (fp_div F left right)
      | OpEqual \<Rightarrow> Inr (Some (LBoolean (fp_eq left right)))
      | OpNotEqual \<Rightarrow> Inr (Some (LBoolean (\<not> fp_eq left right)))
      | OpGreaterThan \<Rightarrow> Inr (Some (LBoolean (fp_lt right left)))
      | OpGreaterThanOrEqual \<Rightarrow> Inr (Some (LBoolean (fp_le right left)))
      | OpLessThan \<Rightarrow> Inr (Some (LBoolean (fp_lt left right)))
      | OpLessThanOrEqual \<Rightarrow> Inr (Some (LBoolean (fp_le left right)))
      | OpAnd \<Rightarrow> Inr None
      | OpOr \<Rightarrow> Inr None)"

definition fold_ordered :: "ir_binary_operator \<Rightarrow> cmp \<Rightarrow> ir_literal option" where
  "fold_ordered operator result = (case operator of
       OpEqual \<Rightarrow> Some (LBoolean (result = Equal))
     | OpNotEqual \<Rightarrow> Some (LBoolean (result \<noteq> Equal))
     | OpGreaterThan \<Rightarrow> Some (LBoolean (result = Greater))
     | OpGreaterThanOrEqual \<Rightarrow> Some (LBoolean (result \<noteq> Less))
     | OpLessThan \<Rightarrow> Some (LBoolean (result = Less))
     | OpLessThanOrEqual \<Rightarrow> Some (LBoolean (result \<noteq> Greater))
     | _ \<Rightarrow> None)"

definition boolean_value :: "ir_literal \<Rightarrow> bool option option" where
  "boolean_value literal = (case literal of
       LBoolean value \<Rightarrow> Some (Some value)
     | LNull t \<Rightarrow> if t = TBool then Some None else None
     | _ \<Rightarrow> None)"

definition fold_three_valued_boolean ::
  "ir_binary_operator \<Rightarrow> ir_literal \<Rightarrow> ir_literal \<Rightarrow> ir_literal option" where
  "fold_three_valued_boolean operator left right =
     (case (boolean_value left, boolean_value right) of
        (Some left, Some right) \<Rightarrow>
          (let finish = (\<lambda>value. Some (case value of Some v \<Rightarrow> LBoolean v | None \<Rightarrow> LNull TBool)) in
           case operator of
             OpAnd \<Rightarrow> finish
               (if left = Some False \<or> right = Some False then Some False
                else if left = Some True then right
                else if right = Some True then left
                else None)
           | OpOr \<Rightarrow> finish
               (if left = Some True \<or> right = Some True then Some True
                else if left = Some False then right
                else if right = Some False then left
                else None)
           | _ \<Rightarrow> None)
      | _ \<Rightarrow> None)"

fun is_null :: "ir_literal \<Rightarrow> bool" where
  "is_null (LNull _) = True"
| "is_null _ = False"

definition fold_literals ::
  "ir_binary_operator \<Rightarrow> ir_literal \<Rightarrow> ir_literal \<Rightarrow> span \<Rightarrow> diagnostic + ir_literal option" where
  "fold_literals operator left right sp = (case (left, right) of
       (LInt32 l, LInt32 r) \<Rightarrow> fold_integer in_i32 LInt32 operator l r sp
     | (LInt64 l, LInt64 r) \<Rightarrow> fold_integer in_i64 LInt64 operator l r sp
     | (LUInt32 l, LUInt32 r) \<Rightarrow> fold_integer in_u32 LUInt32 operator l r sp
     | (LUInt64 l, LUInt64 r) \<Rightarrow> fold_integer in_u64 LUInt64 operator l r sp
     | (LFloat32 l, LFloat32 r) \<Rightarrow> fold_float binary32 LFloat32 operator l r sp
     | (LFloat64 l, LFloat64 r) \<Rightarrow> fold_float binary64 LFloat64 operator l r sp
     | (LBoolean l, LBoolean r) \<Rightarrow> Inr (case operator of
           OpAnd \<Rightarrow> Some (LBoolean (l \<and> r))
         | OpOr \<Rightarrow> Some (LBoolean (l \<or> r))
         | OpEqual \<Rightarrow> Some (LBoolean (l = r))
         | OpNotEqual \<Rightarrow> Some (LBoolean (l \<noteq> r))
         | _ \<Rightarrow> None)
     | (LUtf8 l, LUtf8 r) \<Rightarrow> Inr (fold_ordered operator (cmp l r))
     | (LDatetime l, LDatetime r) \<Rightarrow> Inr (fold_ordered operator (cmp l r))
     | (LEid l, LEid r) \<Rightarrow> Inr (fold_ordered operator (cmp l r))
     | _ \<Rightarrow> Inr None)"

definition fold_binary ::
  "ir_binary_operator \<Rightarrow> ir_expression \<Rightarrow> ir_expression \<Rightarrow> logical_type \<Rightarrow> span \<Rightarrow>
   diagnostic + ir_expression option" where
  "fold_binary operator left right logical_type sp =
     (case (ir_kind left, ir_kind right) of
        (IrLiteral left, IrLiteral right) \<Rightarrow>
          map_sum id (map_option expression_literal)
          (case (if operator = OpAnd \<or> operator = OpOr
                 then fold_three_valued_boolean operator left right else None) of
             Some value \<Rightarrow> Inr (Some value)
           | None \<Rightarrow>
               if is_null left \<or> is_null right then Inr (Some (LNull logical_type))
               else fold_literals operator left right sp)
      | _ \<Rightarrow> Inr None)"

section \<open>Coercion\<close>

definition widen_literal :: "ir_literal \<Rightarrow> logical_type \<Rightarrow> ir_literal option" where
  "widen_literal literal target = (case literal of
       LInt32 value \<Rightarrow>
         if target = TInt64 then Some (LInt64 value)
         else if target = TFloat64 then Some (LFloat64 (fp_of_int binary64 value)) else None
     | LUInt32 value \<Rightarrow>
         if target = TUInt64 then Some (LUInt64 value)
         else if target = TFloat64 then Some (LFloat64 (fp_of_int binary64 value)) else None
     | LFloat32 value \<Rightarrow> if target = TFloat64 then Some (LFloat64 value) else None
     | LNull _ \<Rightarrow> Some (LNull target)
     | _ \<Rightarrow> None)"

definition coerce_losslessly :: "ir_expression \<Rightarrow> logical_type \<Rightarrow> ir_expression" where
  "coerce_losslessly e target =
     (if ir_logical_type e = target then e
      else case (case ir_kind e of IrLiteral literal \<Rightarrow> widen_literal literal target | _ \<Rightarrow> None) of
          Some literal \<Rightarrow> expression_literal literal
        | None \<Rightarrow> IrExpression (IrCast Lossless e target) target (ir_nullability e))"

definition build_binary ::
  "ast_binary_operator \<Rightarrow> ir_expression \<Rightarrow> ir_expression \<Rightarrow> logical_type \<Rightarrow> span \<Rightarrow>
   diagnostic + ir_expression" where
  "build_binary operator left right logical_type sp =
     (let operator = binary_operator operator in
      sbind (fold_binary operator left right logical_type sp) (\<lambda>folded.
      case folded of Some e \<Rightarrow> Inr e
      | None \<Rightarrow> Inr (IrExpression (IrBinary operator left right) logical_type
          (combine_nullability (ir_nullability left) (ir_nullability right)))))"

section \<open>Expressions\<close>

text \<open>
  The functions below call \<open>convert_expression_with_expected\<close> on subexpressions; each takes that
  function, at the current relation, as \<open>conv\<close>.
\<close>

type_synonym converter = "ast_expression \<Rightarrow> logical_type option \<Rightarrow> diagnostic + ir_expression"

definition resolve_field :: "field_reference \<Rightarrow> relation \<Rightarrow> diagnostic + ir_field" where
  "resolve_field reference r =
     ok_or (relation_field r (field_reference_as_str reference))
       (diagnostic_error FieldNotFound
         (''field '' @ debug_name (field_reference_as_str reference) @ '' was not found in the current relation'')
         (field_reference_span reference))"

definition is_null_literal :: "ast_expression \<Rightarrow> bool" where
  "is_null_literal e = (case ast_kind e of AstLiteral l \<Rightarrow> al_kind l = LitNull | _ \<Rightarrow> False)"

definition is_arithmetic :: "ast_binary_operator \<Rightarrow> bool" where
  "is_arithmetic operator \<longleftrightarrow> operator \<in> {AstAdd, AstSubtract, AstMultiply, AstDivide}"

fun needs_context :: "ast_expression \<Rightarrow> bool" where
  "needs_context (AstExpression kind sp) = (case kind of
       AstLiteral l \<Rightarrow> (case al_kind l of LitInteger _ \<Rightarrow> True | LitNull \<Rightarrow> True | _ \<Rightarrow> False)
     | AstUnary operator operand \<Rightarrow> operator = AstNegate \<and> needs_context operand
     | AstBinary operator left right \<Rightarrow>
         is_arithmetic operator \<and> needs_context left \<and> needs_context right
     | _ \<Rightarrow> False)"

definition convert_cast :: "converter \<Rightarrow> cast_expression \<Rightarrow> diagnostic + ir_expression" where
  "convert_cast conv cast =
     (let target = from_ast_logical_type (cast_target cast);
          expected = (if is_null_literal (cast_expression cast) then Some target
            else if is_numeric target then Some target else None) in
      sbind (conv (cast_expression cast) expected) (\<lambda>e.
      if \<not> cast_is_defined (ir_logical_type e) target
      then Inl (diagnostic_error CastInvalid
        (''cast from '' @ logical_type_as_str (ir_logical_type e) @ '' to '' @ logical_type_as_str target @
         '' is not defined'') (cast_span cast))
      else if (case ir_kind e of IrLiteral l \<Rightarrow> is_null l | _ \<Rightarrow> False)
      then Inr (expression_literal (LNull target))
      else
        (let kind = (case cast_kind cast of AstStrict \<Rightarrow> Strict | AstNullOnFailure \<Rightarrow> NullOnFailure);
             nullability = (case kind of NullOnFailure \<Rightarrow> Nullable
               | Strict \<Rightarrow> if ir_logical_type e = TJson then Nullable else ir_nullability e
               | Lossless \<Rightarrow> ir_nullability e)
         in Inr (IrExpression (IrCast kind e target) target nullability))))"

definition convert_remainder :: "remainder_expression \<Rightarrow> relation \<Rightarrow> diagnostic + ir_expression" where
  "convert_remainder access r =
     sbind (ok_or (relation_field r ''@rest'')
       (diagnostic_error FieldNotFound ''@rest is not present in the current relation'' (rem_span access)))
       (\<lambda>remainder. Inr (case rem_function access of
           AstValue \<Rightarrow> IrExpression (IrRemainder RemValue remainder (sl_value (rem_key access))) TJson Nullable
         | AstExists \<Rightarrow> IrExpression (IrRemainder RemExists remainder (sl_value (rem_key access))) TBool NonNull))"

definition option_filter :: "('a \<Rightarrow> bool) \<Rightarrow> 'a option \<Rightarrow> 'a option" where
  "option_filter P x = (case x of Some a \<Rightarrow> if P a then Some a else None | None \<Rightarrow> None)"

definition unary_operator :: "ast_unary_operator \<Rightarrow> logical_type \<Rightarrow> span \<Rightarrow> diagnostic + ir_unary_operator" where
  "unary_operator operator t sp = (case operator of
       AstNot \<Rightarrow> if t = TBool then Inr OpNot
         else Inl (type_mismatch ''not requires a bool operand'' sp)
     | AstNegate \<Rightarrow> if t \<in> {TInt32, TInt64, TFloat32, TFloat64} then Inr OpNegate
         else Inl (type_mismatch ''unary minus requires a signed numeric operand'' sp))"

definition convert_unary ::
  "converter \<Rightarrow> ast_unary_operator \<Rightarrow> ast_expression \<Rightarrow> span \<Rightarrow> logical_type option \<Rightarrow>
   diagnostic + ir_expression" where
  "convert_unary conv operator operand sp expected =
     (case (if operator = AstNegate
            then (case ast_kind operand of
                AstLiteral l \<Rightarrow> (case al_kind l of LitInteger magnitude \<Rightarrow> Some magnitude | _ \<Rightarrow> None)
              | _ \<Rightarrow> None) else None) of
        Some magnitude \<Rightarrow>
          map_sum id expression_literal (integer_literal magnitude Negative expected sp SiteExpression)
      | None \<Rightarrow>
          sbind (conv operand (case operator of AstNot \<Rightarrow> Some TBool
            | AstNegate \<Rightarrow> option_filter is_numeric expected)) (\<lambda>operand.
          sbind (unary_operator operator (ir_logical_type operand) sp) (\<lambda>ir_operator.
          sbind (fold_unary ir_operator operand sp) (\<lambda>folded.
          case folded of Some e \<Rightarrow> Inr e
          | None \<Rightarrow> Inr (IrExpression (IrUnary ir_operator operand) (ir_logical_type operand)
              (ir_nullability operand))))))"

definition convert_null_predicate ::
  "converter \<Rightarrow> ast_binary_operator \<Rightarrow> ast_expression \<Rightarrow> span \<Rightarrow> diagnostic + ir_expression" where
  "convert_null_predicate conv operator value sp =
     (if is_null_literal value
      then Inl (type_mismatch ''two null literals have no unique contextual type'' sp)
      else sbind (conv value None) (\<lambda>e.
        let predicate = (if operator = AstEqual then IsNull else IsNotNull) in
        case ir_kind e of
          IrLiteral literal \<Rightarrow>
            Inr (expression_literal (LBoolean (is_null literal = (predicate = IsNull))))
        | _ \<Rightarrow> Inr (IrExpression (IrNullPredicate e predicate) TBool NonNull)))"

definition convert_contextual_pair ::
  "converter \<Rightarrow> ast_expression \<Rightarrow> ast_expression \<Rightarrow> logical_type option \<Rightarrow>
   diagnostic + ir_expression \<times> ir_expression" where
  "convert_contextual_pair conv left right expected =
     (let both = sbind (conv left expected) (\<lambda>l. sbind (conv right expected) (\<lambda>r. Inr (l, r)));
          left_first = (\<lambda>x. sbind (conv left x) (\<lambda>l.
            sbind (conv right (Some (ir_logical_type l))) (\<lambda>r. Inr (l, r))));
          right_first = (\<lambda>x. sbind (conv right x) (\<lambda>r.
            sbind (conv left (Some (ir_logical_type r))) (\<lambda>l. Inr (l, r))))
      in case (needs_context left, needs_context right) of
        (True, False) \<Rightarrow> right_first expected
      | (False, True) \<Rightarrow> left_first expected
      | (True, True) \<Rightarrow>
          if expected \<noteq> None then both
          else if is_null_literal left then right_first None
          else left_first None
      | (False, False) \<Rightarrow> both)"

definition convert_numeric_pair ::
  "converter \<Rightarrow> ast_expression \<Rightarrow> ast_expression \<Rightarrow> logical_type option \<Rightarrow> span \<Rightarrow>
   diagnostic + ir_expression \<times> ir_expression \<times> logical_type" where
  "convert_numeric_pair conv left right expected sp =
     sbind (convert_contextual_pair conv left right expected) (\<lambda>(left, right).
     if \<not> is_numeric (ir_logical_type left) \<or> \<not> is_numeric (ir_logical_type right)
     then Inl (type_mismatch ''arithmetic requires numeric operands'' sp)
     else sbind (ok_or (common_numeric_type (ir_logical_type left) (ir_logical_type right))
         (type_mismatch ''numeric operands have no lossless common type'' sp)) (\<lambda>common.
       Inr (coerce_losslessly left common, coerce_losslessly right common, common)))"

definition convert_comparison_pair ::
  "converter \<Rightarrow> ast_expression \<Rightarrow> ast_expression \<Rightarrow> ast_binary_operator \<Rightarrow> span \<Rightarrow>
   diagnostic + ir_expression \<times> ir_expression" where
  "convert_comparison_pair conv left right operator sp =
     sbind (convert_contextual_pair conv left right None) (\<lambda>(left, right).
     if is_numeric (ir_logical_type left) \<and> is_numeric (ir_logical_type right)
     then sbind (ok_or (common_numeric_type (ir_logical_type left) (ir_logical_type right))
         (type_mismatch ''numeric operands have no lossless common type'' sp)) (\<lambda>common.
       Inr (coerce_losslessly left common, coerce_losslessly right common))
     else
       (let ordered = (operator \<notin> {AstEqual, AstNotEqual});
            valid_same_type = (ir_logical_type left = ir_logical_type right \<and>
              ir_logical_type left \<in> {TUtf8, TDatetime, TEid});
            valid_equality = (\<not> ordered \<and> ir_logical_type left = TBool \<and> ir_logical_type right = TBool)
        in if valid_same_type \<or> valid_equality then Inr (left, right)
           else Inl (type_mismatch ''comparison operands are incompatible'' sp)))"

definition convert_binary ::
  "converter \<Rightarrow> ast_binary_operator \<Rightarrow> ast_expression \<Rightarrow> ast_expression \<Rightarrow> span \<Rightarrow> logical_type option \<Rightarrow>
   diagnostic + ir_expression" where
  "convert_binary conv operator left right sp expected =
     (if operator \<in> {AstEqual, AstNotEqual} \<and> is_null_literal left
      then convert_null_predicate conv operator right sp
      else if operator \<in> {AstEqual, AstNotEqual} \<and> is_null_literal right
      then convert_null_predicate conv operator left sp
      else if operator \<in> {AstAnd, AstOr}
      then sbind (conv left (Some TBool)) (\<lambda>left. sbind (conv right (Some TBool)) (\<lambda>right.
        if ir_logical_type left \<noteq> TBool \<or> ir_logical_type right \<noteq> TBool
        then Inl (type_mismatch ''logical operators require bool operands'' sp)
        else build_binary operator left right TBool sp))
      else if is_arithmetic operator
      then sbind (convert_numeric_pair conv left right (option_filter is_numeric expected) sp)
        (\<lambda>(left, right, common). build_binary operator left right common sp)
      else sbind (convert_comparison_pair conv left right operator sp)
        (\<lambda>(left, right). build_binary operator left right TBool sp))"

lemma convert_cast_cong [fundef_cong]:
  assumes "c = c'" "\<And>x. conv (cast_expression c') x = conv' (cast_expression c') x"
  shows "convert_cast conv c = convert_cast conv' c'"
  unfolding convert_cast_def assms ..

lemma convert_unary_cong [fundef_cong]:
  assumes "op = op'" "e = e'" "sp = sp'" "x = x'" "\<And>x. conv e' x = conv' e' x"
  shows "convert_unary conv op e sp x = convert_unary conv' op' e' sp' x'"
  unfolding convert_unary_def assms ..

lemma convert_null_predicate_cong:
  assumes "\<And>x. conv e x = conv' e x"
  shows "convert_null_predicate conv op e sp = convert_null_predicate conv' op e sp"
  unfolding convert_null_predicate_def assms ..

lemma convert_contextual_pair_cong:
  assumes "\<And>x. conv l x = conv' l x" "\<And>x. conv r x = conv' r x"
  shows "convert_contextual_pair conv l r x = convert_contextual_pair conv' l r x"
  unfolding convert_contextual_pair_def assms ..

lemma convert_binary_cong [fundef_cong]:
  assumes eqs: "op = op'" "l = l'" "r = r'" "sp = sp'" "x = x'"
    and conv: "\<And>x. conv l' x = conv' l' x" "\<And>x. conv r' x = conv' r' x"
  shows "convert_binary conv op l r sp x = convert_binary conv' op' l' r' sp' x'"
  unfolding eqs convert_binary_def convert_numeric_pair_def convert_comparison_pair_def conv
    convert_null_predicate_cong [of conv l' conv', OF conv(1)]
    convert_null_predicate_cong [of conv r' conv', OF conv(2)]
    convert_contextual_pair_cong [of conv l' conv' r', OF conv] ..

lemma size_cast_expression [termination_simp]: "size (cast_expression c) < Suc (size c)"
  by (cases c) simp

fun convert_expression_with_expected ::
  "'x chrono_env_scheme \<Rightarrow> relation \<Rightarrow> ast_expression \<Rightarrow> logical_type option \<Rightarrow> diagnostic + ir_expression" where
  "convert_expression_with_expected C r (AstExpression kind sp) expected =
     (case kind of
        AstLiteral literal \<Rightarrow> convert_literal literal expected sp
      | AstField reference \<Rightarrow> map_sum id expression_field (resolve_field reference r)
      | AstConstructor con \<Rightarrow> convert_constructor C con
      | AstCast cast \<Rightarrow> convert_cast (convert_expression_with_expected C r) cast
      | AstRemainder access \<Rightarrow> convert_remainder access r
      | AstUnary operator operand \<Rightarrow>
          convert_unary (convert_expression_with_expected C r) operator operand sp expected
      | AstBinary operator left right \<Rightarrow>
          convert_binary (convert_expression_with_expected C r) operator left right sp expected)"

definition convert_expression ::
  "'x chrono_env_scheme \<Rightarrow> ast_expression \<Rightarrow> relation \<Rightarrow> diagnostic + ir_expression" where
  "convert_expression C e r = convert_expression_with_expected C r e None"

end
