(* ===== verification/Query_Literal.thy ===== *)
theory Query_Literal
  imports Query_Expression
begin

text \<open>
  Exactness of literals: an integer literal acquires exactly its value or is rejected, and a
  lossless coercion keeps the value.
\<close>

section \<open>Bits of a magnitude\<close>

lemma significant_bits_less: "n < 2 ^ significant_bits n"
proof (induction n rule: less_induct)
  case (less n)
  show ?case
  proof (cases "n = 0")
    case True
    then show ?thesis by (simp add: significant_bits.simps)
  next
    case False
    then have "n div 2 < 2 ^ significant_bits (n div 2)" by (intro less) simp
    then have "n < 2 * 2 ^ significant_bits (n div 2)" by linarith
    with False show ?thesis by (simp add: significant_bits.simps [of n])
  qed
qed

lemma significant_bits_ge: "0 < n \<Longrightarrow> 2 ^ (significant_bits n - 1) \<le> n"
proof (induction n rule: less_induct)
  case (less n)
  show ?case
  proof (cases "n div 2 = 0")
    case True
    with less.prems show ?thesis by (simp add: significant_bits.simps)
  next
    case False
    with less.prems have "2 ^ (significant_bits (n div 2) - 1) \<le> n div 2" by (intro less) simp_all
    moreover have "0 < significant_bits (n div 2)" using False by (simp add: significant_bits.simps [of "n div 2"])
    then obtain k where "significant_bits (n div 2) = Suc k" by (cases "significant_bits (n div 2)") auto
    ultimately have "2 ^ Suc k \<le> n" by simp
    with less.prems \<open>significant_bits (n div 2) = Suc k\<close> show ?thesis by (simp add: significant_bits.simps [of n])
  qed
qed

lemma significant_bits_le:
  assumes "n < 2 ^ k"
  shows "significant_bits n \<le> k"
proof (cases "n = 0")
  case True
  then show ?thesis by (simp add: significant_bits.simps)
next
  case False
  then have "2 ^ (significant_bits n - 1) < (2 :: nat) ^ k"
    using significant_bits_ge [of n] assms by (meson bot_nat_0.not_eq_extremum le_less_trans)
  then have "significant_bits n - 1 < k" by simp
  then show ?thesis by simp
qed

lemma trailing_zeros_below_dvd: "2 ^ trailing_zeros_below k n dvd n"
proof (induction k n rule: trailing_zeros_below.induct)
  case (2 k n)
  show ?case
  proof (cases "even n")
    case True
    with 2 have "2 * 2 ^ trailing_zeros_below k (n div 2) dvd 2 * (n div 2)" by (intro mult_dvd_mono) simp_all
    with True show ?thesis by simp
  qed simp
qed simp

lemma trailing_zeros_below_ge: "j \<le> k \<Longrightarrow> 2 ^ j dvd n \<Longrightarrow> j \<le> trailing_zeros_below k n"
proof (induction k n arbitrary: j rule: trailing_zeros_below.induct)
  case (2 k n)
  show ?case
  proof (cases j)
    case (Suc i)
    with 2 have "2 * 2 ^ i dvd n" by simp
    then have "even n" "2 ^ i dvd n div 2" by (auto simp: dvd_def)
    with 2 Suc show ?thesis by simp
  qed simp
qed simp

lemma trailing_zeros_iff: "j \<le> 64 \<Longrightarrow> j \<le> trailing_zeros n \<longleftrightarrow> 2 ^ j dvd n"
  unfolding trailing_zeros_def
  using trailing_zeros_below_dvd [of 64 n] trailing_zeros_below_ge [of j 64 n]
  by (meson dvd_trans le_imp_power_dvd)

text \<open>\<open>integer_is_exact\<close> decides whether the magnitude has the digits of the format.\<close>

lemma integer_is_exact_iff:
  assumes "n < 2 ^ 64" "0 < p"
  shows "integer_is_exact n p \<longleftrightarrow> (\<exists>m t. n = m * 2 ^ t \<and> m < 2 ^ p)"
proof
  assume exact: "integer_is_exact n p"
  show "\<exists>m t. n = m * 2 ^ t \<and> m < 2 ^ p"
  proof (cases "significant_bits n \<le> p")
    case True
    then have "2 ^ significant_bits n \<le> (2 :: nat) ^ p" by (intro power_increasing) simp_all
    with significant_bits_less [of n] have "n < 2 ^ p" by (rule less_le_trans)
    then show ?thesis by (intro exI [of _ n] exI [of _ 0]) simp
  next
    case False
    let ?t = "significant_bits n - p"
    have "?t \<le> 64" using significant_bits_le [OF assms(1)] by simp
    with exact False have "2 ^ ?t dvd n" by (simp add: integer_is_exact_def Let_def trailing_zeros_iff)
    then obtain m where m: "n = m * 2 ^ ?t" by (auto simp: dvd_def mult.commute)
    have "m * 2 ^ ?t < 2 ^ p * 2 ^ ?t"
      using significant_bits_less [of n] False m by (simp flip: power_add)
    then have "m < 2 ^ p" by simp
    with m show ?thesis by blast
  qed
next
  assume "\<exists>m t. n = m * 2 ^ t \<and> m < 2 ^ p"
  then obtain m t where n: "n = m * 2 ^ t" and m: "m < 2 ^ p" by blast
  show "integer_is_exact n p"
  proof (cases "significant_bits n \<le> p")
    case True
    then show ?thesis by (simp add: integer_is_exact_def Let_def)
  next
    case False
    then have "0 < n" using significant_bits.simps [of n] by (cases "n = 0") auto
    then have "2 ^ (significant_bits n - 1) \<le> n" by (rule significant_bits_ge)
    also have "n < 2 ^ p * 2 ^ t" unfolding n using m by simp
    finally have "significant_bits n - 1 < p + t" by (simp flip: power_add)
    then have "2 ^ (significant_bits n - p) dvd n" unfolding n
      by (intro dvd_mult le_imp_power_dvd) simp
    moreover have "significant_bits n - p \<le> 64" using significant_bits_le [OF assms(1)] by simp
    ultimately show ?thesis by (simp add: integer_is_exact_def Let_def trailing_zeros_iff)
  qed
qed

lemma representable_int_iff:
  assumes "v \<noteq> 0" "\<bar>v\<bar> < 2 ^ 64" "fp_format_ok F" "63 \<le> fp_emax F"
  shows "representable F (of_int v) \<longleftrightarrow> (\<exists>m t. nat \<bar>v\<bar> = m * 2 ^ t \<and> m < 2 ^ fp_precision F)"
proof
  assume "representable F (of_int v)"
  then obtain m e where m: "\<bar>m\<bar> < 2 ^ fp_precision F" and v: "of_int v = of_int m * (2 :: rat) powi e"
    by (auto simp: representable_def)
  show "\<exists>m t. nat \<bar>v\<bar> = m * 2 ^ t \<and> m < 2 ^ fp_precision F"
  proof (cases "0 \<le> e")
    case True
    then have "(of_int v :: rat) = of_int (m * 2 ^ nat e)" using v by (simp add: power_int_def)
    then have "v = m * 2 ^ nat e" by (simp only: of_int_eq_iff)
    then have "nat \<bar>v\<bar> = nat \<bar>m\<bar> * 2 ^ nat e" by (simp add: abs_mult nat_mult_distrib nat_power_eq)
    with m show ?thesis by (intro exI [of _ "nat \<bar>m\<bar>"] exI [of _ "nat e"]) simp
  next
    case False
    then have "(of_int m :: rat) = of_int v * 2 ^ nat (- e)"
      using v by (simp add: power_int_def field_simps)
    then have "(of_int m :: rat) = of_int (v * 2 ^ nat (- e))" by simp
    then have "m = v * 2 ^ nat (- e)" by (simp only: of_int_eq_iff)
    then have "\<bar>m\<bar> = \<bar>v\<bar> * 2 ^ nat (- e)" by (simp add: abs_mult)
    moreover have "\<bar>v\<bar> * 1 \<le> \<bar>v\<bar> * 2 ^ nat (- e)" by (intro mult_left_mono) simp_all
    ultimately have "\<bar>v\<bar> \<le> \<bar>m\<bar>" by simp
    with m show ?thesis by (intro exI [of _ "nat \<bar>v\<bar>"] exI [of _ 0]) simp
  qed
next
  assume "\<exists>m t. nat \<bar>v\<bar> = m * 2 ^ t \<and> m < 2 ^ fp_precision F"
  then obtain m t where v: "nat \<bar>v\<bar> = m * 2 ^ t" and m: "m < 2 ^ fp_precision F" by blast
  have "\<bar>v\<bar> = int (m * 2 ^ t)" by (metis abs_ge_zero nat_0_le v)
  then have "sgn v * \<bar>v\<bar> = (sgn v * int m) * 2 ^ t" by simp
  then have "v = (sgn v * int m) * 2 ^ t" by (simp only: sgn_mult_abs)
  moreover have "\<bar>sgn v * int m\<bar> < 2 ^ fp_precision F"
    using m assms(1) by (simp add: abs_mult)
  moreover have "\<bar>of_int v :: rat\<bar> < 2 powi (fp_emax F + 1)"
  proof -
    have "\<bar>of_int v :: rat\<bar> = of_int \<bar>v\<bar>" by simp
    also have "\<dots> < of_int (2 ^ 64)" using assms(2) by (simp only: of_int_less_iff)
    also have "\<dots> = 2 powi (64 :: int)" by simp
    also have "\<dots> \<le> 2 powi (fp_emax F + 1)" using assms(4) by (intro powi_mono) simp
    finally show ?thesis .
  qed
  ultimately show "representable F (of_int v)" using assms by (intro representable_int [of v]) simp_all
qed

text \<open>A \<open>u64\<close> is far below the largest value of either format.\<close>

lemma fp_round_finite:
  assumes "0 < q" "q \<le> 2 powi k" "k \<le> fp_emax F" "fp_emin F \<le> k" "fp_format_ok F"
  shows "fp_is_finite (fp_round F s q)"
proof -
  let ?u = "fp_uexp F q"
  have "(2 :: rat) powi ilog2 q \<le> 2 powi k" using ilog2_bounds [OF assms(1)] assms(2) by linarith
  then have "ilog2 q \<le> k" by (simp only: powi_le)
  then have u: "?u \<le> k" using assms(4,5) unfolding fp_uexp_def fp_format_ok_def by linarith
  have "(2 :: rat) powi k = 2 powi (k - ?u) * 2 powi ?u" by (simp add: powi_times)
  also have "(2 :: rat) powi (k - ?u) = of_int (2 ^ nat (k - ?u))" using u by (simp add: power_int_def)
  finally have k: "(2 :: rat) powi k = of_int (2 ^ nat (k - ?u)) * fp_ulp F q" by (simp add: fp_ulp_uexp)
  have ulp: "0 < fp_ulp F q" by (simp add: fp_ulp_uexp)
  have "q / fp_ulp F q \<le> of_int (2 ^ nat (k - ?u))"
    using assms(2) ulp unfolding k by (simp add: pos_divide_le_eq)
  then have "round_half_even (q / fp_ulp F q) \<le> 2 ^ nat (k - ?u)" by (rule round_half_even_mono_bounds)
  then have "(of_int (round_half_even (q / fp_ulp F q)) :: rat) \<le> of_int (2 ^ nat (k - ?u))"
    by (simp only: of_int_le_iff)
  then have "of_int (round_half_even (q / fp_ulp F q)) * fp_ulp F q \<le> 2 powi k"
    unfolding k using ulp by (intro mult_right_mono) simp_all
  also have "\<dots> < 2 powi (fp_emax F + 1)" using assms(3) by (simp only: powi_strict)
  finally show ?thesis by (simp add: fp_round_def Let_def)
qed

lemma fp_of_int_finite:
  assumes "\<bar>n\<bar> \<le> 2 ^ 64" "fp_format_ok F" "64 \<le> fp_emax F"
  shows "fp_is_finite (fp_of_int F n)"
proof (cases "n = 0")
  case True
  then show ?thesis by (simp add: fp_of_int_def fp_of_rat_def)
next
  case False
  have "\<bar>of_int n :: rat\<bar> = of_int \<bar>n\<bar>" by simp
  also have "\<dots> \<le> of_int (2 ^ 64)" using assms(1) by (simp only: of_int_le_iff)
  also have "\<dots> = 2 powi (64 :: int)" by simp
  finally have "fp_is_finite (fp_round F (n < 0) \<bar>of_int n\<bar>)"
    using False assms by (intro fp_round_finite [of _ 64]) simp_all
  with False show ?thesis by (simp add: fp_of_int_def fp_of_rat_def)
qed

section \<open>Integer literals\<close>

fun literal_rat :: "ir_literal \<Rightarrow> rat option" where
  "literal_rat (LInt32 i) = Some (of_int i)"
| "literal_rat (LInt64 i) = Some (of_int i)"
| "literal_rat (LUInt32 i) = Some (of_int i)"
| "literal_rat (LUInt64 i) = Some (of_int i)"
| "literal_rat (LFloat32 x) = Some (fp_value x)"
| "literal_rat (LFloat64 x) = Some (fp_value x)"
| "literal_rat _ = None"

text \<open>Whether a type holds an integer exactly, and the literal that stands for it.\<close>

definition fp_exact :: "fp_format \<Rightarrow> int \<Rightarrow> bool" where
  "fp_exact F v \<longleftrightarrow> v = 0 \<or> representable F (of_int v)"

definition holds_exactly :: "logical_type \<Rightarrow> int \<Rightarrow> bool" where
  "holds_exactly t v = (case t of
       TInt32 \<Rightarrow> in_i32 v | TInt64 \<Rightarrow> in_i64 v | TUInt32 \<Rightarrow> in_u32 v | TUInt64 \<Rightarrow> in_u64 v
     | TFloat32 \<Rightarrow> fp_exact binary32 v | TFloat64 \<Rightarrow> fp_exact binary64 v | _ \<Rightarrow> False)"

definition fp_int :: "int \<Rightarrow> fp" where
  "fp_int v = (if v = 0 then FZero False else FNum (of_int v))"

definition exact_literal :: "logical_type \<Rightarrow> int \<Rightarrow> ir_literal" where
  "exact_literal t v = (case t of
       TInt32 \<Rightarrow> LInt32 v | TInt64 \<Rightarrow> LInt64 v | TUInt32 \<Rightarrow> LUInt32 v | TUInt64 \<Rightarrow> LUInt64 v
     | TFloat32 \<Rightarrow> LFloat32 (fp_int v) | _ \<Rightarrow> LFloat64 (fp_int v))"

lemma fp_of_int_fp_int: "fp_exact F v \<Longrightarrow> fp_of_int F v = fp_int v"
  by (auto simp: fp_exact_def fp_of_int_def fp_int_def fp_of_rat_exact dest: representable_nonzero)
    (simp add: fp_of_rat_def)

lemma fp_int_facts [simp]: "fp_value (fp_int v) = of_int v" "fp_is_finite (fp_int v)"
  by (simp_all add: fp_int_def)

lemma fp_ok_fp_int: "fp_exact F v \<Longrightarrow> fp_ok F (fp_int v)"
  by (auto simp: fp_exact_def fp_int_def)

lemma fp_exact_minus [simp]: "fp_exact F (- v) = fp_exact F v"
  by (simp add: fp_exact_def)

lemma fp_exact_iff:
  assumes "n < 2 ^ 64" "fp_format_ok F" "63 \<le> fp_emax F"
  shows "fp_exact F (int n) \<longleftrightarrow> integer_is_exact n (fp_precision F)"
proof (cases "n = 0")
  case True
  then show ?thesis by (simp add: fp_exact_def integer_is_exact_def significant_bits.simps)
next
  case False
  have "0 < fp_precision F" using assms(2) by (simp add: fp_format_ok_def)
  with False assms representable_int_iff [of "int n" F] integer_is_exact_iff [OF assms(1), of "fp_precision F"]
  show ?thesis by (simp add: fp_exact_def)
qed

lemma exact_literal_facts:
  assumes "holds_exactly t v"
  shows "literal_ok (exact_literal t v)" "literal_logical_type (exact_literal t v) = t"
    "literal_rat (exact_literal t v) = Some (of_int v)" "\<not> is_null (exact_literal t v)"
  using assms by (cases t; simp add: holds_exactly_def exact_literal_def fp_ok_fp_int)+

definition integer_value :: "numeric_sign \<Rightarrow> nat \<Rightarrow> int" where
  "integer_value sign magnitude = (if sign = Negative then - int magnitude else int magnitude)"

lemma fp_signed_int:
  "fp_exact F (int n) \<Longrightarrow> fp_signed (neg \<and> n \<noteq> 0) (fp_of_int F (int n)) = fp_int (if neg then - int n else int n)"
  by (auto simp: fp_signed_def fp_of_int_fp_int fp_int_def)

lemma integer_literal_Inr:
  assumes "n < 2 ^ 64"
  shows "integer_literal n sign expected sp SiteExpression = Inr l \<longleftrightarrow>
    (let t = (case expected of Some t \<Rightarrow> t | None \<Rightarrow> TInt64) in
     holds_exactly t (integer_value sign n) \<and> l = exact_literal t (integer_value sign n))"
proof -
  have exact: "integer_is_exact n 24 = fp_exact binary32 (int n)" "integer_is_exact n 53 = fp_exact binary64 (int n)"
    using fp_exact_iff [OF assms, of binary32] fp_exact_iff [OF assms, of binary64]
    by (simp_all add: binary32_def binary64_def fp_format_ok_def)
  have u64: "in_u64 (int n)" using assms by (simp add: in_u64_def)
  define t where "t = (case expected of Some t \<Rightarrow> t | None \<Rightarrow> TInt64)"
  have val: "signed_i128 n (sign = Negative \<and> n \<noteq> 0) = integer_value sign n"
    by (simp add: signed_i128_def integer_value_def)
  have neg: "sign = Negative \<and> n \<noteq> 0 \<Longrightarrow> \<not> in_u32 (integer_value sign n) \<and> \<not> in_u64 (integer_value sign n)"
    "\<not> (sign = Negative \<and> n \<noteq> 0) \<Longrightarrow> integer_value sign n = int n"
    by (auto simp: integer_value_def int_ranges)
  have float: "fp_exact F (integer_value sign n) = fp_exact F (int n)" for F
    by (simp add: integer_value_def)
  have signed: "fp_exact F (int n) \<Longrightarrow>
      fp_signed (sign = Negative \<and> n \<noteq> 0) (fp_of_int F (int n)) = fp_int (integer_value sign n)" for F
    using fp_signed_int [of F n "sign = Negative"] by (simp add: integer_value_def)
  show ?thesis
    unfolding integer_literal_def Let_def t_def [symmetric] val
    using neg float signed exact u64
    by (cases t) (auto simp: holds_exactly_def exact_literal_def in_range_def result_simps)
qed

section \<open>Lossless coercion\<close>

lemma fp_exact_small:
  assumes "\<bar>v\<bar> < 2 ^ 53"
  shows "fp_exact binary64 v"
proof (cases "v = 0")
  case False
  have "\<bar>of_int v :: rat\<bar> < 2 powi (1024 :: int)"
  proof -
    have "\<bar>of_int v :: rat\<bar> = of_int \<bar>v\<bar>" by simp
    also have "\<dots> < of_int (2 ^ 53)" using assms by (simp only: of_int_less_iff)
    also have "\<dots> = 2 powi (53 :: int)" by simp
    also have "\<dots> \<le> 2 powi (1024 :: int)" by (rule powi_mono) simp
    finally show ?thesis .
  qed
  with False assms have "representable binary64 (of_int v)"
    by (intro representable_int [of v v 0]) (simp_all add: binary64_def fp_format_ok_def)
  then show ?thesis by (simp add: fp_exact_def)
qed (simp add: fp_exact_def)

lemma widen_literal_exact:
  assumes "literal_ok l" "widen_literal l t = Some l'"
  shows "literal_ok l' \<and> literal_logical_type l' = t \<and> literal_rat l' = literal_rat l \<and> is_null l' = is_null l"
proof -
  have small: "in_i32 v \<Longrightarrow> fp_exact binary64 v" "in_u32 v \<Longrightarrow> fp_exact binary64 v" for v
    by (intro fp_exact_small; force simp: int_ranges)+
  from assms small show ?thesis
    by (cases l) (auto simp: widen_literal_def fp_of_int_fp_int fp_ok_fp_int fp_ok_widen int_ranges
        split: if_split_asm)
qed

lemma widen_literal_defined:
  "can_widen (literal_logical_type l) t \<Longrightarrow> literal_logical_type l \<noteq> t \<Longrightarrow> widen_literal l t \<noteq> None"
  by (cases l) (auto simp: widen_literal_def)

end
