(* ===== verification/Query_Typing.thy ===== *)
theory Query_Typing
  imports Query_Literal
begin

text \<open>
  Type soundness of the analysis: every expression it produces is well typed and fully folded.
\<close>

section \<open>Well-typed expressions\<close>

definition is_literal :: "ir_expression \<Rightarrow> bool" where
  "is_literal e = (case ir_kind e of IrLiteral _ \<Rightarrow> True | _ \<Rightarrow> False)"

definition arithmetic_op :: "ir_binary_operator \<Rightarrow> bool" where
  "arithmetic_op op \<longleftrightarrow> op \<in> {OpAdd, OpSubtract, OpMultiply, OpDivide}"

definition logical_op :: "ir_binary_operator \<Rightarrow> bool" where
  "logical_op op \<longleftrightarrow> op \<in> {OpAnd, OpOr}"

text \<open>
  The typing rule of a binary node with operands of the type \<open>s\<close> and a result of the type \<open>t\<close>.
\<close>

definition binary_typed :: "ir_binary_operator \<Rightarrow> logical_type \<Rightarrow> logical_type \<Rightarrow> bool" where
  "binary_typed op s t \<longleftrightarrow>
     (if arithmetic_op op then is_numeric s \<and> t = s
      else if logical_op op then s = TBool \<and> t = TBool
      else t = TBool \<and> (is_numeric s \<or> s \<in> {TUtf8, TDatetime, TEid} \<or> s = TBool \<and> op \<in> {OpEqual, OpNotEqual}))"

definition cast_nullability :: "ir_cast_kind \<Rightarrow> ir_expression \<Rightarrow> nullability" where
  "cast_nullability kind e = (if kind = NullOnFailure \<or> kind = Strict \<and> ir_logical_type e = TJson
     then Nullable else ir_nullability e)"

fun ir_ok :: "relation \<Rightarrow> ir_expression \<Rightarrow> bool" where
  "ir_ok r (IrExpression kind t n) = (case kind of
       IrLiteral l \<Rightarrow> literal_ok l \<and> t = literal_logical_type l \<and> n = literal_nullability l
     | IrField f \<Rightarrow> f \<in> set r \<and> t = if_logical_type f \<and> n = if_nullability f
     | IrUnary op e \<Rightarrow> ir_ok r e \<and> \<not> is_literal e \<and> t = ir_logical_type e \<and> n = ir_nullability e \<and>
         (case op of OpNot \<Rightarrow> t = TBool | OpNegate \<Rightarrow> t \<in> {TInt32, TInt64, TFloat32, TFloat64})
     | IrBinary op a b \<Rightarrow> ir_ok r a \<and> ir_ok r b \<and> \<not> (is_literal a \<and> is_literal b) \<and>
         ir_logical_type a = ir_logical_type b \<and> binary_typed op (ir_logical_type a) t \<and>
         n = combine_nullability (ir_nullability a) (ir_nullability b)
     | IrCast k e t' \<Rightarrow> ir_ok r e \<and> t' = t \<and> n = cast_nullability k e \<and>
         (if k = Lossless then is_numeric t \<and> can_widen (ir_logical_type e) t \<and> ir_logical_type e \<noteq> t \<and> \<not> is_literal e
          else cast_is_defined (ir_logical_type e) t)
     | IrRemainder g f key \<Rightarrow> relation_field r ''@rest'' = Some f \<and>
         (case g of RemValue \<Rightarrow> t = TJson \<and> n = Nullable | RemExists \<Rightarrow> t = TBool \<and> n = NonNull)
     | IrNullPredicate e p \<Rightarrow> ir_ok r e \<and> \<not> is_literal e \<and> t = TBool \<and> n = NonNull)"

text \<open>The magnitudes of a syntax tree are \<open>u64\<close> values.\<close>

fun ast_ok :: "ast_expression \<Rightarrow> bool" where
  "ast_ok (AstExpression kind sp) = (case kind of
       AstLiteral l \<Rightarrow> (case al_kind l of LitInteger n \<Rightarrow> n \<le> u64_max | _ \<Rightarrow> True)
     | AstConstructor c \<Rightarrow> (case con_kind c of
           NumericConstructor _ l \<Rightarrow> (case snl_kind l of NumInteger n \<Rightarrow> n \<le> u64_max | _ \<Rightarrow> True) | _ \<Rightarrow> True)
     | AstCast c \<Rightarrow> ast_ok (cast_expression c)
     | AstUnary _ e \<Rightarrow> ast_ok e
     | AstBinary _ a b \<Rightarrow> ast_ok a \<and> ast_ok b
     | _ \<Rightarrow> True)"

lemma ir_ok_literal [simp]: "ir_ok r (expression_literal l) = literal_ok l"
  by (simp add: expression_literal_def)

lemma ir_ok_field [simp]: "ir_ok r (expression_field f) = (f \<in> set r)"
  by (simp add: expression_field_def)

lemma expression_literal_facts [simp]:
  "ir_logical_type (expression_literal l) = literal_logical_type l"
  "ir_nullability (expression_literal l) = literal_nullability l"
  "ir_kind (expression_literal l) = IrLiteral l" "is_literal (expression_literal l)"
  by (simp_all add: expression_literal_def is_literal_def)

lemma ir_ok_is_literal:
  "ir_ok r e \<Longrightarrow> is_literal e \<Longrightarrow> \<exists>l. e = expression_literal l \<and> literal_ok l"
  by (cases e) (auto simp: is_literal_def expression_literal_def split: ir_expression_kind.splits)

lemma not_literal_kind: "\<not> is_literal e \<Longrightarrow> ir_kind e \<noteq> IrLiteral l"
  by (auto simp: is_literal_def)

lemma relation_field_in: "relation_field r n = Some f \<Longrightarrow> f \<in> set r \<and> if_name f = n"
  by (auto simp: relation_field_def find_Some_iff)

section \<open>Folding\<close>

lemma fold_integer_typed:
  assumes "fold_integer P variant op a b sp = Inr (Some l)"
    "\<And>i. P i \<Longrightarrow> literal_ok (variant i)" "\<And>i. literal_logical_type (variant i) = t"
    "binary_typed op s u" "s = t" "is_numeric t"
  shows "literal_ok l \<and> literal_logical_type l = u"
  using assms
  by (cases op) (auto simp: fold_integer_def Let_def result_simps in_range_def checked_int_add_def
      checked_sub_def checked_mul_def checked_div_def binary_typed_def arithmetic_op_def logical_op_def
      split: if_split_asm)

lemma fold_float_typed:
  assumes "fold_float F variant op a b sp = Inr (Some l)" "fp_format_ok F" "fp_ok F a" "fp_ok F b"
    "\<And>x. fp_is_finite x \<Longrightarrow> fp_ok F x \<Longrightarrow> literal_ok (variant x)"
    "\<And>x. literal_logical_type (variant x) = t" "binary_typed op s u" "s = t"
  shows "literal_ok l \<and> literal_logical_type l = u"
  using assms fp_ok_add [of F a b] fp_ok_sub [of F a b] fp_ok_mul [of F a b] fp_ok_div [of F a b]
  by (cases op) (auto simp: fold_float_def Let_def binary_typed_def arithmetic_op_def logical_op_def
      split: if_split_asm)

lemma fold_ordered_typed:
  "fold_ordered op c = Some l \<Longrightarrow> binary_typed op s u \<Longrightarrow> s \<in> {TUtf8, TDatetime, TEid} \<Longrightarrow>
   literal_ok l \<and> literal_logical_type l = u"
  by (cases op) (auto simp: fold_ordered_def binary_typed_def arithmetic_op_def logical_op_def is_numeric_def)

lemma fold_integer_defined: "\<not> logical_op op \<Longrightarrow> fold_integer P v op a b sp \<noteq> Inr None"
  by (cases op) (auto simp: fold_integer_def Let_def logical_op_def result_simps)

lemma fold_float_defined: "\<not> logical_op op \<Longrightarrow> fold_float F v op a b sp \<noteq> Inr None"
  by (cases op) (auto simp: fold_float_def Let_def logical_op_def)

lemma fold_ordered_defined: "\<not> logical_op op \<Longrightarrow> \<not> arithmetic_op op \<Longrightarrow> fold_ordered op c \<noteq> None"
  by (cases op) (auto simp: fold_ordered_def logical_op_def arithmetic_op_def)

lemma numeric_not_logical: "binary_typed op s u \<Longrightarrow> is_numeric s \<Longrightarrow> \<not> logical_op op"
  by (auto simp: binary_typed_def is_numeric_def logical_op_def arithmetic_op_def split: if_split_asm)

lemma fold_literals_typed:
  assumes "fold_literals op l r sp = Inr (Some x)" "literal_ok l" "literal_ok r"
    "binary_typed op (literal_logical_type l) u"
  shows "literal_ok x \<and> literal_logical_type x = u"
proof (cases l; cases r)
  fix a b assume "l = LInt32 a" "r = LInt32 b"
  then show ?thesis using assms
    by (intro fold_integer_typed [of in_i32 LInt32 op a b sp x TInt32]) (simp_all add: fold_literals_def is_numeric_def)
next
  fix a b assume "l = LInt64 a" "r = LInt64 b"
  then show ?thesis using assms
    by (intro fold_integer_typed [of in_i64 LInt64 op a b sp x TInt64]) (simp_all add: fold_literals_def is_numeric_def)
next
  fix a b assume "l = LUInt32 a" "r = LUInt32 b"
  then show ?thesis using assms
    by (intro fold_integer_typed [of in_u32 LUInt32 op a b sp x TUInt32]) (simp_all add: fold_literals_def is_numeric_def)
next
  fix a b assume "l = LUInt64 a" "r = LUInt64 b"
  then show ?thesis using assms
    by (intro fold_integer_typed [of in_u64 LUInt64 op a b sp x TUInt64]) (simp_all add: fold_literals_def is_numeric_def)
next
  fix a b assume "l = LFloat32 a" "r = LFloat32 b"
  then show ?thesis using assms
    by (intro fold_float_typed [of binary32 LFloat32 op a b sp x TFloat32]) (simp_all add: fold_literals_def)
next
  fix a b assume "l = LFloat64 a" "r = LFloat64 b"
  then show ?thesis using assms
    by (intro fold_float_typed [of binary64 LFloat64 op a b sp x TFloat64]) (simp_all add: fold_literals_def)
next
  fix a b assume "l = LBoolean a" "r = LBoolean b"
  then show ?thesis using assms
    by (cases op) (auto simp: fold_literals_def binary_typed_def arithmetic_op_def logical_op_def)
next
  fix a b assume "l = LUtf8 a" "r = LUtf8 b"
  then show ?thesis using assms
    by (intro fold_ordered_typed [of op "cmp a b" x TUtf8]) (simp_all add: fold_literals_def)
next
  fix a b assume "l = LDatetime a" "r = LDatetime b"
  then show ?thesis using assms
    by (intro fold_ordered_typed [of op "cmp a b" x TDatetime]) (simp_all add: fold_literals_def)
next
  fix a b assume "l = LEid a" "r = LEid b"
  then show ?thesis using assms
    by (intro fold_ordered_typed [of op "cmp a b" x TEid]) (simp_all add: fold_literals_def)
qed (use assms in \<open>simp_all add: fold_literals_def\<close>)

lemma fold_literals_defined:
  assumes "literal_logical_type l = literal_logical_type r" "\<not> is_null l" "\<not> is_null r"
    "binary_typed op (literal_logical_type l) u"
  shows "fold_literals op l r sp \<noteq> Inr None"
proof -
  have "is_numeric (literal_logical_type l) \<Longrightarrow> \<not> logical_op op"
    using assms(4) by (rule numeric_not_logical)
  moreover have "literal_logical_type l \<in> {TUtf8, TDatetime, TEid} \<Longrightarrow> \<not> logical_op op \<and> \<not> arithmetic_op op"
    using assms(4) by (auto simp: binary_typed_def is_numeric_def split: if_split_asm)
  moreover have "literal_logical_type l = TBool \<Longrightarrow> op \<in> {OpAnd, OpOr, OpEqual, OpNotEqual}"
    using assms(4) by (auto simp: binary_typed_def is_numeric_def logical_op_def split: if_split_asm)
  ultimately show ?thesis
    using assms(1-3) fold_integer_defined [of op] fold_float_defined [of op] fold_ordered_defined [of op]
    by (cases l; cases r; simp add: fold_literals_def is_numeric_def; (elim disjE)?; simp)
qed

lemma fold_three_valued_typed:
  "fold_three_valued_boolean op l r = Some x \<Longrightarrow> literal_ok x \<and> literal_logical_type x = TBool"
  by (auto simp: fold_three_valued_boolean_def Let_def split: option.splits ir_binary_operator.splits)

lemma fold_binary_typed:
  assumes "fold_binary op a b u sp = Inr (Some e)" "ir_ok r a" "ir_ok r b"
    "binary_typed op (ir_logical_type a) u"
  shows "\<exists>l. e = expression_literal l \<and> literal_ok l \<and> literal_logical_type l = u"
proof -
  from assms(1) have "is_literal a" "is_literal b"
    by (auto simp: fold_binary_def is_literal_def split: ir_expression_kind.splits)
  with assms(2,3) obtain l m where ab: "a = expression_literal l" "literal_ok l"
      "b = expression_literal m" "literal_ok m"
    by (meson ir_ok_is_literal)
  let ?three = "if op = OpAnd \<or> op = OpOr then fold_three_valued_boolean op l m else None"
  show ?thesis
  proof (cases ?three)
    case (Some x)
    then have "literal_logical_type x = TBool \<and> literal_ok x" "op = OpAnd \<or> op = OpOr"
      using fold_three_valued_typed [of op l m x] by (simp_all split: if_split_asm)
    moreover from this(2) assms(4) have "u = TBool" by (auto simp: binary_typed_def arithmetic_op_def logical_op_def)
    ultimately show ?thesis using Some assms(1) by (auto simp: fold_binary_def ab)
  next
    case None
    show ?thesis
    proof (cases "is_null l \<or> is_null m")
      case True
      with None assms(1) have "e = expression_literal (LNull u)" by (simp add: fold_binary_def ab)
      then show ?thesis by (intro exI [of _ "LNull u"]) simp
    next
      case False
      with None assms(1) obtain x where "fold_literals op l m sp = Inr (Some x)" "e = expression_literal x"
        by (auto simp: fold_binary_def ab result_simps)
      with fold_literals_typed [of op l m sp x u] assms(4) ab show ?thesis by auto
    qed
  qed
qed

lemma fold_binary_defined:
  assumes "ir_ok r a" "ir_ok r b" "is_literal a" "is_literal b"
    "ir_logical_type a = ir_logical_type b" "binary_typed op (ir_logical_type a) u"
  shows "fold_binary op a b u sp \<noteq> Inr None"
proof -
  from assms(1-4) obtain l m where ab: "a = expression_literal l" "b = expression_literal m"
    by (meson ir_ok_is_literal)
  with assms(5,6) fold_literals_defined [of l m op u sp]
  show ?thesis by (auto simp: fold_binary_def result_simps split: option.split)
qed

lemma fold_unary_typed:
  assumes "fold_unary op a sp = Inr (Some e)" "ir_ok r a"
    "case op of OpNot \<Rightarrow> ir_logical_type a = TBool | OpNegate \<Rightarrow> ir_logical_type a \<in> {TInt32, TInt64, TFloat32, TFloat64}"
  shows "\<exists>l. e = expression_literal l \<and> literal_ok l \<and> literal_logical_type l = ir_logical_type a"
proof -
  from assms(1) have "is_literal a" by (auto simp: fold_unary_def is_literal_def split: ir_expression_kind.splits)
  with assms(2) obtain l where a: "a = expression_literal l" "literal_ok l" by (meson ir_ok_is_literal)
  with assms show ?thesis
    by (cases op; cases l) (auto simp: fold_unary_def result_simps checked_neg_def in_range_def split: if_split_asm)
qed

lemma fold_unary_defined:
  assumes "ir_ok r a" "is_literal a"
    "case op of OpNot \<Rightarrow> ir_logical_type a = TBool | OpNegate \<Rightarrow> ir_logical_type a \<in> {TInt32, TInt64, TFloat32, TFloat64}"
  shows "fold_unary op a sp \<noteq> Inr None"
proof -
  from assms(1,2) obtain l where "a = expression_literal l" by (meson ir_ok_is_literal)
  with assms(3) show ?thesis by (cases op; cases l) (auto simp: fold_unary_def result_simps)
qed

lemma build_binary_typed:
  assumes "build_binary op a b u sp = Inr e" "ir_ok r a" "ir_ok r b"
    "ir_logical_type a = ir_logical_type b" "binary_typed (binary_operator op) (ir_logical_type a) u"
  shows "ir_ok r e \<and> ir_logical_type e = u"
proof -
  let ?op = "binary_operator op"
  from assms(1) obtain folded where folded: "fold_binary ?op a b u sp = Inr folded"
    and e: "(case folded of Some e \<Rightarrow> Inr e | None \<Rightarrow> Inr (IrExpression (IrBinary ?op a b) u
        (combine_nullability (ir_nullability a) (ir_nullability b)))) = (Inr e :: diagnostic + ir_expression)"
    by (auto simp: build_binary_def Let_def result_simps)
  show ?thesis
  proof (cases folded)
    case (Some x)
    with e folded fold_binary_typed [of ?op a b u sp e r] assms show ?thesis by auto
  next
    case None
    with folded have "\<not> (is_literal a \<and> is_literal b)"
      using fold_binary_defined [of r a b ?op u sp] assms by auto
    with e None assms show ?thesis by auto
  qed
qed

lemma coerce_losslessly_typed:
  assumes "ir_ok r e" "can_widen (ir_logical_type e) t" "is_numeric t"
  shows "ir_ok r (coerce_losslessly e t) \<and> ir_logical_type (coerce_losslessly e t) = t"
proof (cases "ir_logical_type e = t \<or> is_literal e")
  case False
  then have "coerce_losslessly e t = IrExpression (IrCast Lossless e t) t (ir_nullability e)"
    by (auto simp: coerce_losslessly_def is_literal_def split: ir_expression_kind.splits)
  with False assms show ?thesis by (simp add: cast_nullability_def)
next
  case True
  then show ?thesis
  proof (cases "ir_logical_type e = t")
    case False
    with True assms(1) obtain l where l: "e = expression_literal l" "literal_ok l"
      using ir_ok_is_literal by blast
    with False assms(2) widen_literal_defined [of l t] obtain l' where w: "widen_literal l t = Some l'"
      by auto
    with False l have "coerce_losslessly e t = expression_literal l'" by (simp add: coerce_losslessly_def)
    with widen_literal_exact [OF l(2) w] show ?thesis by simp
  qed (simp add: assms coerce_losslessly_def)
qed

lemma common_numeric_type_widens:
  "common_numeric_type a b = Some t \<Longrightarrow> can_widen a t \<and> can_widen b t \<and> is_numeric t"
  by (auto simp: common_numeric_type_def find_Some_iff is_numeric_def nth_Cons' split: if_split_asm)

section \<open>The analysis\<close>

lemma integer_literal_site:
  "integer_literal n sign x sp site = Inr l \<Longrightarrow> integer_literal n sign x sp SiteExpression = Inr l"
  by (auto simp: integer_literal_def Let_def split: logical_type.splits if_split_asm)

lemma integer_literal_typed:
  assumes "n \<le> u64_max" "integer_literal n sign x sp site = Inr l"
  shows "literal_ok l \<and> literal_logical_type l = (case x of Some t \<Rightarrow> t | None \<Rightarrow> TInt64) \<and> \<not> is_null l"
proof -
  have "n < 2 ^ 64" using assms(1) by (simp add: u64_max_def)
  from integer_literal_site [OF assms(2)] exact_literal_facts show ?thesis
    by (auto simp: integer_literal_Inr [OF \<open>n < 2 ^ 64\<close>] Let_def)
qed

lemma fp_signed_facts [simp]:
  "fp_is_finite (fp_signed s x) = fp_is_finite x" "fp_ok F (fp_signed s x) = fp_ok F x"
  by (simp_all add: fp_signed_def)

lemma fp_of_int_u64_finite:
  "n \<le> u64_max \<Longrightarrow> fp_is_finite (fp_of_int binary64 (int n))"
  by (rule fp_of_int_finite) (simp_all add: binary64_def fp_format_ok_def u64_max_def)

lemma convert_literal_typed:
  assumes "case al_kind l of LitInteger n \<Rightarrow> n \<le> u64_max | _ \<Rightarrow> True" "convert_literal l x sp = Inr e"
  shows "ir_ok r e"
proof (cases "al_kind l")
  case (LitInteger n)
  with assms show ?thesis
    by (auto simp: convert_literal_def result_simps dest: integer_literal_typed)
next
  case (LitFloatingPoint v)
  with assms(2) fp_parse_ok [of binary64 v] show ?thesis
    by (auto simp: convert_literal_def result_simps split: if_split_asm)
qed (use assms in \<open>auto simp: convert_literal_def result_simps\<close>)

lemma parse_datetime_typed:
  "chrono_ok C \<Longrightarrow> parse_datetime_with_code C v sp code = Inr ms \<Longrightarrow> in_i64 ms"
  by (auto simp: parse_datetime_with_code_def chrono_ok_def result_simps split: if_split_asm)

lemma floating_constructor_typed:
  "floating_constructor v sign t sp = Inr l \<Longrightarrow> literal_ok l"
  using fp_parse_ok [of binary32 v] fp_parse_ok [of binary64 v]
  by (auto simp: floating_constructor_def Let_def result_simps split: logical_type.splits if_split_asm)

lemma floating_constructor_from_integer_typed:
  "n \<le> u64_max \<Longrightarrow> floating_constructor_from_integer n sign t sp = Inr l \<Longrightarrow> literal_ok l"
  using fp_of_int_u64_finite [of n]
  by (auto simp: floating_constructor_from_integer_def Let_def split: logical_type.splits if_split_asm)

lemma convert_constructor_typed:
  assumes "case con_kind c of NumericConstructor _ l \<Rightarrow> (case snl_kind l of NumInteger n \<Rightarrow> n \<le> u64_max | _ \<Rightarrow> True) | _ \<Rightarrow> True"
    "chrono_ok C" "convert_constructor C c = Inr e"
  shows "ir_ok r e"
proof (cases "con_kind c")
  case (NumericConstructor t l)
  show ?thesis
  proof (cases "snl_kind l")
    case (NumInteger n)
    with NumericConstructor assms show ?thesis
      by (auto simp: convert_constructor_def Let_def result_simps split: if_split_asm
          dest: integer_literal_typed floating_constructor_from_integer_typed)
  next
    case (NumFloatingPoint v)
    with NumericConstructor assms show ?thesis
      by (auto simp: convert_constructor_def Let_def result_simps dest: floating_constructor_typed)
  qed
next
  case (DatetimeConstructor v)
  with assms show ?thesis
    by (auto simp: convert_constructor_def result_simps parse_datetime_literal_def dest: parse_datetime_typed)
next
  case (EidConstructor v)
  with assms(3) event_id.enc_dec [of "sl_value v"] show ?thesis
    by (auto simp: convert_constructor_def result_simps)
qed

text \<open>\<open>conv\<close> yields well-typed expressions on \<open>e\<close>.\<close>

definition conv_typed :: "relation \<Rightarrow> converter \<Rightarrow> ast_expression \<Rightarrow> bool" where
  "conv_typed r conv e \<longleftrightarrow> (\<forall>x ir. conv e x = Inr ir \<longrightarrow> ir_ok r ir)"

lemma conv_typedD: "conv_typed r conv e \<Longrightarrow> conv e x = Inr ir \<Longrightarrow> ir_ok r ir"
  by (simp add: conv_typed_def)

lemma convert_cast_typed:
  assumes "conv_typed r conv (cast_expression c)" "convert_cast conv c = Inr e"
  shows "ir_ok r e"
proof -
  let ?t = "from_ast_logical_type (cast_target c)"
  from assms(2) obtain x a where a: "conv (cast_expression c) x = Inr a"
    and cast: "cast_is_defined (ir_logical_type a) ?t"
    and e: "e = expression_literal (LNull ?t) \<or>
      (\<exists>k. k \<noteq> Lossless \<and> e = IrExpression (IrCast k a ?t) ?t (cast_nullability k a))"
    by (cases "cast_kind c")
      (auto simp: convert_cast_def Let_def result_simps cast_nullability_def split: if_split_asm)
  have "ir_ok r a" using assms(1) a by (rule conv_typedD)
  with e cast show ?thesis by auto
qed

lemma convert_remainder_typed: "convert_remainder a r = Inr e \<Longrightarrow> ir_ok r e"
  by (cases "rem_function a") (auto simp: convert_remainder_def result_simps)

lemma unary_operator_typed:
  "unary_operator op t sp = Inr op' \<Longrightarrow>
   case op' of OpNot \<Rightarrow> t = TBool | OpNegate \<Rightarrow> t \<in> {TInt32, TInt64, TFloat32, TFloat64}"
  by (auto simp: unary_operator_def split: ast_unary_operator.splits if_split_asm)

lemma convert_unary_typed:
  assumes "conv_typed r conv a" "ast_ok a" "convert_unary conv op a sp x = Inr e"
  shows "ir_ok r e"
proof (cases "if op = AstNegate
    then (case ast_kind a of AstLiteral l \<Rightarrow> (case al_kind l of LitInteger m \<Rightarrow> Some m | _ \<Rightarrow> None) | _ \<Rightarrow> None)
    else None")
  case (Some m)
  then have "m \<le> u64_max" using assms(2)
    by (cases a) (auto split: if_split_asm ast_expression_kind.splits literal_kind.splits)
  with assms(3) Some show ?thesis
    by (auto simp: convert_unary_def result_simps dest: integer_literal_typed)
next
  case None
  then obtain y b op' folded where b: "conv a y = Inr b"
    and op': "unary_operator op (ir_logical_type b) sp = Inr op'"
    and folded: "fold_unary op' b sp = Inr folded"
    and e: "(case folded of Some e \<Rightarrow> Inr e | None \<Rightarrow> Inr (IrExpression (IrUnary op' b) (ir_logical_type b)
        (ir_nullability b))) = (Inr e :: diagnostic + ir_expression)"
    using assms(3) by (auto simp: convert_unary_def result_simps)
  have ok: "ir_ok r b" using assms(1) b by (rule conv_typedD)
  note typed = unary_operator_typed [OF op']
  show ?thesis
  proof (cases folded)
    case (Some y)
    with e folded fold_unary_typed [OF _ ok typed, of sp e] show ?thesis by auto
  next
    case None
    with folded fold_unary_defined [OF ok _ typed, of sp] have "\<not> is_literal b" by auto
    with e None ok typed show ?thesis by auto
  qed
qed

lemma convert_null_predicate_typed:
  assumes "conv_typed r conv a" "convert_null_predicate conv op a sp = Inr e"
  shows "ir_ok r e"
proof -
  from assms(2) obtain b p where b: "conv a None = Inr b"
    and e: "(case ir_kind b of
        IrLiteral l \<Rightarrow> Inr (expression_literal (LBoolean (is_null l = (p = IsNull))))
      | _ \<Rightarrow> Inr (IrExpression (IrNullPredicate b p) TBool NonNull)) = (Inr e :: diagnostic + ir_expression)"
    by (auto simp: convert_null_predicate_def Let_def result_simps split: if_split_asm)
  have "ir_ok r b" using assms(1) b by (rule conv_typedD)
  with e show ?thesis by (cases "ir_kind b") (auto simp: is_literal_def)
qed

lemma convert_contextual_pair_typed:
  assumes "conv_typed r conv a" "conv_typed r conv b" "convert_contextual_pair conv a b x = Inr (l, m)"
  shows "ir_ok r l \<and> ir_ok r m"
  using assms(3) conv_typedD [OF assms(1)] conv_typedD [OF assms(2)]
  by (auto simp: convert_contextual_pair_def Let_def result_simps split: bool.splits if_split_asm)

lemma convert_numeric_pair_typed:
  assumes "conv_typed r conv a" "conv_typed r conv b" "convert_numeric_pair conv a b x sp = Inr (l, m, t)"
  shows "ir_ok r l \<and> ir_ok r m \<and> ir_logical_type l = t \<and> ir_logical_type m = t \<and> is_numeric t"
proof -
  from assms(3) obtain l0 m0 where pair: "convert_contextual_pair conv a b x = Inr (l0, m0)"
    and t: "common_numeric_type (ir_logical_type l0) (ir_logical_type m0) = Some t"
    and lm: "l = coerce_losslessly l0 t" "m = coerce_losslessly m0 t"
    by (auto simp: convert_numeric_pair_def result_simps split: if_split_asm)
  from convert_contextual_pair_typed [OF assms(1,2) pair] common_numeric_type_widens [OF t]
    coerce_losslessly_typed [of r l0 t] coerce_losslessly_typed [of r m0 t] lm
  show ?thesis by simp
qed

lemma convert_comparison_pair_typed:
  assumes "conv_typed r conv a" "conv_typed r conv b" "convert_comparison_pair conv a b op sp = Inr (l, m)"
    "\<not> is_arithmetic op" "op \<notin> {AstAnd, AstOr}"
  shows "ir_ok r l \<and> ir_ok r m \<and> ir_logical_type l = ir_logical_type m \<and>
    binary_typed (binary_operator op) (ir_logical_type l) TBool"
proof -
  from assms(3) obtain l0 m0 where pair: "convert_contextual_pair conv a b None = Inr (l0, m0)"
    and cases: "(\<exists>t. common_numeric_type (ir_logical_type l0) (ir_logical_type m0) = Some t \<and>
        l = coerce_losslessly l0 t \<and> m = coerce_losslessly m0 t) \<or>
      l = l0 \<and> m = m0 \<and> ir_logical_type l = ir_logical_type m \<and>
        (ir_logical_type l \<in> {TUtf8, TDatetime, TEid} \<or> ir_logical_type l = TBool \<and> op \<in> {AstEqual, AstNotEqual})"
    by (auto simp: convert_comparison_pair_def Let_def result_simps split: if_split_asm)
  have op: "\<not> arithmetic_op (binary_operator op)" "\<not> logical_op (binary_operator op)"
    using assms(4,5) by (cases op; simp add: arithmetic_op_def logical_op_def is_arithmetic_def)+
  note ok = convert_contextual_pair_typed [OF assms(1,2) pair]
  from cases show ?thesis
  proof
    assume "\<exists>t. common_numeric_type (ir_logical_type l0) (ir_logical_type m0) = Some t \<and>
        l = coerce_losslessly l0 t \<and> m = coerce_losslessly m0 t"
    then obtain t where t: "common_numeric_type (ir_logical_type l0) (ir_logical_type m0) = Some t"
      and lm: "l = coerce_losslessly l0 t" "m = coerce_losslessly m0 t" by blast
    with ok common_numeric_type_widens [OF t] coerce_losslessly_typed [of r l0 t]
      coerce_losslessly_typed [of r m0 t] op
    show ?thesis by (simp add: binary_typed_def)
  next
    assume same: "l = l0 \<and> m = m0 \<and> ir_logical_type l = ir_logical_type m \<and>
        (ir_logical_type l \<in> {TUtf8, TDatetime, TEid} \<or> ir_logical_type l = TBool \<and> op \<in> {AstEqual, AstNotEqual})"
    with ok op show ?thesis by (auto simp: binary_typed_def)
  qed
qed

lemma convert_binary_typed:
  assumes "conv_typed r conv a" "conv_typed r conv b" "convert_binary conv op a b sp x = Inr e"
  shows "ir_ok r e"
proof -
  consider "convert_null_predicate conv op a sp = Inr e" | "convert_null_predicate conv op b sp = Inr e"
    | (logic) l m where "op \<in> {AstAnd, AstOr}" "conv a (Some TBool) = Inr l" "conv b (Some TBool) = Inr m"
        "ir_logical_type l = TBool" "ir_logical_type m = TBool" "build_binary op l m TBool sp = Inr e"
    | (arith) l m t y where "is_arithmetic op" "convert_numeric_pair conv a b y sp = Inr (l, m, t)"
        "build_binary op l m t sp = Inr e"
    | (comp) l m where "\<not> is_arithmetic op" "op \<notin> {AstAnd, AstOr}"
        "convert_comparison_pair conv a b op sp = Inr (l, m)" "build_binary op l m TBool sp = Inr e"
    using assms(3) by (auto simp: convert_binary_def result_simps split: if_split_asm)
  then show ?thesis
  proof cases
    case logic
    then have "binary_typed (binary_operator op) (ir_logical_type l) TBool"
      by (auto simp: binary_typed_def arithmetic_op_def logical_op_def)
    with logic assms(1,2) build_binary_typed [of op l m TBool sp e r] show ?thesis by (auto dest: conv_typedD)
  next
    case arith
    note pair = convert_numeric_pair_typed [OF assms(1,2) arith(2)]
    with arith(1) have "binary_typed (binary_operator op) (ir_logical_type l) t"
      by (auto simp: binary_typed_def arithmetic_op_def is_arithmetic_def)
    with pair arith(3) build_binary_typed [of op l m t sp e r] show ?thesis by auto
  next
    case comp
    note pair = convert_comparison_pair_typed [OF assms(1,2) comp(3,1,2)]
    with comp(4) build_binary_typed [of op l m TBool sp e r] show ?thesis by auto
  qed (use assms convert_null_predicate_typed in blast)+
qed

lemma convert_expression_with_expected_typed:
  "chrono_ok C \<Longrightarrow> ast_ok e \<Longrightarrow> convert_expression_with_expected C r e x = Inr ir \<Longrightarrow> ir_ok r ir"
proof (induction "size e" arbitrary: e x ir rule: less_induct)
  case less
  obtain kind sp where e: "e = AstExpression kind sp" by (cases e)
  have sub: "conv_typed r (convert_expression_with_expected C r) a" if "size a < size e" "ast_ok a" for a
    unfolding conv_typed_def using less.hyps [OF that(1) less.prems(1) that(2)] by blast
  show ?case
  proof (cases kind)
    case (AstLiteral l)
    with less.prems e show ?thesis by (auto intro: convert_literal_typed)
  next
    case (AstField f)
    with less.prems e show ?thesis
      by (auto simp: result_simps resolve_field_def dest: relation_field_in)
  next
    case (AstConstructor c)
    with less.prems e show ?thesis by (auto intro: convert_constructor_typed)
  next
    case (AstCast c)
    with less.prems e sub [of "cast_expression c"] size_cast_expression [of c] show ?thesis
      by (auto intro: convert_cast_typed)
  next
    case (AstRemainder a)
    with less.prems e show ?thesis by (auto intro: convert_remainder_typed)
  next
    case (AstUnary op a)
    with less.prems e sub [of a] show ?thesis by (auto intro: convert_unary_typed)
  next
    case (AstBinary op a b)
    with less.prems e sub [of a] sub [of b] show ?thesis by (auto intro: convert_binary_typed)
  qed
qed

end
