(* ===== verification/Catalog_Schema.thy ===== *)
theory Catalog_Schema
  imports Catalog_Value
begin

text \<open>
  Schemas (\<open>elucid-catalog/src/schema.rs\<close>): user fields, and their materialization with the four
  system fields into the fields of a schema and of its Arrow schema. The text of a UUID, which
  the Arrow metadata carries, belongs to the \<open>uuid\<close> package and is the parameter
  \<open>uuid_to_string\<close>. A \<open>HashSet\<close> is a set; \<open>insert\<close> returns whether the element is new.
\<close>

section \<open>Fields\<close>

record user_field =
  uf_id :: uuid
  uf_name :: string
  uf_logical_type :: user_logical_type
  uf_nullability :: nullability
  uf_description :: "string option"
  uf_historical_remainder_pointer :: "json_pointer option"

definition user_field_new ::
  "uuid \<Rightarrow> string \<Rightarrow> user_logical_type \<Rightarrow> nullability \<Rightarrow> catalog_model_error + user_field" where
  "user_field_new field_id name logical_type nullability =
     (if is_system field_id then Inl (SystemFieldIdentityIsReserved field_id)
      else Inr \<lparr>uf_id = field_id, uf_name = name, uf_logical_type = logical_type,
                uf_nullability = nullability, uf_description = None,
                uf_historical_remainder_pointer = None\<rparr>)"

definition with_description :: "string \<Rightarrow> user_field \<Rightarrow> user_field" where
  "with_description description f = f\<lparr>uf_description := Some description\<rparr>"

definition with_historical_remainder_pointer ::
  "json_pointer \<Rightarrow> user_field \<Rightarrow> catalog_model_error + user_field" where
  "with_historical_remainder_pointer pointer f =
     (if uf_nullability f \<noteq> Nullable
      then Inl (HistoricalRemainderPointerRequiresNullableField (uf_id f))
      else Inr (f\<lparr>uf_historical_remainder_pointer := Some pointer\<rparr>))"

text \<open>The invariant of \<open>UserField\<close>, whose name is a validated \<open>UserFieldName\<close>.\<close>

definition user_field_ok :: "user_field \<Rightarrow> bool" where
  "user_field_ok f \<longleftrightarrow> \<not> is_system (uf_id f) \<and> is_valid_name (uf_name f) \<and>
     (uf_historical_remainder_pointer f \<noteq> None \<longrightarrow> uf_nullability f = Nullable)"

lemma user_field_new_ok:
  "is_valid_name name \<Longrightarrow> user_field_new i name t n = Inr f \<Longrightarrow> user_field_ok f"
  by (auto simp: user_field_new_def user_field_ok_def split: if_split_asm)

lemma with_description_ok: "user_field_ok f \<Longrightarrow> user_field_ok (with_description d f)"
  by (simp add: with_description_def user_field_ok_def)

lemma with_historical_remainder_pointer_ok:
  "user_field_ok f \<Longrightarrow> with_historical_remainder_pointer p f = Inr g \<Longrightarrow> user_field_ok g"
  by (auto simp: with_historical_remainder_pointer_def user_field_ok_def split: if_split_asm)

record field =
  fld_id :: uuid
  fld_name :: string
  fld_logical_type :: logical_type
  fld_nullability :: nullability
  fld_role :: field_role
  fld_ordinal :: nat
  fld_description :: "string option"
  fld_historical_remainder_pointer :: "json_pointer option"

definition field_system ::
  "uuid \<Rightarrow> string \<Rightarrow> logical_type \<Rightarrow> nullability \<Rightarrow> field_role \<Rightarrow> nat \<Rightarrow> catalog_model_error + field" where
  "field_system field_id name logical_type nullability role ordinal =
     sbind (field_ordinal_from_index ordinal) (\<lambda>ordinal.
     Inr \<lparr>fld_id = field_id, fld_name = name, fld_logical_type = logical_type,
          fld_nullability = nullability, fld_role = role, fld_ordinal = ordinal,
          fld_description = None, fld_historical_remainder_pointer = None\<rparr>)"

definition field_user :: "user_field \<Rightarrow> nat \<Rightarrow> catalog_model_error + field" where
  "field_user f ordinal =
     sbind (field_ordinal_from_index ordinal) (\<lambda>ordinal.
     Inr \<lparr>fld_id = uf_id f, fld_name = uf_name f,
          fld_logical_type = user_logical_type_into (uf_logical_type f),
          fld_nullability = uf_nullability f, fld_role = RoleData, fld_ordinal = ordinal,
          fld_description = uf_description f,
          fld_historical_remainder_pointer = uf_historical_remainder_pointer f\<rparr>)"

record arrow_field =
  af_name :: string
  af_data_type :: arrow_data_type
  af_nullable :: bool
  af_metadata :: "string \<rightharpoonup> string"

definition FIELD_ID_METADATA_KEY :: string where
  "FIELD_ID_METADATA_KEY = ''elucid.field_id''"

definition LOGICAL_TYPE_METADATA_KEY :: string where
  "LOGICAL_TYPE_METADATA_KEY = ''elucid.logical_type''"

definition field_to_arrow :: "(uuid \<Rightarrow> string) \<Rightarrow> field \<Rightarrow> arrow_field" where
  "field_to_arrow uuid_to_string f =
     (let metadata = Map.empty(FIELD_ID_METADATA_KEY \<mapsto> uuid_to_string (fld_id f));
          metadata = (case logical_type_metadata_value (fld_logical_type f) of
              Some value \<Rightarrow> metadata(LOGICAL_TYPE_METADATA_KEY \<mapsto> value) | None \<Rightarrow> metadata)
      in \<lparr>af_name = fld_name f, af_data_type = logical_type_arrow_data_type (fld_logical_type f),
          af_nullable = is_nullable (fld_nullability f), af_metadata = metadata\<rparr>)"

section \<open>Schemas\<close>

record schema =
  sc_id :: uuid
  sc_source_id :: uuid
  sc_version :: nat
  sc_digests :: definition_digests
  sc_fields :: "field list"
  sc_arrow_schema :: "arrow_field list"

fun validate_unique_fields ::
  "uuid set \<Rightarrow> string set \<Rightarrow> user_field list \<Rightarrow> catalog_model_error + unit" where
  "validate_unique_fields identities names [] = Inr ()"
| "validate_unique_fields identities names (f # fs) =
     (if uf_id f \<in> identities then Inl (DuplicateFieldIdentity (uf_id f))
      else if uf_name f \<in> names then Inl (DuplicateFieldName (uf_name f))
      else validate_unique_fields (insert (uf_id f) identities) (insert (uf_name f) names) fs)"

definition validate_unique_user_fields :: "user_field list \<Rightarrow> catalog_model_error + unit" where
  "validate_unique_user_fields user_fields = validate_unique_fields {} {} user_fields"

definition materialize_user_fields ::
  "(uuid \<Rightarrow> string) \<Rightarrow> user_field list \<Rightarrow> catalog_model_error + field list \<times> arrow_field list" where
  "materialize_user_fields uuid_to_string user_fields =
     sbind (validate_unique_user_fields user_fields) (\<lambda>_.
     sbind (ok_or (checked_add (length user_fields) 4) FieldOrdinalOverflow) (\<lambda>field_capacity.
     sbind (field_ordinal_from_index (field_capacity - 1)) (\<lambda>_.
     sbind (field_system field_id_event_time ''@event_time'' TDatetime NonNull RoleEventTime 0)
       (\<lambda>event_time.
     sbind (field_system field_id_ingestion_time ''@ingestion_time'' TDatetime NonNull
              RoleIngestionTime 1) (\<lambda>ingestion_time.
     sbind (field_system field_id_event_id ''@event_id'' TEid NonNull RoleEventId 2) (\<lambda>event_id.
     sbind (traverse (\<lambda>(index, f).
              sbind (ok_or (checked_add index 3) FieldOrdinalOverflow) (\<lambda>ordinal. field_user f ordinal))
              (enumerate 0 user_fields)) (\<lambda>data.
     let fields = [event_time, ingestion_time, event_id] @ data in
     sbind (field_system field_id_remainder ''@rest'' TJson Nullable RoleRemainder (length fields))
       (\<lambda>remainder.
     let fields = fields @ [remainder] in
     Inr (fields, map (field_to_arrow uuid_to_string) fields)))))))))"

definition schema_new ::
  "(uuid \<Rightarrow> string) \<Rightarrow> uuid \<Rightarrow> uuid \<Rightarrow> nat \<Rightarrow> definition_digests \<Rightarrow> user_field list \<Rightarrow>
   catalog_model_error + schema" where
  "schema_new uuid_to_string schema_id source_id version digests user_fields =
     sbind (materialize_user_fields uuid_to_string user_fields) (\<lambda>(fields, arrow_schema).
     Inr \<lparr>sc_id = schema_id, sc_source_id = source_id, sc_version = version, sc_digests = digests,
          sc_fields = fields, sc_arrow_schema = arrow_schema\<rparr>)"

definition schema_field :: "schema \<Rightarrow> uuid \<Rightarrow> field option" where
  "schema_field s field_id = find (\<lambda>f. fld_id f = field_id) (sc_fields s)"

definition data_fields :: "schema \<Rightarrow> field list" where
  "data_fields s = filter (\<lambda>f. fld_role f = RoleData) (sc_fields s)"

section \<open>Materialization\<close>

lemma validate_unique_fields_Inr:
  "validate_unique_fields ids names fs = Inr u \<longleftrightarrow>
   distinct (map uf_id fs) \<and> distinct (map uf_name fs) \<and>
   uf_id ` set fs \<inter> ids = {} \<and> uf_name ` set fs \<inter> names = {}"
  by (induction fs arbitrary: ids names) (auto)

definition data_field_of :: "user_field \<Rightarrow> nat \<Rightarrow> field" where
  "data_field_of f ordinal =
     \<lparr>fld_id = uf_id f, fld_name = uf_name f,
      fld_logical_type = user_logical_type_into (uf_logical_type f),
      fld_nullability = uf_nullability f, fld_role = RoleData, fld_ordinal = ordinal,
      fld_description = uf_description f,
      fld_historical_remainder_pointer = uf_historical_remainder_pointer f\<rparr>"

definition system_field_of :: "uuid \<Rightarrow> string \<Rightarrow> logical_type \<Rightarrow> nullability \<Rightarrow> field_role \<Rightarrow> nat \<Rightarrow> field" where
  "system_field_of i name t n role ordinal =
     \<lparr>fld_id = i, fld_name = name, fld_logical_type = t, fld_nullability = n, fld_role = role,
      fld_ordinal = ordinal, fld_description = None, fld_historical_remainder_pointer = None\<rparr>"

text \<open>The fields of a schema, in closed form.\<close>

definition schema_fields_of :: "user_field list \<Rightarrow> field list" where
  "schema_fields_of fs =
     [system_field_of field_id_event_time ''@event_time'' TDatetime NonNull RoleEventTime 0,
      system_field_of field_id_ingestion_time ''@ingestion_time'' TDatetime NonNull RoleIngestionTime 1,
      system_field_of field_id_event_id ''@event_id'' TEid NonNull RoleEventId 2] @
     map (\<lambda>(i, f). data_field_of f (i + 3)) (enumerate 0 fs) @
     [system_field_of field_id_remainder ''@rest'' TJson Nullable RoleRemainder (length fs + 3)]"

lemma i32_max_le_u64_max: "i32_max + 4 \<le> u64_max"
  by (simp add: i32_max_def u64_max_def)

lemma traverse_data_fields:
  assumes "length fs + 3 \<le> i32_max"
  shows "traverse (\<lambda>(index, f).
      sbind (ok_or (checked_add index 3) FieldOrdinalOverflow) (\<lambda>ordinal. field_user f ordinal))
      (enumerate 0 fs) = Inr (map (\<lambda>(i, f). data_field_of f (i + 3)) (enumerate 0 fs))"
proof -
  have "i + 3 \<le> i32_max \<and> i + 3 \<le> u64_max" if "i < length fs" for i
    using that assms i32_max_le_u64_max by linarith
  then show ?thesis
    unfolding traverse_eq_Inr list_all2_conv_all_nth
    by (auto simp: nth_enumerate_eq checked_add_def field_user_def field_ordinal_from_index_def
        data_field_of_def)
qed

lemma materialize_user_fields_Inr:
  "materialize_user_fields to_s fs = Inr (flds, arrow) \<longleftrightarrow>
   distinct (map uf_id fs) \<and> distinct (map uf_name fs) \<and> length fs + 3 \<le> i32_max \<and>
   flds = schema_fields_of fs \<and> arrow = map (field_to_arrow to_s) flds"
proof (cases "distinct (map uf_id fs) \<and> distinct (map uf_name fs) \<and> length fs + 3 \<le> i32_max")
  case True
  then have ok: "validate_unique_fields {} {} fs = Inr ()" "length fs + 3 \<le> i32_max"
    by (simp_all add: validate_unique_fields_Inr)
  from ok(2) i32_max_le_u64_max have add: "checked_add (length fs) 4 = Some (length fs + 4)"
    by (simp add: checked_add_def)
  have three: "Suc (Suc (Suc n)) = n + 3" for n by simp
  have "0 \<le> i32_max" "Suc 0 \<le> i32_max" "2 \<le> i32_max" by (simp_all add: i32_max_def)
  with ok add have "materialize_user_fields to_s fs =
      Inr (schema_fields_of fs, map (field_to_arrow to_s) (schema_fields_of fs))"
    by (simp add: materialize_user_fields_def validate_unique_user_fields_def
        traverse_data_fields field_system_def
        field_ordinal_from_index_def schema_fields_of_def system_field_of_def Let_def three)
  with True show ?thesis by auto
next
  case False
  then show ?thesis
    by (auto simp: materialize_user_fields_def validate_unique_user_fields_def result_simps
        validate_unique_fields_Inr field_ordinal_from_index_def split: if_split_asm)
qed

text \<open>What every materialized schema satisfies.\<close>

definition schema_ok :: "schema \<Rightarrow> bool" where
  "schema_ok s \<longleftrightarrow>
     distinct (map fld_id (sc_fields s)) \<and> distinct (map fld_name (sc_fields s)) \<and>
     map fld_ordinal (sc_fields s) = [0..<length (sc_fields s)] \<and>
     map fld_role (sc_fields s) = [RoleEventTime, RoleIngestionTime, RoleEventId] @
       replicate (length (sc_fields s) - 4) RoleData @ [RoleRemainder] \<and>
     list_all (\<lambda>f. (fld_role f = RoleData) = (\<not> is_system (fld_id f))) (sc_fields s) \<and>
     list_all (\<lambda>f. fld_role f = RoleData \<longrightarrow> fld_logical_type f \<noteq> TEid \<and> fld_logical_type f \<noteq> TJson)
       (sc_fields s)"

lemma map_data_fields [simp]:
  "map fld_id (map (\<lambda>(i, f). data_field_of f (i + 3)) (enumerate n fs)) = map uf_id fs"
  "map fld_name (map (\<lambda>(i, f). data_field_of f (i + 3)) (enumerate n fs)) = map uf_name fs"
  "map fld_ordinal (map (\<lambda>(i, f). data_field_of f (i + 3)) (enumerate n fs)) = [n + 3..<n + 3 + length fs]"
  by (induction fs arbitrary: n) (simp_all add: data_field_of_def upt_conv_Cons ac_simps del: upt_Suc)

lemma schema_fields_of_ids:
  "map fld_id (schema_fields_of fs) =
   [field_id_event_time, field_id_ingestion_time, field_id_event_id] @ map uf_id fs @ [field_id_remainder]"
  by (simp add: schema_fields_of_def system_field_of_def del: map_map)

lemma schema_fields_of_names:
  "map fld_name (schema_fields_of fs) =
   [''@event_time'', ''@ingestion_time'', ''@event_id''] @ map uf_name fs @ [''@rest'']"
  by (simp add: schema_fields_of_def system_field_of_def del: map_map)

lemma schema_fields_of_ordinals:
  "map fld_ordinal (schema_fields_of fs) = [0..<length (schema_fields_of fs)]"
proof -
  have "[0..<3 + Suc (length fs)] = [0..<3] @ [3..<3 + Suc (length fs)]"
    by (rule upt_add_eq_append) simp
  moreover have "[0..<3] = [0, 1, 2 :: nat]" by code_simp
  moreover have "[3..<3 + Suc (length fs)] = [3..<3 + length fs] @ [3 + length fs]"
    unfolding add_Suc_right by (rule upt_Suc_append) simp
  ultimately have upt: "[0..<3 + Suc (length fs)] = [0, 1, 2] @ [3..<3 + length fs] @ [3 + length fs]"
    by (simp only: append_assoc)
  have data: "map fld_ordinal (map (\<lambda>(i, f). data_field_of f (i + 3)) (enumerate 0 fs)) = [3..<3 + length fs]"
    by (simp only: map_data_fields add_0)
  have len: "length (schema_fields_of fs) = 3 + Suc (length fs)"
    by (simp add: schema_fields_of_def)
  show ?thesis
    unfolding len upt unfolding schema_fields_of_def map_append data
    by (simp add: system_field_of_def)
qed

lemma schema_fields_of_role_list:
  "map fld_role (schema_fields_of fs) = [RoleEventTime, RoleIngestionTime, RoleEventId] @
     replicate (length (schema_fields_of fs) - 4) RoleData @ [RoleRemainder]"
proof -
  have "map fld_role (map (\<lambda>(i, f). data_field_of f (i + 3)) (enumerate n fs)) =
      replicate (length fs) RoleData" for n
    by (induction fs arbitrary: n) (simp_all add: data_field_of_def)
  then show ?thesis by (simp add: schema_fields_of_def system_field_of_def del: map_map)
qed

lemma schema_fields_of_data:
  "filter (\<lambda>f. fld_role f = RoleData) (schema_fields_of fs) =
   map (\<lambda>(i, f). data_field_of f (i + 3)) (enumerate 0 fs)"
  by (auto simp: schema_fields_of_def system_field_of_def filter_map comp_def case_prod_beta
      data_field_of_def)

lemma user_field_ids_not_system:
  "list_all user_field_ok fs \<Longrightarrow> i \<in> uf_id ` set fs \<Longrightarrow> \<not> is_system i"
  by (auto simp: list_all_iff user_field_ok_def)

lemma user_field_names_valid:
  "list_all user_field_ok fs \<Longrightarrow> n \<in> uf_name ` set fs \<Longrightarrow> is_valid_name n"
  by (auto simp: list_all_iff user_field_ok_def)

lemma schema_new_Inr:
  "schema_new to_s i src v d fs = Inr s \<longleftrightarrow>
   distinct (map uf_id fs) \<and> distinct (map uf_name fs) \<and> length fs + 3 \<le> i32_max \<and>
   s = \<lparr>sc_id = i, sc_source_id = src, sc_version = v, sc_digests = d,
        sc_fields = schema_fields_of fs,
        sc_arrow_schema = map (field_to_arrow to_s) (schema_fields_of fs)\<rparr>"
proof (cases "materialize_user_fields to_s fs")
  case (Inl e)
  then show ?thesis
    using materialize_user_fields_Inr [of to_s fs "schema_fields_of fs" "map (field_to_arrow to_s) (schema_fields_of fs)"]
    by (auto simp: schema_new_def)
next
  case (Inr p)
  then show ?thesis
    using materialize_user_fields_Inr [of to_s fs "fst p" "snd p"]
    by (auto simp: schema_new_def case_prod_beta)
qed

lemma at_name_invalid: "\<not> is_valid_name (CHR ''@'' # name)"
  using valid_name_not_system [of "CHR ''@'' # name"] by auto

lemma schema_fields_of_roles:
  assumes "list_all user_field_ok fs" "f \<in> set (schema_fields_of fs)"
  shows "(fld_role f = RoleData) = (\<not> is_system (fld_id f))"
    "fld_role f = RoleData \<Longrightarrow> fld_logical_type f \<noteq> TEid \<and> fld_logical_type f \<noteq> TJson"
proof -
  have data: "\<not> is_system (uf_id u)" if "(i, u) \<in> set (enumerate 0 fs)" for i u
    using that assms(1) by (auto simp: list_all_iff user_field_ok_def in_set_enumerate_eq)
  have type: "user_logical_type_into t \<noteq> TEid \<and> user_logical_type_into t \<noteq> TJson" for t
    by (cases t) simp_all
  show "(fld_role f = RoleData) = (\<not> is_system (fld_id f))"
    using assms(2) data
    by (auto simp: schema_fields_of_def system_field_of_def data_field_of_def is_system_def)
  show "fld_logical_type f \<noteq> TEid \<and> fld_logical_type f \<noteq> TJson" if "fld_role f = RoleData"
    using assms(2) that type
    by (auto simp: schema_fields_of_def system_field_of_def data_field_of_def)
qed

lemma schema_new_ok:
  assumes ok: "list_all user_field_ok fs" and new: "schema_new to_s i src v d fs = Inr s"
  shows "schema_ok s"
proof -
  from new have d: "distinct (map uf_id fs)" "distinct (map uf_name fs)"
    and s: "sc_fields s = schema_fields_of fs"
    by (simp_all add: schema_new_Inr)
  have "distinct (map fld_id (schema_fields_of fs))"
    using d(1) system_field_ids_distinct user_field_ids_not_system [OF ok]
    by (auto simp: schema_fields_of_ids is_system_def)
  moreover have "CHR ''@'' # n \<notin> uf_name ` set fs" for n
    using user_field_names_valid [OF ok, of "CHR ''@'' # n"] at_name_invalid by blast
  with d(2) have "distinct (map fld_name (schema_fields_of fs))"
    by (simp add: schema_fields_of_names)
  ultimately show ?thesis
    using schema_fields_of_roles [OF ok]
    by (auto simp: schema_ok_def s schema_fields_of_ordinals schema_fields_of_role_list list_all_iff)
qed

text \<open>Lookup by identity.\<close>

lemma schema_field_iff:
  assumes "schema_ok s"
  shows "schema_field s i = Some f \<longleftrightarrow> f \<in> set (sc_fields s) \<and> fld_id f = i"
proof -
  have "distinct (map fld_id fs) \<Longrightarrow>
      find (\<lambda>f. fld_id f = i) fs = Some f \<longleftrightarrow> f \<in> set fs \<and> fld_id f = i" for fs
    by (induction fs) (auto simp: rev_image_eqI)
  with assms show ?thesis by (simp add: schema_ok_def schema_field_def)
qed

lemma data_fields_schema_new:
  "schema_new to_s i src v d fs = Inr s \<Longrightarrow>
   data_fields s = map (\<lambda>(i, f). data_field_of f (i + 3)) (enumerate 0 fs)"
  by (simp add: schema_new_Inr data_fields_def schema_fields_of_data)

text \<open>The data fields of a schema carry the ordinals that follow the three leading system fields.\<close>

lemma data_fields_ordinals:
  assumes "schema_ok s"
  shows "map fld_ordinal (data_fields s) = [3..<3 + length (data_fields s)]"
proof -
  define n where "n = length (sc_fields s) - 4"
  from assms have roles: "map fld_role (sc_fields s) =
      [RoleEventTime, RoleIngestionTime, RoleEventId] @ replicate n RoleData @ [RoleRemainder]"
    and ords: "map fld_ordinal (sc_fields s) = [0..<length (sc_fields s)]"
    by (simp_all add: schema_ok_def n_def)
  from roles obtain a b c rest where fields: "sc_fields s = a # b # c # rest"
    and abc: "fld_role a = RoleEventTime" "fld_role b = RoleIngestionTime" "fld_role c = RoleEventId"
    and rest: "map fld_role rest = replicate n RoleData @ [RoleRemainder]"
    by (auto simp: map_eq_Cons_conv)
  from rest obtain ds r where ds: "rest = ds @ [r]" "map fld_role ds = replicate n RoleData"
    and r: "fld_role r = RoleRemainder"
    by (auto simp: map_eq_append_conv map_eq_Cons_conv)
  have "\<forall>d \<in> set ds. fld_role d = RoleData"
    using ds(2) by (metis in_set_replicate image_eqI list.set_map)
  then have data: "data_fields s = ds"
    using fields abc ds r by (simp add: data_fields_def)
  have "map fld_ordinal ds ! i = 3 + i" if "i < length ds" for i
    using arg_cong [OF ords, of "\<lambda>xs. xs ! Suc (Suc (Suc i))"] that
    by (simp add: fields ds nth_append del: upt_Suc)
  then show ?thesis unfolding data by (intro nth_equalityI) simp_all
qed

text \<open>The Arrow field determines the field's identity, name, logical type and nullability.\<close>

lemma field_to_arrow_eq:
  assumes "inj to_s" "field_to_arrow to_s f = field_to_arrow to_s g"
  shows "fld_id f = fld_id g" "fld_name f = fld_name g" "fld_logical_type f = fld_logical_type g"
    "fld_nullability f = fld_nullability g"
proof -
  have keys: "FIELD_ID_METADATA_KEY \<noteq> LOGICAL_TYPE_METADATA_KEY"
    by (simp add: FIELD_ID_METADATA_KEY_def LOGICAL_TYPE_METADATA_KEY_def)
  have id: "af_metadata (field_to_arrow to_s h) FIELD_ID_METADATA_KEY = Some (to_s (fld_id h))" for h
    using keys by (simp add: field_to_arrow_def Let_def split: option.split)
  have ty: "af_metadata (field_to_arrow to_s h) LOGICAL_TYPE_METADATA_KEY =
      logical_type_metadata_value (fld_logical_type h)" for h
    using keys by (simp add: field_to_arrow_def Let_def split: option.split)
  from id [of f] id [of g] assms show "fld_id f = fld_id g" by (simp add: inj_eq)
  have "af_name (field_to_arrow to_s h) = fld_name h" for h by (simp add: field_to_arrow_def Let_def)
  from this [of f] this [of g] assms(2) show "fld_name f = fld_name g" by simp
  have dt: "af_data_type (field_to_arrow to_s h) = logical_type_arrow_data_type (fld_logical_type h)" for h
    by (simp add: field_to_arrow_def Let_def)
  from dt [of f] dt [of g] ty [of f] ty [of g] assms(2) show "fld_logical_type f = fld_logical_type g"
    by (intro arrow_type_and_metadata_inject) simp_all
  have "af_nullable (field_to_arrow to_s h) = is_nullable (fld_nullability h)" for h
    by (simp add: field_to_arrow_def Let_def)
  from this [of f] this [of g] assms(2) show "fld_nullability f = fld_nullability g"
    by (cases "fld_nullability f"; cases "fld_nullability g") simp_all
qed

end
