(* ===== verification/Catalog_Source.thy ===== *)
theory Catalog_Source
  imports Catalog_Schema
begin

text \<open>
  Inputs with their ingestion profiles (\<open>elucid-catalog/src/input.rs\<close>) and sources with their
  schema history (\<open>elucid-catalog/src/source.rs\<close>). The validations are loops that stop at the
  first error; the lemmas say in closed form what they accept.
\<close>

section \<open>Inputs and ingestion profiles\<close>

datatype event_time_format = Rfc3339 | UnixMilliseconds

primrec event_time_format_as_str :: "event_time_format \<Rightarrow> string" where
  "event_time_format_as_str Rfc3339 = ''RFC3339''"
| "event_time_format_as_str UnixMilliseconds = ''UNIX_MILLISECONDS''"

record field_mapping =
  fm_target_field_id :: uuid
  fm_json_pointer :: json_pointer

definition field_mapping_new :: "uuid \<Rightarrow> json_pointer \<Rightarrow> catalog_model_error + field_mapping" where
  "field_mapping_new target_field_id pointer =
     (if is_system target_field_id then Inl (SystemFieldCannotBeMapped target_field_id)
      else Inr \<lparr>fm_target_field_id = target_field_id, fm_json_pointer = pointer\<rparr>)"

record event_time_mapping =
  et_json_pointer :: json_pointer
  et_format :: event_time_format

record ingestion_profile =
  ip_maximum_record_bytes :: nat
  ip_event_time :: event_time_mapping
  ip_mappings :: "field_mapping list"

fun unique_targets :: "uuid set \<Rightarrow> field_mapping list \<Rightarrow> catalog_model_error + unit" where
  "unique_targets targets [] = Inr ()"
| "unique_targets targets (m # ms) =
     (if fm_target_field_id m \<in> targets
      then Inl (DuplicateProfileMappingTarget (fm_target_field_id m))
      else unique_targets (insert (fm_target_field_id m) targets) ms)"

definition ingestion_profile_new ::
  "nat \<Rightarrow> event_time_mapping \<Rightarrow> field_mapping list \<Rightarrow> catalog_model_error + ingestion_profile" where
  "ingestion_profile_new maximum_record_bytes event_time mappings =
     sbind (unique_targets {} mappings) (\<lambda>_.
     Inr \<lparr>ip_maximum_record_bytes = maximum_record_bytes, ip_event_time = event_time,
          ip_mappings = mappings\<rparr>)"

record ingestion_profile_revision =
  pr_id :: uuid
  pr_input_id :: uuid
  pr_revision :: nat
  pr_target_schema_id :: uuid
  pr_digests :: definition_digests
  pr_profile :: ingestion_profile

record input =
  in_id :: uuid
  in_source_id :: uuid
  in_name :: string
  in_digests :: definition_digests
  in_profile_revisions :: "ingestion_profile_revision list"
  in_active_profile_revision_index :: nat

text \<open>The loop of \<open>Input::new\<close>; it returns \<open>active_profile_revision_index\<close>.\<close>

fun validate_revisions ::
  "uuid \<Rightarrow> uuid \<Rightarrow> nat \<Rightarrow> uuid set \<Rightarrow> nat option \<Rightarrow> nat option \<Rightarrow> ingestion_profile_revision list \<Rightarrow>
   catalog_model_error + nat option" where
  "validate_revisions input_id active_id index ids active previous [] = Inr active"
| "validate_revisions input_id active_id index ids active previous (r # rs) =
     (if pr_input_id r \<noteq> input_id
      then Inl (ProfileRevisionInputMismatch (pr_id r) input_id (pr_input_id r))
      else case (case previous of Some p \<Rightarrow> if pr_revision r \<le> p then Some p else None | None \<Rightarrow> None) of
        Some p \<Rightarrow> Inl (ProfileRevisionsMustIncrease p (pr_revision r))
      | None \<Rightarrow>
         if pr_id r \<in> ids then Inl (DuplicateProfileRevisionIdentity (pr_id r))
         else validate_revisions input_id active_id (index + 1) (insert (pr_id r) ids)
           (if pr_id r = active_id then Some index else active) (Some (pr_revision r)) rs)"

definition input_new ::
  "uuid \<Rightarrow> uuid \<Rightarrow> string \<Rightarrow> definition_digests \<Rightarrow> uuid \<Rightarrow> ingestion_profile_revision list \<Rightarrow>
   catalog_model_error + input" where
  "input_new input_id source_id name digests active_id revisions =
     (if revisions = [] then Inl (EmptyProfileRevisionHistory input_id)
      else sbind (validate_revisions input_id active_id 0 {} None None revisions) (\<lambda>active.
        sbind (ok_or active (ActiveProfileRevisionNotFound input_id active_id)) (\<lambda>index.
        Inr \<lparr>in_id = input_id, in_source_id = source_id, in_name = name, in_digests = digests,
             in_profile_revisions = revisions, in_active_profile_revision_index = index\<rparr>)))"

definition active_profile_revision :: "input \<Rightarrow> ingestion_profile_revision" where
  "active_profile_revision i = in_profile_revisions i ! in_active_profile_revision_index i"

section \<open>Schema evolution\<close>

definition schema_history_incompatible ::
  "schema \<Rightarrow> schema \<Rightarrow> schema_incompatibility \<Rightarrow> catalog_model_error + unit" where
  "schema_history_incompatible earlier later reason =
     Inl (SchemaHistoryIncompatible (sc_version earlier) (sc_version later) reason)"

definition preserves_field :: "schema \<Rightarrow> schema \<Rightarrow> field \<Rightarrow> field \<Rightarrow> catalog_model_error + unit" where
  "preserves_field earlier later e l =
     (if fld_id e \<noteq> fld_id l \<or> fld_name e \<noteq> fld_name l
      then schema_history_incompatible earlier later
        (ExistingFieldNotPreserved (fld_id e) (fld_name e) (fld_ordinal e))
      else if fld_logical_type e \<noteq> fld_logical_type l
      then schema_history_incompatible earlier later
        (IncompatibleLogicalType (fld_id e) (fld_name e) (fld_logical_type e) (fld_logical_type l))
      else if fld_nullability e \<noteq> fld_nullability l
      then schema_history_incompatible earlier later
        (IncompatibleNullability (fld_id e) (fld_name e) (fld_nullability e) (fld_nullability l))
      else if fld_historical_remainder_pointer e \<noteq> fld_historical_remainder_pointer l
      then schema_history_incompatible earlier later
        (IncompatibleHistoricalRemainderPointer (fld_id e) (fld_name e)
          (fld_historical_remainder_pointer e) (fld_historical_remainder_pointer l))
      else Inr ())"

text \<open>The two loops share the iterator \<open>later_fields\<close>.\<close>

fun additive_fields :: "schema \<Rightarrow> schema \<Rightarrow> field list \<Rightarrow> field list \<Rightarrow> catalog_model_error + unit" where
  "additive_fields earlier later (e # es) [] =
     schema_history_incompatible earlier later
       (ExistingFieldNotPreserved (fld_id e) (fld_name e) (fld_ordinal e))"
| "additive_fields earlier later (e # es) (l # ls) =
     sbind (preserves_field earlier later e l) (\<lambda>_. additive_fields earlier later es ls)"
| "additive_fields earlier later [] ls =
     for_each (\<lambda>f. if fld_nullability f \<noteq> Nullable
       then schema_history_incompatible earlier later (AppendedFieldMustBeNullable (fld_id f) (fld_name f))
       else Inr ()) ls"

definition validate_additive_schema_evolution :: "schema \<Rightarrow> schema \<Rightarrow> catalog_model_error + unit" where
  "validate_additive_schema_evolution earlier later =
     additive_fields earlier later (data_fields earlier) (data_fields later)"

fun validate_windows :: "schema list \<Rightarrow> catalog_model_error + unit" where
  "validate_windows (a # b # rest) =
     sbind (validate_additive_schema_evolution a b) (\<lambda>_. validate_windows (b # rest))"
| "validate_windows _ = Inr ()"

fun validate_field_identities ::
  "(uuid \<rightharpoonup> string) \<Rightarrow> (string \<rightharpoonup> uuid) \<Rightarrow> field list \<Rightarrow>
   catalog_model_error + (uuid \<rightharpoonup> string) \<times> (string \<rightharpoonup> uuid)" where
  "validate_field_identities names_by_id ids_by_name [] = Inr (names_by_id, ids_by_name)"
| "validate_field_identities names_by_id ids_by_name (f # fs) =
     sbind (case names_by_id (fld_id f) of
         Some previous_name \<Rightarrow>
           if previous_name \<noteq> fld_name f
           then Inl (FieldIdentityReusedWithDifferentName (fld_id f) previous_name (fld_name f))
           else Inr names_by_id
       | None \<Rightarrow> Inr (names_by_id(fld_id f \<mapsto> fld_name f))) (\<lambda>names_by_id.
     sbind (case ids_by_name (fld_name f) of
         Some previous_field_id \<Rightarrow>
           if previous_field_id \<noteq> fld_id f
           then Inl (FieldNameReusedWithDifferentIdentity (fld_name f) previous_field_id (fld_id f))
           else Inr ids_by_name
       | None \<Rightarrow> Inr (ids_by_name(fld_name f \<mapsto> fld_id f))) (\<lambda>ids_by_name.
     validate_field_identities names_by_id ids_by_name fs))"

definition validate_historical_field_identity ::
  "schema \<Rightarrow> (uuid \<rightharpoonup> string) \<Rightarrow> (string \<rightharpoonup> uuid) \<Rightarrow>
   catalog_model_error + (uuid \<rightharpoonup> string) \<times> (string \<rightharpoonup> uuid)" where
  "validate_historical_field_identity s names_by_id ids_by_name =
     validate_field_identities names_by_id ids_by_name (data_fields s)"

text \<open>The first loop of \<open>validate_schema_history\<close>.\<close>

fun validate_schemas ::
  "uuid \<Rightarrow> uuid \<Rightarrow> nat \<Rightarrow> (uuid \<rightharpoonup> nat) \<Rightarrow> nat option \<Rightarrow> (uuid \<rightharpoonup> string) \<Rightarrow> (string \<rightharpoonup> uuid) \<Rightarrow>
   nat option \<Rightarrow> schema list \<Rightarrow> catalog_model_error + (uuid \<rightharpoonup> nat) \<times> nat option" where
  "validate_schemas source_id active_id index indexes active names_by_id ids_by_name previous [] =
     Inr (indexes, active)"
| "validate_schemas source_id active_id index indexes active names_by_id ids_by_name previous (s # ss) =
     (if sc_source_id s \<noteq> source_id
      then Inl (SchemaSourceMismatch (sc_id s) source_id (sc_source_id s))
      else case (case previous of Some p \<Rightarrow> if sc_version s \<le> p then Some p else None | None \<Rightarrow> None) of
        Some p \<Rightarrow> Inl (SchemaVersionsMustIncrease p (sc_version s))
      | None \<Rightarrow>
         if indexes (sc_id s) \<noteq> None then Inl (DuplicateSchemaIdentity (sc_id s))
         else sbind (validate_historical_field_identity s names_by_id ids_by_name)
           (\<lambda>(names_by_id, ids_by_name).
           validate_schemas source_id active_id (index + 1) (indexes(sc_id s \<mapsto> index))
             (if sc_id s = active_id then Some index else active)
             names_by_id ids_by_name (Some (sc_version s)) ss))"

definition validate_schema_history ::
  "uuid \<Rightarrow> uuid \<Rightarrow> schema list \<Rightarrow> catalog_model_error + (uuid \<rightharpoonup> nat) \<times> nat" where
  "validate_schema_history source_id active_schema_id schemas =
     sbind (validate_schemas source_id active_schema_id 0 Map.empty None Map.empty Map.empty None schemas)
       (\<lambda>(schema_indexes, active).
     sbind (validate_windows schemas) (\<lambda>_.
     sbind (ok_or active (ActiveSchemaNotFound source_id active_schema_id)) (\<lambda>active_schema_index.
     Inr (schema_indexes, active_schema_index))))"

section \<open>Sources\<close>

definition validate_profile_mappings ::
  "ingestion_profile_revision \<Rightarrow> schema \<Rightarrow> catalog_model_error + unit" where
  "validate_profile_mappings revision s =
     sbind (for_each (\<lambda>m.
         if (case schema_field s (fm_target_field_id m) of Some f \<Rightarrow> fld_role f = RoleData | None \<Rightarrow> False)
         then Inr ()
         else Inl (ProfileMappingTargetNotFound (pr_id revision) (sc_id s) (fm_target_field_id m)))
       (ip_mappings (pr_profile revision))) (\<lambda>_.
     for_each (\<lambda>f.
         if list_ex (\<lambda>m. fm_target_field_id m = fld_id f) (ip_mappings (pr_profile revision))
         then Inr ()
         else Inl (ProfileMappingMissing (pr_id revision) (sc_id s) (fld_id f)))
       (filter (\<lambda>f. fld_role f = RoleData \<and> fld_nullability f = NonNull) (sc_fields s)))"

fun validate_inputs_from ::
  "uuid \<Rightarrow> (uuid \<rightharpoonup> nat) \<Rightarrow> schema list \<Rightarrow> uuid set \<Rightarrow> string set \<Rightarrow> input list \<Rightarrow>
   catalog_model_error + unit" where
  "validate_inputs_from source_id schema_indexes schemas ids names [] = Inr ()"
| "validate_inputs_from source_id schema_indexes schemas ids names (i # is) =
     (if in_source_id i \<noteq> source_id then Inl (InputSourceMismatch (in_id i) source_id (in_source_id i))
      else if in_id i \<in> ids then Inl (DuplicateInputIdentity (in_id i))
      else if in_name i \<in> names then Inl (DuplicateInputName (in_name i))
      else sbind (for_each (\<lambda>r. case schema_indexes (pr_target_schema_id r) of
             None \<Rightarrow> Inl (ProfileTargetSchemaNotFound (pr_id r) (pr_target_schema_id r))
           | Some schema_index \<Rightarrow> validate_profile_mappings r (schemas ! schema_index))
           (in_profile_revisions i)) (\<lambda>_.
         validate_inputs_from source_id schema_indexes schemas (insert (in_id i) ids)
           (insert (in_name i) names) is))"

definition validate_inputs ::
  "uuid \<Rightarrow> (uuid \<rightharpoonup> nat) \<Rightarrow> schema list \<Rightarrow> input list \<Rightarrow> catalog_model_error + unit" where
  "validate_inputs source_id schema_indexes schemas inputs =
     validate_inputs_from source_id schema_indexes schemas {} {} inputs"

record source =
  src_id :: uuid
  src_name :: string
  src_display_name :: string
  src_declaration_digest :: bytes
  src_schemas :: "schema list"
  src_active_schema_index :: nat
  src_inputs :: "input list"

definition source_new ::
  "uuid \<Rightarrow> string \<Rightarrow> string \<Rightarrow> bytes \<Rightarrow> uuid \<Rightarrow> schema list \<Rightarrow> input list \<Rightarrow>
   catalog_model_error + source" where
  "source_new source_id name display_name declaration_digest active_schema_id schemas inputs =
     (if schemas = [] then Inl EmptySchemaHistory
      else sbind (validate_schema_history source_id active_schema_id schemas)
        (\<lambda>(schema_indexes, active_schema_index).
      sbind (validate_inputs source_id schema_indexes schemas inputs) (\<lambda>_.
      Inr \<lparr>src_id = source_id, src_name = name, src_display_name = display_name,
           src_declaration_digest = declaration_digest, src_schemas = schemas,
           src_active_schema_index = active_schema_index, src_inputs = inputs\<rparr>)))"

definition active_schema :: "source \<Rightarrow> schema" where
  "active_schema s = src_schemas s ! src_active_schema_index s"

definition source_schema :: "source \<Rightarrow> uuid \<Rightarrow> schema option" where
  "source_schema s schema_id = find (\<lambda>sc. sc_id sc = schema_id) (src_schemas s)"

definition source_input :: "source \<Rightarrow> uuid \<Rightarrow> input option" where
  "source_input s input_id = find (\<lambda>i. in_id i = input_id) (src_inputs s)"

section \<open>What a profile and an input accept\<close>

lemma unique_targets_Inr:
  "unique_targets ts ms = Inr u \<longleftrightarrow>
   distinct (map fm_target_field_id ms) \<and> fm_target_field_id ` set ms \<inter> ts = {}"
  by (induction ms arbitrary: ts) auto

lemma ingestion_profile_new_Inr:
  "ingestion_profile_new n et ms = Inr p \<longleftrightarrow>
   distinct (map fm_target_field_id ms) \<and>
   p = \<lparr>ip_maximum_record_bytes = n, ip_event_time = et, ip_mappings = ms\<rparr>"
  by (auto simp: ingestion_profile_new_def result_simps unique_targets_Inr)

text \<open>The index map that the history loops build: position of each identity.\<close>

definition index_map :: "nat \<Rightarrow> 'k list \<Rightarrow> 'k \<rightharpoonup> nat" where
  "index_map n ks = map_of (zip ks [n..<n + length ks])"

lemma index_map_Nil [simp]: "index_map n [] = Map.empty"
  by (simp add: index_map_def)

lemma index_map_Cons: "index_map n (k # ks) = (index_map (Suc n) ks)(k \<mapsto> n)"
  by (simp add: index_map_def upt_conv_Cons del: upt_Suc)

lemma index_map_Some:
  "distinct ks \<Longrightarrow> index_map n ks k = Some i \<longleftrightarrow> n \<le> i \<and> i < n + length ks \<and> ks ! (i - n) = k"
proof (induction ks arbitrary: n)
  case (Cons a ks)
  then show ?case
    by (cases "i = n") (auto simp: index_map_Cons nth_Cons' Suc_diff_le split: if_split_asm)
qed simp

lemma index_map_None: "index_map n ks k = None \<longleftrightarrow> k \<notin> set ks"
  by (induction ks arbitrary: n) (simp_all add: index_map_Cons)

lemma index_map_step:
  assumes "k \<notin> set ks"
  shows "((\<lambda>j. if k = j then Some n else m j) ++ index_map (Suc n) ks) j = (m ++ index_map n (k # ks)) j"
  using assms [folded index_map_None [of "Suc n"]]
  by (auto simp: map_add_def index_map_Cons split: option.split)

lemma sorted_wrt_less2 [simp]:
  "sorted_wrt (<) (x # y # zs) \<longleftrightarrow> x < y \<and> sorted_wrt (<) (y # zs)" for x :: nat
  by (auto dest: less_trans)

lemma validate_revisions_Inr:
  "validate_revisions i a n ids act prev rs = Inr act' \<longleftrightarrow>
   (\<forall>r \<in> set rs. pr_input_id r = i) \<and>
   sorted_wrt (<) ((case prev of Some p \<Rightarrow> [p] | None \<Rightarrow> []) @ map pr_revision rs) \<and>
   distinct (map pr_id rs) \<and> pr_id ` set rs \<inter> ids = {} \<and>
   act' = ((\<lambda>_. act) ++ index_map n (map pr_id rs)) a"
proof (induction rs arbitrary: n ids act prev)
  case Nil
  then show ?case by (auto simp: map_add_def split: option.split)
next
  case (Cons r rs)
  let ?bad = "case prev of Some p \<Rightarrow> if pr_revision r \<le> p then Some p else None | None \<Rightarrow> None"
  have ok: "?bad = None \<longleftrightarrow> (\<forall>p. prev = Some p \<longrightarrow> p < pr_revision r)"
    by (auto split: option.split)
  have sorted: "sorted_wrt (<) ((case prev of Some p \<Rightarrow> [p] | None \<Rightarrow> []) @ map pr_revision (r # rs)) \<longleftrightarrow>
      ?bad = None \<and> sorted_wrt (<) ([pr_revision r] @ map pr_revision rs)"
    unfolding ok by (cases prev) (auto dest: less_trans)
  have act: "((\<lambda>_. if pr_id r = a then Some n else act) ++ index_map (n + 1) (map pr_id rs)) a =
      ((\<lambda>_. act) ++ index_map n (map pr_id (r # rs))) a" if "pr_id r \<notin> set (map pr_id rs)"
    using index_map_step [OF that, of n "\<lambda>_. act" a] by (simp add: map_add_def)
  show ?case
  proof (cases "pr_input_id r = i \<and> ?bad = None \<and> pr_id r \<notin> ids")
    case True
    then have eq: "validate_revisions i a n ids act prev (r # rs) =
        validate_revisions i a (n + 1) (insert (pr_id r) ids) (if pr_id r = a then Some n else act)
          (Some (pr_revision r)) rs" by simp
    show ?thesis unfolding eq Cons.IH sorted using True act by auto
  next
    case False
    then have "validate_revisions i a n ids act prev (r # rs) \<noteq> Inr act'"
      by (auto simp del: split_paired_All split: option.split)
    with False show ?thesis unfolding sorted by auto
  qed
qed

lemma input_new_Inr:
  "input_new i src name d a rs = Inr inp \<longleftrightarrow>
   (\<forall>r \<in> set rs. pr_input_id r = i) \<and> sorted_wrt (<) (map pr_revision rs) \<and>
   distinct (map pr_id rs) \<and>
   (\<exists>k < length rs. pr_id (rs ! k) = a \<and>
     inp = \<lparr>in_id = i, in_source_id = src, in_name = name, in_digests = d,
            in_profile_revisions = rs, in_active_profile_revision_index = k\<rparr>)"
proof -
  have "input_new i src name d a rs = Inr inp \<longleftrightarrow>
     (\<forall>r \<in> set rs. pr_input_id r = i) \<and> sorted_wrt (<) (map pr_revision rs) \<and>
     distinct (map pr_id rs) \<and> rs \<noteq> [] \<and>
     (\<exists>k. index_map 0 (map pr_id rs) a = Some k \<and>
       inp = \<lparr>in_id = i, in_source_id = src, in_name = name, in_digests = d,
              in_profile_revisions = rs, in_active_profile_revision_index = k\<rparr>)"
    by (auto simp: input_new_def result_simps validate_revisions_Inr map_add_def split: option.split_asm)
  then show ?thesis by (auto simp: index_map_Some)
qed

section \<open>What a schema history accepts\<close>

definition field_key :: "field \<Rightarrow> uuid \<times> string \<times> logical_type \<times> nullability \<times> json_pointer option" where
  "field_key f = (fld_id f, fld_name f, fld_logical_type f, fld_nullability f,
     fld_historical_remainder_pointer f)"

text \<open>\<open>later\<close> keeps the data fields of \<open>earlier\<close> in place and appends only nullable ones.\<close>

definition additive :: "schema \<Rightarrow> schema \<Rightarrow> bool" where
  "additive earlier later \<longleftrightarrow>
     length (data_fields earlier) \<le> length (data_fields later) \<and>
     take (length (data_fields earlier)) (map field_key (data_fields later)) =
       map field_key (data_fields earlier) \<and>
     list_all (\<lambda>f. fld_nullability f = Nullable) (drop (length (data_fields earlier)) (data_fields later))"

lemma preserves_field_Inr: "preserves_field earlier later e l = Inr u \<longleftrightarrow> field_key e = field_key l"
  by (auto simp: preserves_field_def schema_history_incompatible_def field_key_def)

lemma additive_fields_Inr:
  "additive_fields earlier later es ls = Inr u \<longleftrightarrow>
   length es \<le> length ls \<and> take (length es) (map field_key ls) = map field_key es \<and>
   list_all (\<lambda>f. fld_nullability f = Nullable) (drop (length es) ls)"
  by (induction earlier later es ls rule: additive_fields.induct)
    (auto simp: result_simps preserves_field_Inr for_each_eq_Inr list_all_iff
      schema_history_incompatible_def)

lemma validate_additive_schema_evolution_Inr:
  "validate_additive_schema_evolution earlier later = Inr u \<longleftrightarrow> additive earlier later"
  by (simp add: validate_additive_schema_evolution_def additive_fields_Inr additive_def)

lemma additive_nth:
  assumes "additive a b" "n < length (data_fields a)"
  shows "n < length (data_fields b)" "field_key (data_fields b ! n) = field_key (data_fields a ! n)"
proof -
  from assms show "n < length (data_fields b)" by (simp add: additive_def)
  moreover from assms have "take (length (data_fields a)) (map field_key (data_fields b)) ! n =
      map field_key (data_fields a) ! n" by (simp add: additive_def)
  ultimately show "field_key (data_fields b ! n) = field_key (data_fields a ! n)"
    using assms(2) by simp
qed

lemma additiveI:
  assumes "length (data_fields a) \<le> length (data_fields b)"
    and "\<And>n. n < length (data_fields a) \<Longrightarrow> field_key (data_fields b ! n) = field_key (data_fields a ! n)"
    and "\<And>n. length (data_fields a) \<le> n \<Longrightarrow> n < length (data_fields b) \<Longrightarrow>
      fld_nullability (data_fields b ! n) = Nullable"
  shows "additive a b"
  unfolding additive_def
proof (intro conjI)
  show "take (length (data_fields a)) (map field_key (data_fields b)) = map field_key (data_fields a)"
    using assms(1,2) by (intro nth_equalityI) simp_all
  show "list_all (\<lambda>f. fld_nullability f = Nullable) (drop (length (data_fields a)) (data_fields b))"
    using assms(1,3) by (simp add: list_all_length)
qed (rule assms(1))

lemma additive_appended:
  assumes "additive a b" "length (data_fields a) \<le> n" "n < length (data_fields b)"
  shows "fld_nullability (data_fields b ! n) = Nullable"
proof -
  from assms(1) have "\<forall>i < length (data_fields b) - length (data_fields a).
      fld_nullability (data_fields b ! (length (data_fields a) + i)) = Nullable"
    by (simp add: additive_def list_all_length)
  from this [rule_format, of "n - length (data_fields a)"] assms(2,3) show ?thesis by simp
qed

lemma additive_trans:
  assumes "additive a b" "additive b c"
  shows "additive a c"
proof (rule additiveI)
  show "length (data_fields a) \<le> length (data_fields c)"
    using assms by (auto simp: additive_def)
next
  fix n assume "n < length (data_fields a)"
  then show "field_key (data_fields c ! n) = field_key (data_fields a ! n)"
    using additive_nth [OF assms(1)] additive_nth [OF assms(2)] by simp
next
  fix n assume n: "length (data_fields a) \<le> n" "n < length (data_fields c)"
  show "fld_nullability (data_fields c ! n) = Nullable"
  proof (cases "n < length (data_fields b)")
    case True
    with n additive_appended [OF assms(1)] have "fld_nullability (data_fields b ! n) = Nullable" by simp
    with additive_nth [OF assms(2) True] show ?thesis by (simp add: field_key_def)
  next
    case False
    with n additive_appended [OF assms(2)] show ?thesis by simp
  qed
qed

lemma validate_windows_Inr: "validate_windows ss = Inr u \<longleftrightarrow> sorted_wrt additive ss"
proof (induction ss rule: validate_windows.induct)
  case (1 a b rest)
  then show ?case
    by (auto simp: result_simps validate_additive_schema_evolution_Inr intro: additive_trans)
qed simp_all

text \<open>Identities and names of data fields stay in one-to-one correspondence.\<close>

definition name_pairs :: "field list \<Rightarrow> (uuid \<times> string) set" where
  "name_pairs fs = (\<lambda>f. (fld_id f, fld_name f)) ` set fs"

definition one_to_one :: "('a \<times> 'b) set \<Rightarrow> bool" where
  "one_to_one r \<longleftrightarrow> single_valued r \<and> single_valued (r\<inverse>)"

lemma one_to_one_subset: "one_to_one r \<Longrightarrow> s \<subseteq> r \<Longrightarrow> one_to_one s"
  unfolding one_to_one_def by (meson converse_mono single_valued_subset)

lemma one_to_one_insertD:
  assumes "one_to_one (insert (a, b) r)"
  shows "(a, n) \<in> r \<Longrightarrow> n = b" "(i, b) \<in> r \<Longrightarrow> i = a"
proof -
  from assms have "single_valued (insert (a, b) r)" "single_valued ((insert (a, b) r)\<inverse>)"
    by (simp_all only: one_to_one_def)
  from single_valuedD [OF this(1), of a b n] single_valuedD [OF this(2), of b a i]
  show "(a, n) \<in> r \<Longrightarrow> n = b" "(i, b) \<in> r \<Longrightarrow> i = a" by simp_all
qed

definition maps_of :: "(uuid \<times> string) set \<Rightarrow> (uuid \<rightharpoonup> string) \<Rightarrow> (string \<rightharpoonup> uuid) \<Rightarrow> bool" where
  "maps_of r names_by_id ids_by_name \<longleftrightarrow>
     (\<forall>i n. names_by_id i = Some n \<longleftrightarrow> (i, n) \<in> r) \<and> (\<forall>i n. ids_by_name n = Some i \<longleftrightarrow> (i, n) \<in> r)"

lemma maps_of_one_to_one: "maps_of r m1 m2 \<Longrightarrow> one_to_one r"
  by (auto simp: maps_of_def one_to_one_def single_valued_def) (metis option.inject)+

lemma validate_field_identities_Inr:
  assumes "maps_of r m1 m2" "one_to_one (r \<union> name_pairs fs)"
  shows "\<exists>n1 n2. validate_field_identities m1 m2 fs = Inr (n1, n2) \<and> maps_of (r \<union> name_pairs fs) n1 n2"
  using assms
proof (induction fs arbitrary: r m1 m2)
  case Nil
  then show ?case by (simp add: name_pairs_def)
next
  case (Cons f fs)
  let ?p = "(fld_id f, fld_name f)"
  have union: "r \<union> name_pairs (f # fs) = insert ?p r \<union> name_pairs fs"
    by (simp add: name_pairs_def)
  have one: "one_to_one (insert ?p r)"
    using Cons.prems(2) by (rule one_to_one_subset) (auto simp: name_pairs_def)
  show ?case
  proof (cases "?p \<in> r")
    case True
    then have m: "m1 (fld_id f) = Some (fld_name f)" "m2 (fld_name f) = Some (fld_id f)"
      using Cons.prems(1) unfolding maps_of_def by blast+
    have r: "insert ?p r = r" using True by (rule insert_absorb)
    have "validate_field_identities m1 m2 (f # fs) = validate_field_identities m1 m2 fs"
      using m by simp
    then show ?thesis
      using Cons.IH [OF Cons.prems(1)] Cons.prems(2) unfolding union r by simp
  next
    case False
    have new: "\<And>n. (fld_id f, n) \<notin> r" "\<And>i. (i, fld_name f) \<notin> r"
      using one_to_one_insertD [OF one] False by blast+
    have maps: "\<And>i n. m1 i = Some n \<longleftrightarrow> (i, n) \<in> r" "\<And>i n. m2 n = Some i \<longleftrightarrow> (i, n) \<in> r"
      using Cons.prems(1) by (simp_all add: maps_of_def)
    have m: "m1 (fld_id f) = None" using new(1) maps(1) by (cases "m1 (fld_id f)") blast+
    have m': "m2 (fld_name f) = None" using new(2) maps(2) by (cases "m2 (fld_name f)") blast+
    have "(m1(fld_id f \<mapsto> fld_name f)) i = Some n \<longleftrightarrow> (i, n) \<in> insert ?p r" for i n
      using new(1) [of n] maps(1) [of i n] by (cases "i = fld_id f") (simp_all add: eq_commute)
    moreover have "(m2(fld_name f \<mapsto> fld_id f)) n = Some i \<longleftrightarrow> (i, n) \<in> insert ?p r" for i n
      using new(2) [of i] maps(2) [of n i] by (cases "n = fld_name f") (simp_all add: eq_commute)
    ultimately have "maps_of (insert ?p r) (m1(fld_id f \<mapsto> fld_name f)) (m2(fld_name f \<mapsto> fld_id f))"
      unfolding maps_of_def by blast
    from Cons.IH [OF this] Cons.prems(2) have ih: "\<exists>n1 n2.
        validate_field_identities (m1(fld_id f \<mapsto> fld_name f)) (m2(fld_name f \<mapsto> fld_id f)) fs = Inr (n1, n2) \<and>
        maps_of (insert ?p r \<union> name_pairs fs) n1 n2"
      unfolding union by blast
    have "validate_field_identities m1 m2 (f # fs) =
        validate_field_identities (m1(fld_id f \<mapsto> fld_name f)) (m2(fld_name f \<mapsto> fld_id f)) fs"
      using m m' by simp
    with ih show ?thesis unfolding union by simp
  qed
qed

lemma validate_schemas_sound:
  "validate_schemas src a n idx act m1 m2 prev ss = Inr (idx', act') \<Longrightarrow>
   act = idx a \<Longrightarrow>
   (\<forall>s \<in> set ss. sc_source_id s = src) \<and>
   sorted_wrt (<) ((case prev of Some p \<Rightarrow> [p] | None \<Rightarrow> []) @ map sc_version ss) \<and>
   distinct (map sc_id ss) \<and> sc_id ` set ss \<inter> dom idx = {} \<and>
   idx' = idx ++ index_map n (map sc_id ss) \<and> act' = idx' a"
proof (induction ss arbitrary: n idx act m1 m2 prev)
  case Nil
  then show ?case by (auto split: option.split)
next
  case (Cons s ss)
  let ?bad = "case prev of Some p \<Rightarrow> if sc_version s \<le> p then Some p else None | None \<Rightarrow> None"
  let ?act = "if sc_id s = a then Some n else act"
  from Cons.prems(1) have bad: "?bad = None"
    by (auto split: if_split_asm option.split_asm)
  with Cons.prems(1) obtain n1 n2 where s: "sc_source_id s = src" "idx (sc_id s) = None"
    and rest: "validate_schemas src a (n + 1) (idx(sc_id s \<mapsto> n)) ?act n1 n2 (Some (sc_version s)) ss
      = Inr (idx', act')"
    by (auto simp: result_simps split: if_split_asm)
  have act: "?act = (idx(sc_id s \<mapsto> n)) a" using Cons.prems(2) by simp
  from Cons.IH [OF rest act]
  have ih: "(\<forall>s \<in> set ss. sc_source_id s = src)"
      "sorted_wrt (<) (sc_version s # map sc_version ss)" "distinct (map sc_id ss)"
      "sc_id ` set ss \<inter> dom (idx(sc_id s \<mapsto> n)) = {}"
      "idx' = idx(sc_id s \<mapsto> n) ++ index_map (n + 1) (map sc_id ss)" "act' = idx' a"
    unfolding option.case append.simps by blast+
  have "sorted_wrt (<) ((case prev of Some p \<Rightarrow> [p] | None \<Rightarrow> []) @ sc_version s # map sc_version ss)"
    using bad ih(2) by (cases prev) (auto split: if_split_asm)
  moreover have "sc_id s \<notin> set (map sc_id ss)" using ih(4) by auto
  moreover have "idx' = idx ++ index_map n (map sc_id (s # ss))"
  proof
    fix j
    have "idx(sc_id s \<mapsto> n) = (\<lambda>j. if sc_id s = j then Some n else idx j)" by auto
    with ih(5) index_map_step [of "sc_id s" "map sc_id ss" n idx j] \<open>sc_id s \<notin> set (map sc_id ss)\<close>
    show "idx' j = (idx ++ index_map n (map sc_id (s # ss))) j" by simp
  qed
  ultimately show ?case using ih s by auto
qed

lemma validate_schemas_complete:
  "maps_of r m1 m2 \<Longrightarrow> one_to_one (r \<union> (\<Union>s \<in> set ss. name_pairs (data_fields s))) \<Longrightarrow>
   (\<forall>s \<in> set ss. sc_source_id s = src) \<Longrightarrow>
   sorted_wrt (<) ((case prev of Some p \<Rightarrow> [p] | None \<Rightarrow> []) @ map sc_version ss) \<Longrightarrow>
   distinct (map sc_id ss) \<Longrightarrow> sc_id ` set ss \<inter> dom idx = {} \<Longrightarrow>
   \<exists>p. validate_schemas src a n idx act m1 m2 prev ss = Inr p"
proof (induction ss arbitrary: r n idx act m1 m2 prev)
  case Nil
  then show ?case by simp
next
  case (Cons s ss)
  let ?r = "r \<union> name_pairs (data_fields s)"
  let ?bad = "case prev of Some p \<Rightarrow> if sc_version s \<le> p then Some p else None | None \<Rightarrow> None"
  let ?act = "if sc_id s = a then Some n else act"
  have bad: "?bad = None" using Cons.prems(4) by (cases prev) auto
  have "one_to_one ?r" using Cons.prems(2) by (rule one_to_one_subset) auto
  from validate_field_identities_Inr [OF Cons.prems(1) this]
  obtain n1 n2 where id: "validate_historical_field_identity s m1 m2 = Inr (n1, n2)"
    and maps: "maps_of ?r n1 n2"
    by (auto simp: validate_historical_field_identity_def)
  have "\<exists>p. validate_schemas src a (n + 1) (idx(sc_id s \<mapsto> n)) ?act n1 n2 (Some (sc_version s)) ss = Inr p"
  proof (rule Cons.IH [OF maps])
    show "one_to_one (?r \<union> (\<Union>s \<in> set ss. name_pairs (data_fields s)))"
      using Cons.prems(2) by (simp add: Un_assoc)
    show "sorted_wrt (<) ((case Some (sc_version s) of Some p \<Rightarrow> [p] | None \<Rightarrow> []) @ map sc_version ss)"
      using Cons.prems(4) by (cases prev) simp_all
    show "sc_id ` set ss \<inter> dom (idx(sc_id s \<mapsto> n)) = {}"
      using Cons.prems(5,6) by simp
  qed (use Cons.prems(3,5) in simp_all)
  moreover have "sc_source_id s = src" "idx (sc_id s) = None" using Cons.prems(3,6) by auto
  ultimately show ?case using bad id by simp
qed

text \<open>
  In an additive history every pair of identity and name occurs in the last schema, so that the
  separate check of field identities never fails when the schemas are additive.
\<close>

lemma field_key_pairs:
  "map field_key fs = map field_key gs \<Longrightarrow> name_pairs fs = name_pairs gs"
proof -
  have "name_pairs hs = (\<lambda>(i, n, _). (i, n)) ` set (map field_key hs)" for hs
    by (auto simp: name_pairs_def field_key_def image_iff)
  from this [of fs] this [of gs]
  show "map field_key fs = map field_key gs \<Longrightarrow> name_pairs fs = name_pairs gs" by (simp only:)
qed

lemma additive_pairs:
  assumes "additive a b"
  shows "name_pairs (data_fields a) \<subseteq> name_pairs (data_fields b)"
proof -
  have "map field_key (take (length (data_fields a)) (data_fields b)) = map field_key (data_fields a)"
    using assms by (simp add: additive_def take_map)
  from field_key_pairs [OF this] show ?thesis
    by (auto simp: name_pairs_def dest: in_set_takeD)
qed

lemma schema_ok_one_to_one:
  assumes "schema_ok s"
  shows "one_to_one (name_pairs (data_fields s))"
proof -
  have "inj_on fld_id (set (sc_fields s))" "inj_on fld_name (set (sc_fields s))"
    using assms by (simp_all add: schema_ok_def distinct_map)
  then show ?thesis
    by (auto simp: one_to_one_def single_valued_def name_pairs_def data_fields_def dest: inj_onD)
qed

lemma additive_history_one_to_one:
  assumes "sorted_wrt additive ss" "list_all schema_ok ss"
  shows "one_to_one (\<Union>s \<in> set ss. name_pairs (data_fields s))"
proof (cases ss rule: rev_cases)
  case Nil
  then show ?thesis by (simp add: one_to_one_def single_valued_def)
next
  case (snoc rest l)
  have "name_pairs (data_fields s) \<subseteq> name_pairs (data_fields l)" if "s \<in> set ss" for s
    using that assms(1) additive_pairs by (auto simp: snoc sorted_wrt_append)
  then have "(\<Union>s \<in> set ss. name_pairs (data_fields s)) \<subseteq> name_pairs (data_fields l)" by auto
  moreover have "one_to_one (name_pairs (data_fields l))"
    using assms(2) by (simp add: snoc schema_ok_one_to_one)
  ultimately show ?thesis by (rule one_to_one_subset [rotated])
qed

lemma validate_schema_history_Inr:
  assumes "list_all schema_ok ss"
  shows "validate_schema_history src a ss = Inr (idx, k) \<longleftrightarrow>
    (\<forall>s \<in> set ss. sc_source_id s = src) \<and> sorted_wrt (<) (map sc_version ss) \<and>
    distinct (map sc_id ss) \<and> sorted_wrt additive ss \<and>
    k < length ss \<and> sc_id (ss ! k) = a \<and> idx = index_map 0 (map sc_id ss)"
    (is "?L \<longleftrightarrow> ?R")
proof
  assume ?L
  then obtain act where loop: "validate_schemas src a 0 Map.empty None Map.empty Map.empty None ss = Inr (idx, act)"
    and windows: "sorted_wrt additive ss" and "act = Some k"
    by (auto simp: validate_schema_history_def result_simps validate_windows_Inr)
  from validate_schemas_sound [OF loop] have sound: "(\<forall>s \<in> set ss. sc_source_id s = src)"
    "sorted_wrt (<) (map sc_version ss)" "distinct (map sc_id ss)"
    "idx = index_map 0 (map sc_id ss)" "act = index_map 0 (map sc_id ss) a" by auto
  then have "k < length ss" "sc_id (ss ! k) = a"
    using index_map_Some [OF sound(3), of 0 a k] \<open>act = Some k\<close> by auto
  with sound windows show ?R by simp
next
  assume R: ?R
  have "maps_of {} Map.empty Map.empty" by (simp add: maps_of_def)
  then have "\<exists>p. validate_schemas src a 0 Map.empty None Map.empty Map.empty None ss = Inr p"
    by (rule validate_schemas_complete) (use R assms additive_history_one_to_one in auto)
  then obtain idx' act' where
    loop: "validate_schemas src a 0 Map.empty None Map.empty Map.empty None ss = Inr (idx', act')"
    by auto
  from validate_schemas_sound [OF this] have "idx' = idx" "act' = idx a" using R by auto
  moreover have "idx a = Some k" using R by (simp add: index_map_Some)
  ultimately show ?L
    using loop R by (simp add: validate_schema_history_def result_simps validate_windows_Inr)
qed

section \<open>What a source accepts\<close>

text \<open>A profile fits a schema: it maps data fields only, and all that cannot be null.\<close>

definition mappings_fit :: "ingestion_profile_revision \<Rightarrow> schema \<Rightarrow> bool" where
  "mappings_fit r s \<longleftrightarrow>
     fm_target_field_id ` set (ip_mappings (pr_profile r)) \<subseteq> fld_id ` set (data_fields s) \<and>
     fld_id ` set (filter (\<lambda>f. fld_nullability f = NonNull) (data_fields s))
       \<subseteq> fm_target_field_id ` set (ip_mappings (pr_profile r))"

lemma schema_field_is_data:
  assumes "schema_ok s"
  shows "(case schema_field s i of Some f \<Rightarrow> fld_role f = RoleData | None \<Rightarrow> False) \<longleftrightarrow>
    i \<in> fld_id ` set (data_fields s)"
proof (cases "schema_field s i")
  case None
  then have "\<forall>f \<in> set (sc_fields s). fld_id f \<noteq> i"
    by (simp add: schema_field_def find_None_iff)
  with None show ?thesis by (auto simp: data_fields_def)
next
  case (Some f)
  then have f: "f \<in> set (sc_fields s)" "fld_id f = i"
    by (simp_all add: schema_field_iff [OF assms])
  have only: "g = f" if "g \<in> set (sc_fields s)" "fld_id g = i" for g
    using that Some schema_field_iff [OF assms, of i g] by simp
  have "i \<in> fld_id ` set (data_fields s) \<longleftrightarrow> fld_role f = RoleData"
  proof
    assume "i \<in> fld_id ` set (data_fields s)"
    then obtain g where "g \<in> set (sc_fields s)" "fld_role g = RoleData" "fld_id g = i"
      by (auto simp: data_fields_def)
    with only [of g] show "fld_role f = RoleData" by simp
  next
    assume "fld_role f = RoleData"
    with f show "i \<in> fld_id ` set (data_fields s)" by (auto simp: data_fields_def)
  qed
  with Some show ?thesis by simp
qed

lemma validate_profile_mappings_Inr:
  assumes "schema_ok s"
  shows "validate_profile_mappings r s = Inr u \<longleftrightarrow> mappings_fit r s"
proof -
  have mapped: "list_ex (\<lambda>m. fm_target_field_id m = i) ms \<longleftrightarrow> i \<in> fm_target_field_id ` set ms" for i ms
    by (auto simp: list_ex_iff)
  show ?thesis
    by (simp add: mapped validate_profile_mappings_def result_simps for_each_eq_Inr
        schema_field_is_data [OF assms] mappings_fit_def image_subset_iff data_fields_def) blast
qed

lemma validate_inputs_from_Inr:
  "validate_inputs_from src idx ss ids names is = Inr () \<longleftrightarrow>
   (\<forall>i \<in> set is. in_source_id i = src) \<and>
   distinct (map in_id is) \<and> in_id ` set is \<inter> ids = {} \<and>
   distinct (map in_name is) \<and> in_name ` set is \<inter> names = {} \<and>
   (\<forall>i \<in> set is. \<forall>r \<in> set (in_profile_revisions i).
      \<exists>k. idx (pr_target_schema_id r) = Some k \<and> validate_profile_mappings r (ss ! k) = Inr ())"
proof (induction "is" arbitrary: ids names)
  case (Cons i "is")
  have rev: "for_each (\<lambda>r. case idx (pr_target_schema_id r) of
        None \<Rightarrow> Inl (ProfileTargetSchemaNotFound (pr_id r) (pr_target_schema_id r))
      | Some k \<Rightarrow> validate_profile_mappings r (ss ! k)) (in_profile_revisions i) = Inr () \<longleftrightarrow>
    (\<forall>r \<in> set (in_profile_revisions i).
      \<exists>k. idx (pr_target_schema_id r) = Some k \<and> validate_profile_mappings r (ss ! k) = Inr ())"
    unfolding for_each_eq_Inr by (auto split: option.split)
  show ?case by (auto simp: result_simps rev Cons.IH)
qed simp

definition source_accepts :: "uuid \<Rightarrow> uuid \<Rightarrow> schema list \<Rightarrow> input list \<Rightarrow> bool" where
  "source_accepts source_id active_id schemas inputs \<longleftrightarrow>
     (\<forall>s \<in> set schemas. sc_source_id s = source_id) \<and>
     sorted_wrt (<) (map sc_version schemas) \<and> distinct (map sc_id schemas) \<and>
     sorted_wrt additive schemas \<and> active_id \<in> sc_id ` set schemas \<and>
     (\<forall>i \<in> set inputs. in_source_id i = source_id) \<and>
     distinct (map in_id inputs) \<and> distinct (map in_name inputs) \<and>
     (\<forall>i \<in> set inputs. \<forall>r \<in> set (in_profile_revisions i).
        \<exists>s \<in> set schemas. sc_id s = pr_target_schema_id r \<and> mappings_fit r s)"

lemma validate_inputs_Inr:
  assumes "list_all schema_ok ss" "distinct (map sc_id ss)"
  shows "validate_inputs src (index_map 0 (map sc_id ss)) ss is = Inr u \<longleftrightarrow>
    (\<forall>i \<in> set is. in_source_id i = src) \<and> distinct (map in_id is) \<and> distinct (map in_name is) \<and>
    (\<forall>i \<in> set is. \<forall>r \<in> set (in_profile_revisions i).
       \<exists>s \<in> set ss. sc_id s = pr_target_schema_id r \<and> mappings_fit r s)"
proof -
  have fit: "validate_profile_mappings r (ss ! k) = Inr () \<longleftrightarrow> mappings_fit r (ss ! k)"
    if "k < length ss" for r k
    using that assms(1) by (simp add: list_all_length validate_profile_mappings_Inr)
  have "(\<exists>k. index_map 0 (map sc_id ss) (pr_target_schema_id r) = Some k \<and>
        validate_profile_mappings r (ss ! k) = Inr ()) \<longleftrightarrow>
      (\<exists>k < length ss. sc_id (ss ! k) = pr_target_schema_id r \<and> mappings_fit r (ss ! k))" for r
    using fit by (auto simp: index_map_Some [OF assms(2)])
  also have "\<dots> r \<longleftrightarrow> (\<exists>s \<in> set ss. sc_id s = pr_target_schema_id r \<and> mappings_fit r s)" for r
    by (metis in_set_conv_nth)
  finally have "(\<exists>k. index_map 0 (map sc_id ss) (pr_target_schema_id r) = Some k \<and>
        validate_profile_mappings r (ss ! k) = Inr ()) \<longleftrightarrow>
      (\<exists>s \<in> set ss. sc_id s = pr_target_schema_id r \<and> mappings_fit r s)" for r .
  then show ?thesis by (simp add: validate_inputs_def validate_inputs_from_Inr)
qed

lemma source_new_Inr:
  assumes "list_all schema_ok ss"
  shows "source_new i name display d a ss is = Inr src \<longleftrightarrow>
    source_accepts i a ss is \<and>
    (\<exists>k < length ss. sc_id (ss ! k) = a \<and>
      src = \<lparr>src_id = i, src_name = name, src_display_name = display, src_declaration_digest = d,
             src_schemas = ss, src_active_schema_index = k, src_inputs = is\<rparr>)"
    (is "?L \<longleftrightarrow> ?R")
proof
  assume ?L
  then obtain idx k where h: "validate_schema_history i a ss = Inr (idx, k)"
    and v: "validate_inputs i idx ss is = Inr ()"
    and src: "src = \<lparr>src_id = i, src_name = name, src_display_name = display,
      src_declaration_digest = d, src_schemas = ss, src_active_schema_index = k, src_inputs = is\<rparr>"
    by (auto simp: source_new_def result_simps split: if_split_asm)
  note hist = h [unfolded validate_schema_history_Inr [OF assms]]
  with v have "validate_inputs i (index_map 0 (map sc_id ss)) ss is = Inr ()" by simp
  with hist show ?R
    unfolding source_accepts_def src
    by (subst (asm) validate_inputs_Inr [OF assms]) auto
next
  assume R: ?R
  then obtain k where k: "k < length ss" "sc_id (ss ! k) = a"
    and src: "src = \<lparr>src_id = i, src_name = name, src_display_name = display,
      src_declaration_digest = d, src_schemas = ss, src_active_schema_index = k, src_inputs = is\<rparr>"
    by blast
  from R k have "validate_schema_history i a ss = Inr (index_map 0 (map sc_id ss), k)"
    by (simp add: validate_schema_history_Inr [OF assms] source_accepts_def)
  moreover from R have "validate_inputs i (index_map 0 (map sc_id ss)) ss is = Inr ()"
    by (simp add: validate_inputs_Inr [OF assms] source_accepts_def)
  ultimately show ?L using k by (auto simp: source_new_def src)
qed

end
