(* ===== verification/Error_Code.thy ===== *)
theory Error_Code
  imports Elucid_Prelude
begin

text \<open>
  The stable operational error codes (\<open>elucid-core/src/error.rs\<close>) and their wire spellings.
  The constructors carry the prefix \<open>Code\<close>. \<open>from_str\<close> is the source's match: its arms, in their
  order, are the table \<open>error_code_arms\<close>.
\<close>

datatype (plugins only: size) error_code =
    CodeCapacityExhausted
  | CodeCatalogCorrupt
  | CodeCatalogDefinitionConflict
  | CodeCatalogManifestInvalid
  | CodeCatalogProfileInvalid
  | CodeCatalogSchemaIncompatible
  | CodeClientTimeout
  | CodeCommandInvalid
  | CodeCompactionBuildFailed
  | CodeCompactionInputInvalid
  | CodeCompactionNotBeneficial
  | CodeCompactionPublicationFailed
  | CodeCompactionRecoveryFailed
  | CodeConfigurationConstraintViolation
  | CodeConfigurationDocumentInvalid
  | CodeConfigurationDocumentMalformed
  | CodeConfigurationDocumentTooLarge
  | CodeConfigurationEnvironmentOverrideInvalid
  | CodeConfigurationFileUnreadable
  | CodeConfigurationFileNotUtf8
  | CodeConfigurationSecretInvalid
  | CodeConfigurationSecretMissing
  | CodeConfigurationValueInvalid
  | CodeEndpointUrlConstructionFailed
  | CodeHttpClientInitializationFailed
  | CodeIngestionBatchLimitExceeded
  | CodeIngestionInitializationFailed
  | CodeIngestionRuntimeFailed
  | CodeInputFileUnreadable
  | CodeInputReadFailed
  | CodeInternalError
  | CodeInvalidRequest
  | CodeLocalCapacityExhausted
  | CodeLocalStorageUnavailable
  | CodeMaintenanceInitializationFailed
  | CodeMaintenanceRuntimeFailed
  | CodeMetastoreConflict
  | CodeMetastoreCorrupt
  | CodeMetastoreMigrationFailed
  | CodeMetastoreUnavailable
  | CodeNotFound
  | CodeObjectDeleteFailed
  | CodeObjectIntegrityError
  | CodeObjectStoreUnavailable
  | CodeObjectUploadFailed
  | CodeObjectVerificationFailed
  | CodeParquetBuildFailed
  | CodeParquetInvalid
  | CodePublishedObjectCorrupt
  | CodePublishedObjectMissing
  | CodeQueryCancelled
  | CodeQueryCastFailed
  | CodeQueryEvaluationFailed
  | CodeQueryExecutionFailed
  | CodeQueryInitializationFailed
  | CodeQueryResourceLimitExceeded
  | CodeQuerySemanticError
  | CodeQuerySyntaxError
  | CodeQueryTimeout
  | CodeRemoteResponseFailed
  | CodeRemoteResponseInvalid
  | CodeRemoteResponseTooLarge
  | CodeRemoteServiceUnavailable
  | CodeRetentionCleanupFailed
  | CodeRetentionStateConflict
  | CodeRetentionTimestampOverflow
  | CodeServerBindFailed
  | CodeServerDraining
  | CodeServerNotReady
  | CodeServerRuntimeFailed
  | CodeServerShutdownTimedOut
  | CodeServerSignalFailed
  | CodeSpoolCorrupt
  | CodeSpoolUnavailable
  | CodeStandardOutputWriteFailed
  | CodeVersionEncodingFailed

datatype unknown_error_code = UnknownErrorCode

primrec error_code_as_str :: "error_code \<Rightarrow> string" where
  "error_code_as_str CodeCapacityExhausted = ''CAPACITY_EXHAUSTED''"
| "error_code_as_str CodeCatalogCorrupt = ''CATALOG_CORRUPT''"
| "error_code_as_str CodeCatalogDefinitionConflict = ''CATALOG_DEFINITION_CONFLICT''"
| "error_code_as_str CodeCatalogManifestInvalid = ''CATALOG_MANIFEST_INVALID''"
| "error_code_as_str CodeCatalogProfileInvalid = ''CATALOG_PROFILE_INVALID''"
| "error_code_as_str CodeCatalogSchemaIncompatible = ''CATALOG_SCHEMA_INCOMPATIBLE''"
| "error_code_as_str CodeClientTimeout = ''CLIENT_TIMEOUT''"
| "error_code_as_str CodeCommandInvalid = ''COMMAND_INVALID''"
| "error_code_as_str CodeCompactionBuildFailed = ''COMPACTION_BUILD_FAILED''"
| "error_code_as_str CodeCompactionInputInvalid = ''COMPACTION_INPUT_INVALID''"
| "error_code_as_str CodeCompactionNotBeneficial = ''COMPACTION_NOT_BENEFICIAL''"
| "error_code_as_str CodeCompactionPublicationFailed = ''COMPACTION_PUBLICATION_FAILED''"
| "error_code_as_str CodeCompactionRecoveryFailed = ''COMPACTION_RECOVERY_FAILED''"
| "error_code_as_str CodeConfigurationConstraintViolation = ''CONFIGURATION_CONSTRAINT_VIOLATION''"
| "error_code_as_str CodeConfigurationDocumentInvalid = ''CONFIGURATION_DOCUMENT_INVALID''"
| "error_code_as_str CodeConfigurationDocumentMalformed = ''CONFIGURATION_DOCUMENT_MALFORMED''"
| "error_code_as_str CodeConfigurationDocumentTooLarge = ''CONFIGURATION_DOCUMENT_TOO_LARGE''"
| "error_code_as_str CodeConfigurationEnvironmentOverrideInvalid = ''CONFIGURATION_ENVIRONMENT_OVERRIDE_INVALID''"
| "error_code_as_str CodeConfigurationFileUnreadable = ''CONFIGURATION_FILE_UNREADABLE''"
| "error_code_as_str CodeConfigurationFileNotUtf8 = ''CONFIGURATION_FILE_NOT_UTF8''"
| "error_code_as_str CodeConfigurationSecretInvalid = ''CONFIGURATION_SECRET_INVALID''"
| "error_code_as_str CodeConfigurationSecretMissing = ''CONFIGURATION_SECRET_MISSING''"
| "error_code_as_str CodeConfigurationValueInvalid = ''CONFIGURATION_VALUE_INVALID''"
| "error_code_as_str CodeEndpointUrlConstructionFailed = ''ENDPOINT_URL_CONSTRUCTION_FAILED''"
| "error_code_as_str CodeHttpClientInitializationFailed = ''HTTP_CLIENT_INITIALIZATION_FAILED''"
| "error_code_as_str CodeIngestionBatchLimitExceeded = ''INGESTION_BATCH_LIMIT_EXCEEDED''"
| "error_code_as_str CodeIngestionInitializationFailed = ''INGESTION_INITIALIZATION_FAILED''"
| "error_code_as_str CodeIngestionRuntimeFailed = ''INGESTION_RUNTIME_FAILED''"
| "error_code_as_str CodeInputFileUnreadable = ''INPUT_FILE_UNREADABLE''"
| "error_code_as_str CodeInputReadFailed = ''INPUT_READ_FAILED''"
| "error_code_as_str CodeInternalError = ''INTERNAL_ERROR''"
| "error_code_as_str CodeInvalidRequest = ''INVALID_REQUEST''"
| "error_code_as_str CodeLocalCapacityExhausted = ''LOCAL_CAPACITY_EXHAUSTED''"
| "error_code_as_str CodeLocalStorageUnavailable = ''LOCAL_STORAGE_UNAVAILABLE''"
| "error_code_as_str CodeMaintenanceInitializationFailed = ''MAINTENANCE_INITIALIZATION_FAILED''"
| "error_code_as_str CodeMaintenanceRuntimeFailed = ''MAINTENANCE_RUNTIME_FAILED''"
| "error_code_as_str CodeMetastoreConflict = ''METASTORE_CONFLICT''"
| "error_code_as_str CodeMetastoreCorrupt = ''METASTORE_CORRUPT''"
| "error_code_as_str CodeMetastoreMigrationFailed = ''METASTORE_MIGRATION_FAILED''"
| "error_code_as_str CodeMetastoreUnavailable = ''METASTORE_UNAVAILABLE''"
| "error_code_as_str CodeNotFound = ''NOT_FOUND''"
| "error_code_as_str CodeObjectDeleteFailed = ''OBJECT_DELETE_FAILED''"
| "error_code_as_str CodeObjectIntegrityError = ''OBJECT_INTEGRITY_ERROR''"
| "error_code_as_str CodeObjectStoreUnavailable = ''OBJECT_STORE_UNAVAILABLE''"
| "error_code_as_str CodeObjectUploadFailed = ''OBJECT_UPLOAD_FAILED''"
| "error_code_as_str CodeObjectVerificationFailed = ''OBJECT_VERIFICATION_FAILED''"
| "error_code_as_str CodeParquetBuildFailed = ''PARQUET_BUILD_FAILED''"
| "error_code_as_str CodeParquetInvalid = ''PARQUET_INVALID''"
| "error_code_as_str CodePublishedObjectCorrupt = ''PUBLISHED_OBJECT_CORRUPT''"
| "error_code_as_str CodePublishedObjectMissing = ''PUBLISHED_OBJECT_MISSING''"
| "error_code_as_str CodeQueryCancelled = ''QUERY_CANCELLED''"
| "error_code_as_str CodeQueryCastFailed = ''QUERY_CAST_FAILED''"
| "error_code_as_str CodeQueryEvaluationFailed = ''QUERY_EVALUATION_FAILED''"
| "error_code_as_str CodeQueryExecutionFailed = ''QUERY_EXECUTION_FAILED''"
| "error_code_as_str CodeQueryInitializationFailed = ''QUERY_INITIALIZATION_FAILED''"
| "error_code_as_str CodeQueryResourceLimitExceeded = ''QUERY_RESOURCE_LIMIT_EXCEEDED''"
| "error_code_as_str CodeQuerySemanticError = ''QUERY_SEMANTIC_ERROR''"
| "error_code_as_str CodeQuerySyntaxError = ''QUERY_SYNTAX_ERROR''"
| "error_code_as_str CodeQueryTimeout = ''QUERY_TIMEOUT''"
| "error_code_as_str CodeRemoteResponseFailed = ''REMOTE_RESPONSE_FAILED''"
| "error_code_as_str CodeRemoteResponseInvalid = ''REMOTE_RESPONSE_INVALID''"
| "error_code_as_str CodeRemoteResponseTooLarge = ''REMOTE_RESPONSE_TOO_LARGE''"
| "error_code_as_str CodeRemoteServiceUnavailable = ''REMOTE_SERVICE_UNAVAILABLE''"
| "error_code_as_str CodeRetentionCleanupFailed = ''RETENTION_CLEANUP_FAILED''"
| "error_code_as_str CodeRetentionStateConflict = ''RETENTION_STATE_CONFLICT''"
| "error_code_as_str CodeRetentionTimestampOverflow = ''RETENTION_TIMESTAMP_OVERFLOW''"
| "error_code_as_str CodeServerBindFailed = ''SERVER_BIND_FAILED''"
| "error_code_as_str CodeServerDraining = ''SERVER_DRAINING''"
| "error_code_as_str CodeServerNotReady = ''SERVER_NOT_READY''"
| "error_code_as_str CodeServerRuntimeFailed = ''SERVER_RUNTIME_FAILED''"
| "error_code_as_str CodeServerShutdownTimedOut = ''SERVER_SHUTDOWN_TIMED_OUT''"
| "error_code_as_str CodeServerSignalFailed = ''SERVER_SIGNAL_FAILED''"
| "error_code_as_str CodeSpoolCorrupt = ''SPOOL_CORRUPT''"
| "error_code_as_str CodeSpoolUnavailable = ''SPOOL_UNAVAILABLE''"
| "error_code_as_str CodeStandardOutputWriteFailed = ''STANDARD_OUTPUT_WRITE_FAILED''"
| "error_code_as_str CodeVersionEncodingFailed = ''VERSION_ENCODING_FAILED''"

definition error_code_arms :: "(string \<times> error_code) list" where
  "error_code_arms =
    [(''CAPACITY_EXHAUSTED'', CodeCapacityExhausted),
     (''CATALOG_CORRUPT'', CodeCatalogCorrupt),
     (''CATALOG_DEFINITION_CONFLICT'', CodeCatalogDefinitionConflict),
     (''CATALOG_MANIFEST_INVALID'', CodeCatalogManifestInvalid),
     (''CATALOG_PROFILE_INVALID'', CodeCatalogProfileInvalid),
     (''CATALOG_SCHEMA_INCOMPATIBLE'', CodeCatalogSchemaIncompatible),
     (''CLIENT_TIMEOUT'', CodeClientTimeout),
     (''COMMAND_INVALID'', CodeCommandInvalid),
     (''COMPACTION_BUILD_FAILED'', CodeCompactionBuildFailed),
     (''COMPACTION_INPUT_INVALID'', CodeCompactionInputInvalid),
     (''COMPACTION_NOT_BENEFICIAL'', CodeCompactionNotBeneficial),
     (''COMPACTION_PUBLICATION_FAILED'', CodeCompactionPublicationFailed),
     (''COMPACTION_RECOVERY_FAILED'', CodeCompactionRecoveryFailed),
     (''CONFIGURATION_CONSTRAINT_VIOLATION'', CodeConfigurationConstraintViolation),
     (''CONFIGURATION_DOCUMENT_INVALID'', CodeConfigurationDocumentInvalid),
     (''CONFIGURATION_DOCUMENT_MALFORMED'', CodeConfigurationDocumentMalformed),
     (''CONFIGURATION_DOCUMENT_TOO_LARGE'', CodeConfigurationDocumentTooLarge),
     (''CONFIGURATION_ENVIRONMENT_OVERRIDE_INVALID'', CodeConfigurationEnvironmentOverrideInvalid),
     (''CONFIGURATION_FILE_UNREADABLE'', CodeConfigurationFileUnreadable),
     (''CONFIGURATION_FILE_NOT_UTF8'', CodeConfigurationFileNotUtf8),
     (''CONFIGURATION_SECRET_INVALID'', CodeConfigurationSecretInvalid),
     (''CONFIGURATION_SECRET_MISSING'', CodeConfigurationSecretMissing),
     (''CONFIGURATION_VALUE_INVALID'', CodeConfigurationValueInvalid),
     (''ENDPOINT_URL_CONSTRUCTION_FAILED'', CodeEndpointUrlConstructionFailed),
     (''HTTP_CLIENT_INITIALIZATION_FAILED'', CodeHttpClientInitializationFailed),
     (''INGESTION_BATCH_LIMIT_EXCEEDED'', CodeIngestionBatchLimitExceeded),
     (''INGESTION_INITIALIZATION_FAILED'', CodeIngestionInitializationFailed),
     (''INGESTION_RUNTIME_FAILED'', CodeIngestionRuntimeFailed),
     (''INPUT_FILE_UNREADABLE'', CodeInputFileUnreadable),
     (''INPUT_READ_FAILED'', CodeInputReadFailed),
     (''INTERNAL_ERROR'', CodeInternalError),
     (''INVALID_REQUEST'', CodeInvalidRequest),
     (''LOCAL_CAPACITY_EXHAUSTED'', CodeLocalCapacityExhausted),
     (''LOCAL_STORAGE_UNAVAILABLE'', CodeLocalStorageUnavailable),
     (''MAINTENANCE_INITIALIZATION_FAILED'', CodeMaintenanceInitializationFailed),
     (''MAINTENANCE_RUNTIME_FAILED'', CodeMaintenanceRuntimeFailed),
     (''METASTORE_CONFLICT'', CodeMetastoreConflict),
     (''METASTORE_CORRUPT'', CodeMetastoreCorrupt),
     (''METASTORE_MIGRATION_FAILED'', CodeMetastoreMigrationFailed),
     (''METASTORE_UNAVAILABLE'', CodeMetastoreUnavailable),
     (''NOT_FOUND'', CodeNotFound),
     (''OBJECT_DELETE_FAILED'', CodeObjectDeleteFailed),
     (''OBJECT_INTEGRITY_ERROR'', CodeObjectIntegrityError),
     (''OBJECT_STORE_UNAVAILABLE'', CodeObjectStoreUnavailable),
     (''OBJECT_UPLOAD_FAILED'', CodeObjectUploadFailed),
     (''OBJECT_VERIFICATION_FAILED'', CodeObjectVerificationFailed),
     (''PARQUET_BUILD_FAILED'', CodeParquetBuildFailed),
     (''PARQUET_INVALID'', CodeParquetInvalid),
     (''PUBLISHED_OBJECT_CORRUPT'', CodePublishedObjectCorrupt),
     (''PUBLISHED_OBJECT_MISSING'', CodePublishedObjectMissing),
     (''QUERY_CANCELLED'', CodeQueryCancelled),
     (''QUERY_CAST_FAILED'', CodeQueryCastFailed),
     (''QUERY_EVALUATION_FAILED'', CodeQueryEvaluationFailed),
     (''QUERY_EXECUTION_FAILED'', CodeQueryExecutionFailed),
     (''QUERY_INITIALIZATION_FAILED'', CodeQueryInitializationFailed),
     (''QUERY_RESOURCE_LIMIT_EXCEEDED'', CodeQueryResourceLimitExceeded),
     (''QUERY_SEMANTIC_ERROR'', CodeQuerySemanticError),
     (''QUERY_SYNTAX_ERROR'', CodeQuerySyntaxError),
     (''QUERY_TIMEOUT'', CodeQueryTimeout),
     (''REMOTE_RESPONSE_FAILED'', CodeRemoteResponseFailed),
     (''REMOTE_RESPONSE_INVALID'', CodeRemoteResponseInvalid),
     (''REMOTE_RESPONSE_TOO_LARGE'', CodeRemoteResponseTooLarge),
     (''REMOTE_SERVICE_UNAVAILABLE'', CodeRemoteServiceUnavailable),
     (''RETENTION_CLEANUP_FAILED'', CodeRetentionCleanupFailed),
     (''RETENTION_STATE_CONFLICT'', CodeRetentionStateConflict),
     (''RETENTION_TIMESTAMP_OVERFLOW'', CodeRetentionTimestampOverflow),
     (''SERVER_BIND_FAILED'', CodeServerBindFailed),
     (''SERVER_DRAINING'', CodeServerDraining),
     (''SERVER_NOT_READY'', CodeServerNotReady),
     (''SERVER_RUNTIME_FAILED'', CodeServerRuntimeFailed),
     (''SERVER_SHUTDOWN_TIMED_OUT'', CodeServerShutdownTimedOut),
     (''SERVER_SIGNAL_FAILED'', CodeServerSignalFailed),
     (''SPOOL_CORRUPT'', CodeSpoolCorrupt),
     (''SPOOL_UNAVAILABLE'', CodeSpoolUnavailable),
     (''STANDARD_OUTPUT_WRITE_FAILED'', CodeStandardOutputWriteFailed),
     (''VERSION_ENCODING_FAILED'', CodeVersionEncodingFailed)]"

definition error_code_from_str :: "string \<Rightarrow> unknown_error_code + error_code" where
  "error_code_from_str value = ok_or (map_of error_code_arms value) UnknownErrorCode"

lemma error_code_arms_spelling: "list_all (\<lambda>(s, c). error_code_as_str c = s) error_code_arms"
  by (simp add: error_code_arms_def)

text \<open>The spellings are distinct, so the first arm that matches is the only one.\<close>

lemma error_code_arms_distinct: "distinct (map fst error_code_arms)"
  by (simp add: error_code_arms_def)

lemma error_code_arms_codes: "c \<in> set (map snd error_code_arms)"
  unfolding error_code_arms_def by (cases c; simp only: list.map set_simps snd_conv insert_iff simp_thms)

lemma error_code_arms_total: "(error_code_as_str c, c) \<in> set error_code_arms"
  using error_code_arms_codes [of c] error_code_arms_spelling by (auto simp: list_all_iff)

interpretation error_code: canonical_codec error_code_as_str error_code_from_str "\<lambda>_. True"
proof unfold_locales
  fix c show "error_code_from_str (error_code_as_str c) = Inr c"
    using map_of_is_SomeI [OF error_code_arms_distinct error_code_arms_total]
    by (simp add: error_code_from_str_def)
next
  fix s c assume "error_code_from_str s = Inr c"
  then have "(s, c) \<in> set error_code_arms"
    by (auto simp: error_code_from_str_def result_simps dest: map_of_SomeD)
  then show "True \<and> error_code_as_str c = s"
    using error_code_arms_spelling by (auto simp: list_all_iff)
qed

end
