(* ===== verification/Query_Pipeline.thy ===== *)
theory Query_Pipeline
  imports Query_Expression Catalog_Source Error_Code "HOL-Library.Product_Lexorder"
begin

text \<open>
  Stages and pipelines (\<open>elucid-language/src/semantic/command.rs\<close>, \<open>pipeline.rs\<close>, \<open>error.rs\<close> and
  \<open>lib.rs\<close>): conversion of stages, time ranges, the conversion of a query against a catalog
  snapshot and the positions of diagnostics.
\<close>

section \<open>Stages\<close>

definition ensure_unique_output :: "string set \<Rightarrow> ir_field \<Rightarrow> span \<Rightarrow> diagnostic + string set" where
  "ensure_unique_output names f sp =
     (if if_name f \<notin> names then Inr (insert (if_name f) names)
      else Inl (diagnostic_error DuplicateOutputField
        (''output field '' @ debug_name (if_name f) @ '' occurs more than once'') sp))"

definition convert_projection ::
  "'x chrono_env_scheme \<Rightarrow> ast_projection \<Rightarrow> relation \<Rightarrow> diagnostic + ir_expression \<times> ir_field \<times> span" where
  "convert_projection C projection input = (case projection of
       ProjectField reference \<Rightarrow>
         sbind (resolve_field reference input) (\<lambda>f.
         Inr (expression_field f, f, field_reference_span reference))
     | ProjectComputed p \<Rightarrow>
         sbind (convert_expression C (cp_expression p) input) (\<lambda>e.
         Inr (e, \<lparr>if_name = id_value (cp_alias p), if_logical_type = ir_logical_type e,
                  if_nullability = ir_nullability e, if_origin = OriginDerived (id_span (cp_alias p))\<rparr>,
              id_span (cp_alias p)))
     | ProjectUnaliased e \<Rightarrow>
         Inl (diagnostic_error ProjectionAliasRequired ''computed projection requires an alias'' (ast_span e)))"

fun convert_projections ::
  "'x chrono_env_scheme \<Rightarrow> string set \<Rightarrow> ast_projection list \<Rightarrow> relation \<Rightarrow> diagnostic + ir_projection list" where
  "convert_projections C names [] input = Inr []"
| "convert_projections C names (p # ps) input =
     sbind (convert_projection C p input) (\<lambda>(e, f, sp).
     sbind (ensure_unique_output names f sp) (\<lambda>names.
     sbind (convert_projections C names ps input) (\<lambda>converted.
     Inr (\<lparr>pj_expression = e, pj_output_field = f\<rparr> # converted))))"

definition convert_project ::
  "'x chrono_env_scheme \<Rightarrow> ast_projection list \<Rightarrow> relation \<Rightarrow> diagnostic + ir_stage_kind \<times> relation" where
  "convert_project C projections input =
     sbind (convert_projections C {} projections input) (\<lambda>converted.
     Inr (IrProject converted, map pj_output_field converted))"

primrec convert_aggregate_function :: "ast_aggregate_function \<Rightarrow> aggregate_function" where
  "convert_aggregate_function AstCount = Count"
| "convert_aggregate_function AstSum = Sum"
| "convert_aggregate_function AstMin = Min"
| "convert_aggregate_function AstMax = Max"
| "convert_aggregate_function AstAvg = Average"

definition is_orderable_aggregate_type :: "logical_type \<Rightarrow> bool" where
  "is_orderable_aggregate_type t \<longleftrightarrow> is_numeric t \<or> t \<in> {TUtf8, TDatetime, TEid}"

definition invalid_aggregate_argument :: "aggregate_function \<Rightarrow> ir_field \<Rightarrow> span \<Rightarrow> diagnostic" where
  "invalid_aggregate_argument f field sp =
     diagnostic_error FunctionArgumentTypeInvalid
       (aggregate_function_as_str f @ '' does not accept an argument of type '' @
        logical_type_as_str (if_logical_type field)) sp"

definition aggregate_output ::
  "aggregate_function \<Rightarrow> ir_field option \<Rightarrow> aggregate_call \<Rightarrow> diagnostic + logical_type \<times> nullability" where
  "aggregate_output f argument aggregate =
     (if f = Count then Inr (TInt64, NonNull)
      else case argument of
        None \<Rightarrow> Inl (diagnostic_error FunctionArityInvalid
          (aggregate_function_as_str f @ '' requires one field argument'') (ac_span aggregate))
      | Some field \<Rightarrow>
          (let t = if_logical_type field in
           if f = Sum then
             (if t = TInt32 \<or> t = TInt64 then Inr (TInt64, Nullable)
              else if t = TUInt32 \<or> t = TUInt64 then Inr (TUInt64, Nullable)
              else if t = TFloat32 \<or> t = TFloat64 then Inr (TFloat64, Nullable)
              else Inl (invalid_aggregate_argument f field (ac_span aggregate)))
           else if f = Average \<and> is_numeric t then Inr (TFloat64, Nullable)
           else if (f = Min \<or> f = Max) \<and> is_orderable_aggregate_type t then Inr (t, Nullable)
           else Inl (invalid_aggregate_argument f field (ac_span aggregate))))"

fun convert_groups ::
  "string set \<Rightarrow> field_reference list \<Rightarrow> relation \<Rightarrow> diagnostic + string set \<times> ir_field list" where
  "convert_groups names [] input = Inr (names, [])"
| "convert_groups names (reference # refs) input =
     sbind (resolve_field reference input) (\<lambda>f.
     if if_logical_type f = TJson
     then Inl (type_mismatch ''summarize group keys do not support json'' (field_reference_span reference))
     else sbind (ensure_unique_output names f (field_reference_span reference)) (\<lambda>names.
       sbind (convert_groups names refs input) (\<lambda>(names, groups). Inr (names, f # groups))))"

fun convert_measures ::
  "string set \<Rightarrow> ast_measure list \<Rightarrow> relation \<Rightarrow> diagnostic + aggregate_expression list" where
  "convert_measures names [] input = Inr []"
| "convert_measures names (m # ms) input =
     (let aggregate = me_aggregate m in
      sbind (ok_or (me_alias m) (diagnostic_error AggregateAliasRequired
        ''aggregate measure requires an alias'' (ac_span aggregate))) (\<lambda>alias.
      sbind (case ac_argument aggregate of None \<Rightarrow> Inr None
          | Some reference \<Rightarrow> map_sum id Some (resolve_field reference input)) (\<lambda>argument.
      let f = convert_aggregate_function (ac_function aggregate) in
      sbind (aggregate_output f argument aggregate) (\<lambda>(t, n).
      let output = \<lparr>if_name = id_value alias, if_logical_type = t, if_nullability = n,
                    if_origin = OriginDerived (id_span alias)\<rparr> in
      sbind (ensure_unique_output names output (id_span alias)) (\<lambda>names.
      sbind (convert_measures names ms input) (\<lambda>measures.
      Inr (\<lparr>ae_function = f, ae_argument = argument, ae_output_field = output\<rparr> # measures)))))))"

definition convert_summarize ::
  "ast_measure list \<Rightarrow> field_reference list \<Rightarrow> relation \<Rightarrow> diagnostic + ir_stage_kind \<times> relation" where
  "convert_summarize ms group_by input =
     sbind (convert_groups {} group_by input) (\<lambda>(names, groups).
     sbind (convert_measures names ms input) (\<lambda>converted.
     Inr (IrAggregate converted groups, groups @ map ae_output_field converted)))"

definition convert_take :: "signed_integer_literal \<Rightarrow> diagnostic + ir_stage_kind" where
  "convert_take value =
     (if sil_sign value = Negative \<and> sil_magnitude value \<noteq> 0
      then Inl (diagnostic_error TakeInvalid ''take requires a non-negative signed 64-bit integer'' (sil_span value))
      else if sil_magnitude value > 9223372036854775807
      then Inl (diagnostic_error TakeInvalid ''take value is outside the signed 64-bit range'' (sil_span value))
      else Inr (IrTake (sil_magnitude value)))"

definition convert_sort_item :: "relation \<Rightarrow> sort_item \<Rightarrow> diagnostic + sort_spec" where
  "convert_sort_item input item =
     sbind (resolve_field (si_field item) input) (\<lambda>f.
     if if_logical_type f = TJson then Inl (type_mismatch ''sort does not support json fields'' (si_span item))
     else Inr \<lparr>ss_field = f, ss_order = (case si_direction item of
       SortAscending \<Rightarrow> Ascending | SortDescending \<Rightarrow> Descending)\<rparr>)"

definition convert_stage ::
  "'x chrono_env_scheme \<Rightarrow> ast_stage \<Rightarrow> relation \<Rightarrow> diagnostic + ir_stage" where
  "convert_stage C stage input =
     sbind (case st_kind stage of
         AstFilter e \<Rightarrow>
           sbind (convert_expression C e input) (\<lambda>converted.
           if ir_logical_type converted \<noteq> TBool
           then Inl (type_mismatch ''filter expression must have type bool'' (ast_span e))
           else Inr (IrFilter converted, input))
       | AstProject projections \<Rightarrow> convert_project C projections input
       | AstSort items \<Rightarrow>
           sbind (traverse (convert_sort_item input) items) (\<lambda>specs. Inr (IrSort specs, input))
       | AstTake value \<Rightarrow> sbind (convert_take value) (\<lambda>kind. Inr (kind, input))
       | AstSummarize ms group_by \<Rightarrow> convert_summarize ms group_by input) (\<lambda>(kind, output).
     Inr \<lparr>ig_kind = kind, ig_output_relation = output\<rparr>)"

section \<open>Time\<close>

record query_time_context =
  qt_reference_time :: int
  qt_request_start_inclusive :: "int option"
  qt_request_end_exclusive :: "int option"

primrec unit_milliseconds :: "time_unit \<Rightarrow> int" where
  "unit_milliseconds Second = 1000"
| "unit_milliseconds Minute = 60000"
| "unit_milliseconds Hour = 3600000"
| "unit_milliseconds Day = 86400000"

text \<open>\<open>div_euclid\<close> by a positive divisor is the flooring division.\<close>

definition truncate_time :: "int \<Rightarrow> time_unit \<Rightarrow> span \<Rightarrow> diagnostic + int" where
  "truncate_time value unit sp =
     (let unit = unit_milliseconds unit; truncated = value div unit * unit in
      ok_or (in_range in_i64 truncated)
        (diagnostic_error TimeExpressionInvalid ''time truncation is outside the UTC millisecond domain'' sp))"

definition shift_time :: "int \<Rightarrow> time_direction \<Rightarrow> nat \<Rightarrow> time_unit \<Rightarrow> span \<Rightarrow> diagnostic + int" where
  "shift_time value direction magnitude unit sp =
     (let delta = int magnitude * unit_milliseconds unit;
          result = (case direction of Forward \<Rightarrow> value + delta | Backward \<Rightarrow> value - delta) in
      ok_or (in_range in_i64 result)
        (diagnostic_error TimeExpressionInvalid
          ''relative time expression is outside the UTC millisecond domain'' sp))"

fun apply_time_operations :: "int \<Rightarrow> span \<Rightarrow> time_operation list \<Rightarrow> diagnostic + int" where
  "apply_time_operations value sp [] = Inr value"
| "apply_time_operations value sp (operation # operations) =
     sbind (case to_kind operation of
         Truncate unit \<Rightarrow> truncate_time value unit sp
       | Shift direction magnitude unit \<Rightarrow> shift_time value direction magnitude unit sp)
       (\<lambda>value. apply_time_operations value sp operations)"

definition evaluate_time_expression ::
  "'x chrono_env_scheme \<Rightarrow> time_expression \<Rightarrow> int \<Rightarrow> diagnostic + int" where
  "evaluate_time_expression C e reference_time = (case te_kind e of
       TimeDatetime value \<Rightarrow> parse_datetime C (sl_value value) (te_span e)
     | TimeNow \<Rightarrow> Inr reference_time
     | TimeRelative operations \<Rightarrow> apply_time_operations reference_time (te_span e) operations)"

definition resolve_time_range ::
  "'x chrono_env_scheme \<Rightarrow> query \<Rightarrow> query_time_context \<Rightarrow> diagnostic + time_range" where
  "resolve_time_range C q context =
     (let source = qu_source q in
      sbind (case se_start_inclusive source of
          Some e \<Rightarrow> evaluate_time_expression C e (qt_reference_time context)
        | None \<Rightarrow> ok_or (qt_request_start_inclusive context) (diagnostic_error TimeBoundUnresolved
            ''source start_inclusive cannot inherit a request bound'' (se_span source))) (\<lambda>start_inclusive.
      sbind (case se_end_exclusive source of
          Some e \<Rightarrow> evaluate_time_expression C e (qt_reference_time context)
        | None \<Rightarrow> ok_or (qt_request_end_exclusive context) (diagnostic_error TimeBoundUnresolved
            ''source end_exclusive cannot inherit a request bound'' (se_span source))) (\<lambda>end_exclusive.
      ok_or (time_range_new start_inclusive end_exclusive) (diagnostic_error TimeRangeInvalid
        ''source time range must satisfy start_inclusive < end_exclusive'' (se_span source)))))"

section \<open>Queries\<close>

text \<open>A \<open>CatalogSnapshot\<close> is an optional source.\<close>

definition snapshot_source :: "source option \<Rightarrow> string \<Rightarrow> source option" where
  "snapshot_source snapshot name = option_filter (\<lambda>s. src_name s = name) snapshot"

definition relation_from_schema :: "schema \<Rightarrow> relation" where
  "relation_from_schema s =
     map (\<lambda>f. \<lparr>if_name = fld_name f, if_logical_type = fld_logical_type f,
               if_nullability = fld_nullability f,
               if_origin = (if fld_role f = RoleData then OriginSchema (fld_id f) else OriginSystem (fld_id f))\<rparr>)
       (sc_fields s)"

datatype analyze_error_kind = ErrorSyntax | ErrorSemantic

primrec analyze_error_code :: "analyze_error_kind \<Rightarrow> error_code" where
  "analyze_error_code ErrorSyntax = CodeQuerySyntaxError"
| "analyze_error_code ErrorSemantic = CodeQuerySemanticError"

record analyze_error =
  an_kind :: analyze_error_kind
  an_diagnostics :: "diagnostic list"

record analysis =
  ay_pipeline :: pipeline
  ay_diagnostics :: "diagnostic list"

definition semantic_failure :: "diagnostic list \<Rightarrow> diagnostic \<Rightarrow> analyze_error" where
  "semantic_failure diagnostics error = \<lparr>an_kind = ErrorSemantic, an_diagnostics = diagnostics @ [error]\<rparr>"

datatype pipeline_position = Rows | Summarized

fun is_summarize :: "ast_stage_kind \<Rightarrow> bool" where
  "is_summarize (AstSummarize _ _) = True"
| "is_summarize _ = False"

fun is_sort_or_take :: "ast_stage_kind \<Rightarrow> bool" where
  "is_sort_or_take (AstSort _) = True"
| "is_sort_or_take (AstTake _) = True"
| "is_sort_or_take _ = False"

fun convert_stages ::
  "'x chrono_env_scheme \<Rightarrow> pipeline_position \<Rightarrow> relation \<Rightarrow> ast_stage list \<Rightarrow> diagnostic + ir_stage list" where
  "convert_stages C position r [] = Inr []"
| "convert_stages C position r (stage # stages) =
     (if position = Summarized \<and> \<not> is_sort_or_take (st_kind stage)
      then Inl (diagnostic_error StageOrderInvalid ''only sort and take may follow summarize'' (st_span stage))
      else sbind (convert_stage C stage r) (\<lambda>converted.
        sbind (convert_stages C (if is_summarize (st_kind stage) then Summarized else position)
          (ig_output_relation converted) stages) (\<lambda>rest.
        Inr (converted # rest))))"

text \<open>
  The vector of diagnostics is passed down to \<open>resolve_field\<close>, which ignores it, and nothing else
  adds to it: a failure carries the vector with the error appended.
\<close>

definition convert_query ::
  "'x chrono_env_scheme \<Rightarrow> query \<Rightarrow> source option \<Rightarrow> query_time_context \<Rightarrow> analyze_error + analysis" where
  "convert_query C q catalog time_context =
     (let diagnostics = []; source_name = se_name (qu_source q) in
      sbind (ok_or (snapshot_source catalog (id_value source_name)) (semantic_failure []
        (diagnostic_error SourceNotFound (''source '' @ debug_name (id_value source_name) @
          '' was not found in the catalog snapshot'') (id_span source_name)))) (\<lambda>catalog_source.
      let schema = active_schema catalog_source;
          source_relation = relation_from_schema schema;
          source = \<lparr>is_source_id = src_id catalog_source, is_name = src_name catalog_source,
                    is_active_schema_id = sc_id schema\<rparr> in
      sbind (map_err (semantic_failure diagnostics) (resolve_time_range C q time_context)) (\<lambda>time_range.
      sbind (map_err (semantic_failure diagnostics) (convert_stages C Rows source_relation (qu_stages q))) (\<lambda>stages.
      Inr \<lparr>ay_pipeline = \<lparr>pl_source = source, pl_time_range = time_range,
             pl_source_relation = source_relation, pl_stages = stages\<rparr>,
           ay_diagnostics = diagnostics\<rparr>))))"

section \<open>Positions of diagnostics\<close>

text \<open>
  A query text is UTF-8: a byte in \<open>0x80..0xBF\<close> continues a character, so that \<open>str::get(..n)\<close>
  fails inside a character and the number of characters is the number of other bytes.
\<close>

definition is_continuation :: "char \<Rightarrow> bool" where
  "is_continuation c \<longleftrightarrow> 128 \<le> (of_char c :: nat) \<and> (of_char c :: nat) < 192"

definition is_char_boundary :: "string \<Rightarrow> nat \<Rightarrow> bool" where
  "is_char_boundary s n \<longleftrightarrow> n = length s \<or> n < length s \<and> \<not> is_continuation (s ! n)"

fun advance_position :: "source_position \<Rightarrow> string \<Rightarrow> source_position" where
  "advance_position p [] = p"
| "advance_position p (c # cs) = advance_position
     (if is_continuation c then p
      else if c = CHR 0x0A then \<lparr>pos_line = pos_line p + 1, pos_column = 1\<rparr>
      else p\<lparr>pos_column := pos_column p + 1\<rparr>) cs"

definition source_position_at :: "string \<Rightarrow> nat \<Rightarrow> source_position option" where
  "source_position_at source byte_offset =
     (if is_char_boundary source byte_offset
      then Some (advance_position \<lparr>pos_line = 1, pos_column = 1\<rparr> (take byte_offset source))
      else None)"

definition attach_source_range :: "string \<Rightarrow> diagnostic \<Rightarrow> diagnostic" where
  "attach_source_range source d = d\<lparr>diag_source_range := (case diag_span d of
       None \<Rightarrow> None
     | Some sp \<Rightarrow> (case (source_position_at source (sp_start sp), source_position_at source (sp_end sp)) of
           (Some s, Some e) \<Rightarrow> Some \<lparr>sr_start = s, sr_end = e\<rparr>
         | _ \<Rightarrow> None))\<rparr>"

definition severity_sort_order :: "diagnostic_severity \<Rightarrow> nat" where
  "severity_sort_order s = (case s of SeverityError \<Rightarrow> 0 | SeverityWarning \<Rightarrow> 1)"

text \<open>\<open>compare_diagnostics\<close> compares these keys lexicographically.\<close>

definition diagnostic_key :: "diagnostic \<Rightarrow> nat \<times> nat \<times> nat \<times> string" where
  "diagnostic_key d =
     (let sp = (case diag_span d of Some s \<Rightarrow> s | None \<Rightarrow> \<lparr>sp_start = u64_max, sp_end = u64_max\<rparr>) in
      (sp_start sp, sp_end sp, severity_sort_order (diag_severity d),
       diagnostic_code_as_str (diag_code d)))"

definition finish_diagnostics :: "string \<Rightarrow> diagnostic list \<Rightarrow> diagnostic list" where
  "finish_diagnostics source ds = sort_key diagnostic_key (map (attach_source_range source) ds)"

definition analyze_parsed ::
  "'x chrono_env_scheme \<Rightarrow> string \<Rightarrow> query \<Rightarrow> source option \<Rightarrow> query_time_context \<Rightarrow> analyze_error + analysis" where
  "analyze_parsed C text q catalog time_context =
     map_sum (\<lambda>e. e\<lparr>an_diagnostics := finish_diagnostics text (an_diagnostics e)\<rparr>)
       (\<lambda>a. a\<lparr>ay_diagnostics := finish_diagnostics text (ay_diagnostics a)\<rparr>)
       (convert_query C q catalog time_context)"

end
