(* ===== verification/Query_Soundness.thy ===== *)
theory Query_Soundness
  imports Query_Typing Query_Pipeline
begin

text \<open>
  Soundness of the analysis of stages and pipelines: relations have distinct names, every stage
  is well typed over the output of the one before, and time ranges are proper intervals.
\<close>

section \<open>Stages\<close>

definition relation_ok :: "relation \<Rightarrow> bool" where
  "relation_ok r \<longleftrightarrow> distinct (map if_name r)"

fun aggregate_typed :: "aggregate_function \<Rightarrow> logical_type option \<Rightarrow> logical_type \<Rightarrow> nullability \<Rightarrow> bool" where
  "aggregate_typed Count _ t n = (t = TInt64 \<and> n = NonNull)"
| "aggregate_typed f None t n = False"
| "aggregate_typed Sum (Some s) t n = (n = Nullable \<and>
     (s \<in> {TInt32, TInt64} \<and> t = TInt64 \<or> s \<in> {TUInt32, TUInt64} \<and> t = TUInt64 \<or>
      s \<in> {TFloat32, TFloat64} \<and> t = TFloat64))"
| "aggregate_typed Average (Some s) t n = (is_numeric s \<and> t = TFloat64 \<and> n = Nullable)"
| "aggregate_typed _ (Some s) t n = (s \<noteq> TBool \<and> s \<noteq> TJson \<and> t = s \<and> n = Nullable)"

definition measure_ok :: "relation \<Rightarrow> aggregate_expression \<Rightarrow> bool" where
  "measure_ok r m \<longleftrightarrow>
     (case ae_argument m of None \<Rightarrow> True | Some f \<Rightarrow> f \<in> set r) \<and>
     aggregate_typed (ae_function m) (map_option if_logical_type (ae_argument m))
       (if_logical_type (ae_output_field m)) (if_nullability (ae_output_field m))"

definition projection_ok :: "relation \<Rightarrow> ir_projection \<Rightarrow> bool" where
  "projection_ok r p \<longleftrightarrow> ir_ok r (pj_expression p) \<and>
     if_logical_type (pj_output_field p) = ir_logical_type (pj_expression p) \<and>
     if_nullability (pj_output_field p) = ir_nullability (pj_expression p)"

definition stage_ok :: "relation \<Rightarrow> ir_stage \<Rightarrow> bool" where
  "stage_ok r s = (case ig_kind s of
       IrFilter e \<Rightarrow> ir_ok r e \<and> ir_logical_type e = TBool \<and> ig_output_relation s = r
     | IrProject ps \<Rightarrow> list_all (projection_ok r) ps \<and> ig_output_relation s = map pj_output_field ps
     | IrAggregate ms gs \<Rightarrow> list_all (measure_ok r) ms \<and>
         list_all (\<lambda>g. g \<in> set r \<and> if_logical_type g \<noteq> TJson) gs \<and>
         ig_output_relation s = gs @ map ae_output_field ms
     | IrSort specs \<Rightarrow> list_all (\<lambda>sp. ss_field sp \<in> set r \<and> if_logical_type (ss_field sp) \<noteq> TJson) specs \<and>
         ig_output_relation s = r
     | IrTake n \<Rightarrow> n < 2 ^ 63 \<and> ig_output_relation s = r)"

text \<open>The magnitudes in the expressions of a stage are \<open>u64\<close> values.\<close>

definition ast_stage_ok :: "ast_stage \<Rightarrow> bool" where
  "ast_stage_ok s = (case st_kind s of
       AstFilter e \<Rightarrow> ast_ok e
     | AstProject ps \<Rightarrow> list_all (\<lambda>p. case p of ProjectComputed c \<Rightarrow> ast_ok (cp_expression c) | _ \<Rightarrow> True) ps
     | _ \<Rightarrow> True)"

lemma ensure_unique_output_Inr [result_simps]:
  "ensure_unique_output names f sp = Inr names' \<longleftrightarrow> if_name f \<notin> names \<and> names' = insert (if_name f) names"
  by (auto simp: ensure_unique_output_def)

lemma resolve_field_Inr: "resolve_field ref r = Inr f \<Longrightarrow> f \<in> set r"
  by (auto simp: resolve_field_def result_simps dest: relation_field_in)

lemma convert_projection_ok:
  assumes "chrono_ok C" "case p of ProjectComputed c \<Rightarrow> ast_ok (cp_expression c) | _ \<Rightarrow> True"
    "convert_projection C p r = Inr (e, f, sp)"
  shows "ir_ok r e \<and> if_logical_type f = ir_logical_type e \<and> if_nullability f = ir_nullability e"
proof (cases p)
  case (ProjectField x1)
  with assms show ?thesis
    by (auto simp: convert_projection_def result_simps expression_field_def dest: resolve_field_Inr)
next
  case (ProjectComputed c)
  with assms convert_expression_with_expected_typed [of C "cp_expression c" r None e] show ?thesis
    by (auto simp: convert_projection_def result_simps convert_expression_def)
next
  case (ProjectUnaliased x3)
  with assms show ?thesis by (simp add: convert_projection_def)
qed

lemma convert_projections_ok:
  assumes "chrono_ok C"
  shows "convert_projections C names ps r = Inr qs \<Longrightarrow>
    list_all (\<lambda>p. case p of ProjectComputed c \<Rightarrow> ast_ok (cp_expression c) | _ \<Rightarrow> True) ps \<Longrightarrow>
    list_all (projection_ok r) qs \<and> distinct (map (if_name \<circ> pj_output_field) qs) \<and>
    (if_name \<circ> pj_output_field) ` set qs \<inter> names = {}"
proof (induction ps arbitrary: names qs)
  case (Cons p ps)
  from Cons.prems(1) obtain e f sp qs' where p: "convert_projection C p r = Inr (e, f, sp)"
    and name: "if_name f \<notin> names" and rest: "convert_projections C (insert (if_name f) names) ps r = Inr qs'"
    and qs: "qs = \<lparr>pj_expression = e, pj_output_field = f\<rparr> # qs'"
    by (auto simp: result_simps)
  from Cons.IH [OF rest] Cons.prems(2) convert_projection_ok [OF assms _ p] name qs
  show ?case by (auto simp: projection_ok_def)
qed simp

lemma convert_groups_ok:
  "convert_groups names refs r = Inr (names', gs) \<Longrightarrow>
   list_all (\<lambda>g. g \<in> set r \<and> if_logical_type g \<noteq> TJson) gs \<and> distinct (map if_name gs) \<and>
   if_name ` set gs \<inter> names = {} \<and> names' = names \<union> if_name ` set gs"
proof (induction refs arbitrary: names names' gs)
  case (Cons ref refs)
  then obtain f gs' where f: "resolve_field ref r = Inr f" "if_logical_type f \<noteq> TJson" "if_name f \<notin> names"
    and rest: "convert_groups (insert (if_name f) names) refs r = Inr (names', gs')" and gs: "gs = f # gs'"
    by (auto simp: result_simps split: if_split_asm)
  from Cons.IH [OF rest] f gs resolve_field_Inr [OF f(1)] show ?case by auto
qed simp

lemma aggregate_output_typed:
  assumes "aggregate_output f arg call = Inr (t, n)"
  shows "aggregate_typed f (map_option if_logical_type arg) t n"
proof (cases "f = Count")
  case True
  with assms show ?thesis by (simp add: aggregate_output_def)
next
  case False
  with assms obtain g where "arg = Some g" by (cases arg) (simp_all add: aggregate_output_def)
  with False assms show ?thesis
    by (cases f; cases "if_logical_type g")
      (simp_all add: aggregate_output_def Let_def is_numeric_def is_orderable_aggregate_type_def)
qed

lemma convert_measures_ok:
  "convert_measures names ms r = Inr qs \<Longrightarrow>
   list_all (measure_ok r) qs \<and> distinct (map (if_name \<circ> ae_output_field) qs) \<and>
   (if_name \<circ> ae_output_field) ` set qs \<inter> names = {}"
proof (induction ms arbitrary: names qs)
  case (Cons m ms)
  let ?f = "convert_aggregate_function (ac_function (me_aggregate m))"
  let ?arg = "case ac_argument (me_aggregate m) of None \<Rightarrow> Inr None
    | Some ref \<Rightarrow> map_sum id Some (resolve_field ref r)"
  obtain ali where ali: "me_alias m = Some ali"
    using Cons.prems by (cases "me_alias m") (auto simp: Let_def)
  obtain arg where arg: "?arg = Inr arg"
    using Cons.prems ali by (cases ?arg) (auto simp: Let_def)
  obtain t n where out: "aggregate_output ?f arg (me_aggregate m) = Inr (t, n)"
    using Cons.prems ali arg by (cases "aggregate_output ?f arg (me_aggregate m)") (auto simp: Let_def)
  define f where "f = \<lparr>if_name = id_value ali, if_logical_type = t, if_nullability = n,
    if_origin = OriginDerived (id_span ali)\<rparr>"
  have "sbind (ensure_unique_output names f (id_span ali)) (\<lambda>names.
        sbind (convert_measures names ms r) (\<lambda>measures.
        Inr (\<lparr>ae_function = ?f, ae_argument = arg, ae_output_field = f\<rparr> # measures))) = Inr qs"
    using Cons.prems ali arg out by (simp add: Let_def f_def)
  then obtain qs' where name: "if_name f \<notin> names"
    and rest: "convert_measures (insert (if_name f) names) ms r = Inr qs'"
    and qs: "qs = \<lparr>ae_function = ?f, ae_argument = arg, ae_output_field = f\<rparr> # qs'"
    by (auto simp: result_simps)
  have "case arg of None \<Rightarrow> True | Some f \<Rightarrow> f \<in> set r"
    using arg by (auto simp: result_simps split: option.split_asm dest: resolve_field_Inr)
  moreover have "if_logical_type f = t" "if_nullability f = n" by (simp_all add: f_def)
  ultimately show ?case
    using aggregate_output_typed [OF out] Cons.IH [OF rest] name qs by (auto simp: measure_ok_def)
qed simp

lemma convert_stage_ok:
  assumes "chrono_ok C" "ast_stage_ok s" "relation_ok r" "convert_stage C s r = Inr t"
  shows "stage_ok r t \<and> relation_ok (ig_output_relation t)"
proof (cases "st_kind s")
  case (AstFilter e)
  with assms convert_expression_with_expected_typed [of C e r None] show ?thesis
    by (auto simp: convert_stage_def result_simps stage_ok_def ast_stage_ok_def convert_expression_def
        split: if_split_asm)
next
  case (AstProject ps)
  with assms(4) obtain qs where qs: "convert_projections C {} ps r = Inr qs"
    and t: "t = \<lparr>ig_kind = IrProject qs, ig_output_relation = map pj_output_field qs\<rparr>"
    by (auto simp: convert_stage_def convert_project_def result_simps)
  from AstProject assms(2) convert_projections_ok [OF assms(1) qs] show ?thesis
    by (simp add: t stage_ok_def relation_ok_def ast_stage_ok_def comp_def)
next
  case (AstSort items)
  with assms(4) obtain specs where specs: "list_all2 (\<lambda>i s. convert_sort_item r i = Inr s) items specs"
    and t: "t = \<lparr>ig_kind = IrSort specs, ig_output_relation = r\<rparr>"
    by (auto simp: convert_stage_def result_simps traverse_eq_Inr)
  have "list_all (\<lambda>sp. ss_field sp \<in> set r \<and> if_logical_type (ss_field sp) \<noteq> TJson) specs"
    using specs by (induction rule: list_all2_induct)
      (auto simp: convert_sort_item_def result_simps split: if_split_asm dest: resolve_field_Inr)
  with assms(3) show ?thesis by (simp add: t stage_ok_def)
next
  case (AstTake v)
  with assms show ?thesis
    by (auto simp: convert_stage_def convert_take_def result_simps stage_ok_def split: if_split_asm)
next
  case (AstSummarize ms gs)
  with assms(4) obtain names groups qs where gs: "convert_groups {} gs r = Inr (names, groups)"
    and qs: "convert_measures names ms r = Inr qs"
    and t: "t = \<lparr>ig_kind = IrAggregate qs groups, ig_output_relation = groups @ map ae_output_field qs\<rparr>"
    by (auto simp: convert_stage_def convert_summarize_def result_simps)
  from convert_groups_ok [OF gs] convert_measures_ok [OF qs] show ?thesis
    by (auto simp: t stage_ok_def relation_ok_def comp_def)
qed

section \<open>Pipelines\<close>

fun stages_ok :: "relation \<Rightarrow> ir_stage list \<Rightarrow> bool" where
  "stages_ok r [] = True"
| "stages_ok r (s # ss) = (stage_ok r s \<and> relation_ok (ig_output_relation s) \<and> stages_ok (ig_output_relation s) ss)"

fun ir_is_aggregate :: "ir_stage_kind \<Rightarrow> bool" where
  "ir_is_aggregate (IrAggregate _ _) = True"
| "ir_is_aggregate _ = False"

fun ir_is_sort_or_take :: "ir_stage_kind \<Rightarrow> bool" where
  "ir_is_sort_or_take (IrSort _) = True"
| "ir_is_sort_or_take (IrTake _) = True"
| "ir_is_sort_or_take _ = False"

definition aggregates_end_rows :: "ir_stage list \<Rightarrow> bool" where
  "aggregates_end_rows ss \<longleftrightarrow>
     sorted_wrt (\<lambda>s t. ir_is_aggregate (ig_kind s) \<longrightarrow> ir_is_sort_or_take (ig_kind t)) ss"

lemma convert_stage_kind:
  "convert_stage C s r = Inr t \<Longrightarrow>
   ir_is_aggregate (ig_kind t) = is_summarize (st_kind s) \<and>
   ir_is_sort_or_take (ig_kind t) = is_sort_or_take (st_kind s)"
  by (cases "st_kind s") (auto simp: convert_stage_def convert_project_def convert_summarize_def
      convert_take_def result_simps split: if_split_asm)

lemma convert_stages_ok:
  assumes "chrono_ok C"
  shows "convert_stages C pos r ss = Inr ts \<Longrightarrow> list_all ast_stage_ok ss \<Longrightarrow> relation_ok r \<Longrightarrow> stages_ok r ts"
proof (induction ss arbitrary: pos r ts)
  case (Cons s ss)
  then obtain t ts' where t: "convert_stage C s r = Inr t" and ts: "ts = t # ts'"
    and rest: "\<exists>pos. convert_stages C pos (ig_output_relation t) ss = Inr ts'"
    by (auto simp: result_simps split: if_split_asm)
  from convert_stage_ok [OF assms _ Cons.prems(3) t] Cons.prems(2) rest Cons.IH ts show ?case by auto
qed simp

lemma convert_stages_order:
  "convert_stages C pos r ss = Inr ts \<Longrightarrow>
   aggregates_end_rows ts \<and> (pos = Summarized \<longrightarrow> list_all (\<lambda>t. ir_is_sort_or_take (ig_kind t)) ts)"
proof (induction ss arbitrary: pos r ts)
  case Nil
  then show ?case by (simp add: aggregates_end_rows_def)
next
  case (Cons s ss)
  then obtain t ts' where pos: "pos = Summarized \<Longrightarrow> is_sort_or_take (st_kind s)"
    and t: "convert_stage C s r = Inr t" and ts: "ts = t # ts'"
    and rest: "convert_stages C (if is_summarize (st_kind s) then Summarized else pos) (ig_output_relation t) ss = Inr ts'"
    by (auto simp: result_simps split: if_split_asm)
  have "\<not> (is_summarize k \<and> is_sort_or_take k)" for k by (cases k) simp_all
  with Cons.IH [OF rest] convert_stage_kind [OF t] pos ts show ?case
    by (auto simp: aggregates_end_rows_def list_all_iff)
qed

section \<open>Time\<close>

lemma unit_milliseconds_pos [simp]: "0 < unit_milliseconds u"
  by (cases u) simp_all

lemma truncate_time_Inr:
  "truncate_time v u sp = Inr w \<longleftrightarrow>
   in_i64 w \<and> unit_milliseconds u dvd w \<and> w \<le> v \<and> v < w + unit_milliseconds u"
proof -
  let ?m = "unit_milliseconds u"
  have "v div ?m * ?m \<le> v" "v < v div ?m * ?m + ?m"
    using minus_mod_eq_div_mult [of v ?m] pos_mod_sign [of ?m v] pos_mod_bound [of ?m v] unit_milliseconds_pos [of u]
    by linarith+
  moreover have "w = v div ?m * ?m" if "?m dvd w" "w \<le> v" "v < w + ?m"
  proof -
    from that obtain k where k: "w = ?m * k" by (auto simp: dvd_def)
    have "v div ?m = k" by (rule int_div_pos_eq [of v ?m k "v - w"]) (use that k in auto)
    then show ?thesis using k by simp
  qed
  ultimately show ?thesis
    by (auto simp: truncate_time_def Let_def result_simps in_range_def)
qed

lemma shift_time_Inr:
  "shift_time v d n u sp = Inr w \<longleftrightarrow>
   in_i64 w \<and> w = v + (if d = Forward then 1 else - 1) * int n * unit_milliseconds u"
  by (cases d) (auto simp: shift_time_def Let_def result_simps in_range_def)

lemma apply_time_operations_range:
  "in_i64 v \<Longrightarrow> apply_time_operations v sp ops = Inr w \<Longrightarrow> in_i64 w"
  by (induction ops arbitrary: v)
    (auto simp: result_simps truncate_time_Inr shift_time_Inr split: time_operation_kind.split_asm)

definition time_context_ok :: "query_time_context \<Rightarrow> bool" where
  "time_context_ok c \<longleftrightarrow> in_i64 (qt_reference_time c) \<and>
     pred_option in_i64 (qt_request_start_inclusive c) \<and> pred_option in_i64 (qt_request_end_exclusive c)"

lemma evaluate_time_expression_range:
  "chrono_ok C \<Longrightarrow> in_i64 ref \<Longrightarrow> evaluate_time_expression C e ref = Inr w \<Longrightarrow> in_i64 w"
  by (auto simp: evaluate_time_expression_def parse_datetime_def split: time_expression_kind.split_asm
      dest: parse_datetime_typed apply_time_operations_range)

lemma resolve_time_range_ok:
  assumes "chrono_ok C" "time_context_ok c" "resolve_time_range C q c = Inr t"
  shows "tr_start_inclusive t < tr_end_exclusive t \<and> in_i64 (tr_start_inclusive t) \<and> in_i64 (tr_end_exclusive t)"
  using assms
  by (auto simp: resolve_time_range_def Let_def result_simps time_range_new_def time_context_ok_def
      split: option.split_asm if_split_asm dest: evaluate_time_expression_range)

end
