(* ===== verification/Query_Reports.thy ===== *)
theory Query_Reports
  imports Query_Soundness
begin

text \<open>
  Two further groups of facts on the analysis: an expression that takes its type from its context
  has that type, and every failure is an error that points at the query text.
\<close>

section \<open>Contextual types\<close>

lemma fold_unary_type:
  "fold_unary op a sp = Inr (Some e) \<Longrightarrow> ir_ok r a \<Longrightarrow> unary_operator ast (ir_logical_type a) sp' = Inr op \<Longrightarrow>
   ir_logical_type e = ir_logical_type a"
  using fold_unary_typed [OF _ _ unary_operator_typed] by fastforce

lemma convert_unary_context:
  assumes "conv_typed r conv a" "ast_ok a" "convert_unary conv AstNegate a sp (Some t) = Inr e" "is_numeric t"
    "\<And>ir. conv a (Some t) = Inr ir \<Longrightarrow> ir_logical_type ir = t"
  shows "ir_logical_type e = t"
proof (cases "case ast_kind a of AstLiteral l \<Rightarrow> (case al_kind l of LitInteger m \<Rightarrow> Some m | _ \<Rightarrow> None) | _ \<Rightarrow> None")
  case (Some m)
  then have "m \<le> u64_max" using assms(2)
    by (cases a) (auto split: ast_expression_kind.splits literal_kind.splits)
  with assms(3) Some show ?thesis
    by (auto simp: convert_unary_def result_simps dest: integer_literal_typed)
next
  case None
  then obtain b op' folded where b: "conv a (Some t) = Inr b"
    and op': "unary_operator AstNegate (ir_logical_type b) sp = Inr op'"
    and folded: "fold_unary op' b sp = Inr folded"
    and e: "(case folded of Some e \<Rightarrow> Inr e | None \<Rightarrow> Inr (IrExpression (IrUnary op' b) (ir_logical_type b)
        (ir_nullability b))) = (Inr e :: diagnostic + ir_expression)"
    using assms(3,4) by (auto simp: convert_unary_def option_filter_def result_simps)
  have "ir_logical_type e = ir_logical_type b"
    using e folded fold_unary_type [OF _ conv_typedD [OF assms(1) b] op'] by (auto split: option.split_asm)
  with assms(5) [OF b] show ?thesis by simp
qed

lemma common_numeric_type_same: "is_numeric t \<Longrightarrow> common_numeric_type t t = Some t"
  by (cases t) (simp_all add: is_numeric_def common_numeric_type_def)

lemma convert_binary_context:
  assumes "conv_typed r conv a" "conv_typed r conv b" "is_numeric t" "is_arithmetic op"
    "needs_context a" "needs_context b" "convert_binary conv op a b sp (Some t) = Inr e"
    "\<And>ir. conv a (Some t) = Inr ir \<Longrightarrow> ir_logical_type ir = t"
    "\<And>ir. conv b (Some t) = Inr ir \<Longrightarrow> ir_logical_type ir = t"
  shows "ir_logical_type e = t"
proof -
  have op: "op \<notin> {AstEqual, AstNotEqual}" "op \<notin> {AstAnd, AstOr}" "arithmetic_op (binary_operator op)"
    using assms(4) by (auto simp: is_arithmetic_def arithmetic_op_def)
  obtain l m u where pair: "convert_contextual_pair conv a b (Some t) = Inr (l, m)"
    and u: "common_numeric_type (ir_logical_type l) (ir_logical_type m) = Some u"
    and e: "build_binary op (coerce_losslessly l u) (coerce_losslessly m u) u sp = Inr e"
    using assms(3,4,7) op
    by (auto simp: convert_binary_def convert_numeric_pair_def option_filter_def result_simps split: if_split_asm)
  have lm: "conv a (Some t) = Inr l" "conv b (Some t) = Inr m"
    using pair assms(5,6) by (auto simp: convert_contextual_pair_def Let_def result_simps)
  note types = assms(8) [OF lm(1)] assms(9) [OF lm(2)]
  have "u = t" using u types common_numeric_type_same [OF assms(3)] by simp
  moreover have "coerce_losslessly l t = l" "coerce_losslessly m t = m"
    using types by (simp_all add: coerce_losslessly_def)
  ultimately have "build_binary op l m t sp = Inr e" using e by simp
  from build_binary_typed [OF this conv_typedD [OF assms(1) lm(1)] conv_typedD [OF assms(2) lm(2)]]
  show ?thesis using types op assms(3) by (simp add: binary_typed_def)
qed

lemma convert_expression_context:
  assumes "chrono_ok C"
  shows "needs_context e \<Longrightarrow> is_numeric t \<Longrightarrow> ast_ok e \<Longrightarrow>
    convert_expression_with_expected C r e (Some t) = Inr ir \<Longrightarrow> ir_logical_type ir = t"
proof (induction "size e" arbitrary: e ir rule: less_induct)
  case less
  obtain kind sp where e: "e = AstExpression kind sp" by (cases e)
  have typed: "conv_typed r (convert_expression_with_expected C r) a" if "ast_ok a" for a
    unfolding conv_typed_def using convert_expression_with_expected_typed [OF assms that] by blast
  show ?case
  proof (cases kind)
    case (AstLiteral l)
    with less.prems e show ?thesis
      by (auto simp: convert_literal_def result_simps split: literal_kind.split_asm dest: integer_literal_typed)
  next
    case (AstUnary op a)
    with less.prems e have ok: "op = AstNegate" "needs_context a" "ast_ok a"
      "convert_unary (convert_expression_with_expected C r) AstNegate a sp (Some t) = Inr ir" by auto
    have "size a < size e" using e AstUnary by simp
    from convert_unary_context [OF typed [OF ok(3)] ok(3,4) less.prems(2)]
    show ?thesis using less.hyps [OF \<open>size a < size e\<close> ok(2) less.prems(2) ok(3)] by blast
  next
    case (AstBinary op a b)
    with less.prems e have ok: "is_arithmetic op" "needs_context a" "needs_context b" "ast_ok a" "ast_ok b"
      "convert_binary (convert_expression_with_expected C r) op a b sp (Some t) = Inr ir" by auto
    have size: "size a < size e" "size b < size e" using e AstBinary by simp_all
    from convert_binary_context [OF typed [OF ok(4)] typed [OF ok(5)] less.prems(2) ok(1-3) ok(6)]
    show ?thesis
      using less.hyps [OF size(1) ok(2) less.prems(2) ok(4)] less.hyps [OF size(2) ok(3) less.prems(2) ok(5)] by blast
  qed (use less.prems e in simp_all)
qed

section \<open>Failures\<close>

text \<open>
  Where an analysis may fail, and with which code: each node of the syntax tree with the codes
  that its own conversion reports at its span.
\<close>

primrec literal_codes :: "literal_kind \<Rightarrow> diagnostic_code set" where
  "literal_codes LitNull = {TypeMismatch}"
| "literal_codes (LitBoolean _) = {}"
| "literal_codes (LitInteger _) = {LiteralInvalid, TypeMismatch}"
| "literal_codes (LitFloatingPoint _) = {LiteralInvalid}"
| "literal_codes (LitString _) = {}"

primrec unary_codes :: "ast_unary_operator \<Rightarrow> diagnostic_code set" where
  "unary_codes AstNot = {TypeMismatch}"
| "unary_codes AstNegate = {TypeMismatch, LiteralInvalid, ConstantEvaluationFailed}"

definition binary_codes :: "ast_binary_operator \<Rightarrow> diagnostic_code set" where
  "binary_codes op = (if is_arithmetic op then {TypeMismatch, ConstantEvaluationFailed} else {TypeMismatch})"

primrec expression_sites :: "ast_expression \<Rightarrow> (diagnostic_code \<times> span) set"
  and kind_sites :: "ast_expression_kind \<Rightarrow> span \<Rightarrow> (diagnostic_code \<times> span) set"
  and cast_sites :: "cast_expression \<Rightarrow> (diagnostic_code \<times> span) set" where
  "expression_sites (AstExpression kind sp) = kind_sites kind sp"
| "kind_sites (AstLiteral l) = (\<lambda>sp. literal_codes (al_kind l) \<times> {sp})"
| "kind_sites (AstField reference) = (\<lambda>sp. {(FieldNotFound, field_reference_span reference)})"
| "kind_sites (AstConstructor con) = (\<lambda>sp. {(LiteralInvalid, con_span con)})"
| "kind_sites (AstCast c) = (\<lambda>sp. cast_sites c)"
| "kind_sites (AstRemainder access) = (\<lambda>sp. {(FieldNotFound, rem_span access)})"
| "kind_sites (AstUnary op e) = (\<lambda>sp. unary_codes op \<times> {sp} \<union> expression_sites e)"
| "kind_sites (AstBinary op a b) = (\<lambda>sp. binary_codes op \<times> {sp} \<union> expression_sites a \<union> expression_sites b)"
| "cast_sites (CastExpression kind e target sp) = insert (CastInvalid, sp) (expression_sites e)"

primrec projection_sites :: "ast_projection \<Rightarrow> (diagnostic_code \<times> span) set" where
  "projection_sites (ProjectField reference) = {FieldNotFound, DuplicateOutputField} \<times> {field_reference_span reference}"
| "projection_sites (ProjectComputed p) =
     insert (DuplicateOutputField, id_span (cp_alias p)) (expression_sites (cp_expression p))"
| "projection_sites (ProjectUnaliased e) = {(ProjectionAliasRequired, ast_span e)}"

definition measure_sites :: "ast_measure \<Rightarrow> (diagnostic_code \<times> span) set" where
  "measure_sites m =
     {FunctionArityInvalid, FunctionArgumentTypeInvalid} \<times> {ac_span (me_aggregate m)} \<union>
     (case me_alias m of None \<Rightarrow> {(AggregateAliasRequired, ac_span (me_aggregate m))}
      | Some alias \<Rightarrow> {(DuplicateOutputField, id_span alias)}) \<union>
     (\<lambda>reference. (FieldNotFound, field_reference_span reference)) ` set_option (ac_argument (me_aggregate m))"

primrec stage_sites :: "ast_stage_kind \<Rightarrow> (diagnostic_code \<times> span) set" where
  "stage_sites (AstFilter e) = insert (TypeMismatch, ast_span e) (expression_sites e)"
| "stage_sites (AstProject ps) = \<Union> (projection_sites ` set ps)"
| "stage_sites (AstSort items) =
     (\<Union>i \<in> set items. {(FieldNotFound, field_reference_span (si_field i)), (TypeMismatch, si_span i)})"
| "stage_sites (AstTake value) = {(TakeInvalid, sil_span value)}"
| "stage_sites (AstSummarize ms groups) =
     \<Union> (measure_sites ` set ms) \<union>
     (\<Union>g \<in> set groups. {FieldNotFound, TypeMismatch, DuplicateOutputField} \<times> {field_reference_span g})"

definition time_sites :: "source_expression \<Rightarrow> (diagnostic_code \<times> span) set" where
  "time_sites s = {TimeBoundUnresolved, TimeRangeInvalid} \<times> {se_span s} \<union>
     (\<lambda>e. (TimeExpressionInvalid, te_span e)) ` (set_option (se_start_inclusive s) \<union> set_option (se_end_exclusive s))"

definition stages_sites :: "ast_stage list \<Rightarrow> (diagnostic_code \<times> span) set" where
  "stages_sites ss = (\<Union>s \<in> set ss. insert (StageOrderInvalid, st_span s) (stage_sites (st_kind s)))"

definition query_sites :: "query \<Rightarrow> (diagnostic_code \<times> span) set" where
  "query_sites q = insert (SourceNotFound, id_span (se_name (qu_source q)))
     (time_sites (qu_source q) \<union> stages_sites (qu_stages q))"

text \<open>A diagnostic at one of the sites, and a result that fails with nothing else.\<close>

definition reported_at :: "(diagnostic_code \<times> span) set \<Rightarrow> diagnostic \<Rightarrow> bool" where
  "reported_at A d \<longleftrightarrow> (\<exists>code message sp. (code, sp) \<in> A \<and> d = diagnostic_error code message sp)"

definition fails_at :: "(diagnostic_code \<times> span) set \<Rightarrow> diagnostic + 'a \<Rightarrow> bool" where
  "fails_at A r \<longleftrightarrow> (\<forall>d. r = Inl d \<longrightarrow> reported_at A d)"

named_theorems fails_intros

lemma reported_at_diagnostic [simp]:
  "reported_at A (diagnostic_error code message sp) \<longleftrightarrow> (code, sp) \<in> A"
  "reported_at A (literal_invalid message sp) \<longleftrightarrow> (LiteralInvalid, sp) \<in> A"
  "reported_at A (type_mismatch message sp) \<longleftrightarrow> (TypeMismatch, sp) \<in> A"
  "reported_at A (constant_evaluation_failed message sp) \<longleftrightarrow> (ConstantEvaluationFailed, sp) \<in> A"
  "reported_at A (invalid_aggregate_argument f g sp) \<longleftrightarrow> (FunctionArgumentTypeInvalid, sp) \<in> A"
  by (auto simp: reported_at_def literal_invalid_def type_mismatch_def constant_evaluation_failed_def
      invalid_aggregate_argument_def diagnostic_error_def)

lemma fails_Inr [simp]: "fails_at A (Inr x)"
  by (simp add: fails_at_def)

lemma fails_Inl [simp]: "fails_at A (Inl d) = reported_at A d"
  by (simp add: fails_at_def)

lemma fails_mono: "fails_at A r \<Longrightarrow> A \<subseteq> B \<Longrightarrow> fails_at B r"
  by (fastforce simp: fails_at_def reported_at_def)

lemma fails_sbind [fails_intros]:
  "fails_at A r \<Longrightarrow> (\<And>x. r = Inr x \<Longrightarrow> fails_at A (f x)) \<Longrightarrow> fails_at A (sbind r f)"
  by (cases r) simp_all

lemma fails_map_sum [simp]: "fails_at A (map_sum id f r) = fails_at A r"
  by (cases r) (simp_all add: fails_at_def)

lemma fails_map_sum_const [simp]: "reported_at A d \<Longrightarrow> fails_at A (map_sum (\<lambda>_. d) f r)"
  by (cases r) simp_all

lemma fails_ok_or [simp]: "fails_at A (ok_or x d) = (x = None \<longrightarrow> reported_at A d)"
  by (cases x) (simp_all add: fails_at_def)

lemma fails_if [fails_intros]:
  "(P \<Longrightarrow> fails_at A a) \<Longrightarrow> (\<not> P \<Longrightarrow> fails_at A b) \<Longrightarrow> fails_at A (if P then a else b)"
  by simp

lemma fails_traverse:
  "(\<And>x. x \<in> set xs \<Longrightarrow> fails_at A (f x)) \<Longrightarrow> fails_at A (traverse f xs)"
  by (induction xs) (auto intro!: fails_sbind)

lemma fails_fold_integer:
  "(arithmetic_op op \<longrightarrow> (ConstantEvaluationFailed, sp) \<in> A) \<Longrightarrow> fails_at A (fold_integer P v op a b sp)"
  by (cases op) (simp_all add: fold_integer_def arithmetic_op_def)

lemma fails_fold_float:
  "(arithmetic_op op \<longrightarrow> (ConstantEvaluationFailed, sp) \<in> A) \<Longrightarrow> fails_at A (fold_float F v op a b sp)"
  by (cases op) (simp_all add: fold_float_def arithmetic_op_def)

lemma fails_fold_literals:
  "(arithmetic_op op \<longrightarrow> (ConstantEvaluationFailed, sp) \<in> A) \<Longrightarrow> fails_at A (fold_literals op a b sp)"
  by (cases a; cases b) (simp_all add: fold_literals_def fails_fold_integer fails_fold_float)

lemma fails_fold_binary:
  "(arithmetic_op op \<longrightarrow> (ConstantEvaluationFailed, sp) \<in> A) \<Longrightarrow> fails_at A (fold_binary op a b t sp)"
  by (cases "ir_kind a"; cases "ir_kind b")
    (auto simp: fold_binary_def fails_fold_literals split: option.split)

lemma fails_fold_unary:
  "(op = OpNegate \<longrightarrow> (ConstantEvaluationFailed, sp) \<in> A) \<Longrightarrow> fails_at A (fold_unary op a sp)"
proof (cases "ir_kind a")
  case (IrLiteral l)
  then show "(op = OpNegate \<longrightarrow> (ConstantEvaluationFailed, sp) \<in> A) \<Longrightarrow> ?thesis"
    by (cases op; cases l) (simp_all add: fold_unary_def)
qed (simp_all add: fold_unary_def)

lemma arithmetic_binary_operator [simp]: "arithmetic_op (binary_operator op) = is_arithmetic op"
  by (cases op) (simp_all add: arithmetic_op_def is_arithmetic_def)

lemma fails_build_binary:
  "binary_codes op \<times> {sp} \<subseteq> A \<Longrightarrow> fails_at A (build_binary op a b t sp)"
  by (auto simp: build_binary_def Let_def binary_codes_def intro!: fails_intros fails_fold_binary
      split: option.split if_split_asm)

lemma fails_resolve_field: "(FieldNotFound, field_reference_span ref) \<in> A \<Longrightarrow> fails_at A (resolve_field ref r)"
  by (simp add: resolve_field_def)

lemma fails_integer_literal:
  "{LiteralInvalid, TypeMismatch} \<times> {sp} \<subseteq> A \<Longrightarrow> fails_at A (integer_literal n sign x sp SiteExpression)"
  by (cases "case x of Some t \<Rightarrow> t | None \<Rightarrow> TInt64") (simp_all add: integer_literal_def Let_def)

lemma fails_integer_constructor:
  "is_integer t \<Longrightarrow> (LiteralInvalid, sp) \<in> A \<Longrightarrow> fails_at A (integer_literal n sign (Some t) sp SiteConstructor)"
  by (cases t) (auto simp: integer_literal_def Let_def is_integer_def)

lemma fails_convert_literal: "literal_codes (al_kind l) \<times> {sp} \<subseteq> A \<Longrightarrow> fails_at A (convert_literal l x sp)"
  by (cases "al_kind l") (auto simp: convert_literal_def intro!: fails_intros fails_integer_literal)

lemma fails_parse_datetime: "(code, sp) \<in> A \<Longrightarrow> fails_at A (parse_datetime_with_code C s sp code)"
  by (auto simp: parse_datetime_with_code_def intro!: fails_intros split: prod.split)

lemma fails_convert_constructor: "(LiteralInvalid, con_span c) \<in> A \<Longrightarrow> fails_at A (convert_constructor C c)"
proof (cases "con_kind c")
  case (NumericConstructor t l)
  then show "(LiteralInvalid, con_span c) \<in> A \<Longrightarrow> ?thesis"
    by (cases t; cases "snl_kind l") (auto simp: convert_constructor_def is_integer_def
      floating_constructor_def floating_constructor_from_integer_def Let_def
      intro!: fails_intros fails_integer_constructor)
qed (simp_all add: convert_constructor_def parse_datetime_literal_def fails_parse_datetime)

definition conv_fails :: "(diagnostic_code \<times> span) set \<Rightarrow> converter \<Rightarrow> ast_expression \<Rightarrow> bool" where
  "conv_fails A conv e \<longleftrightarrow> (\<forall>x. fails_at A (conv e x))"

lemma conv_failsD [simp]: "conv_fails A conv e \<Longrightarrow> fails_at A (conv e x)"
  by (simp add: conv_fails_def)

lemma fails_convert_cast:
  "conv_fails A conv (cast_expression c) \<Longrightarrow> (CastInvalid, cast_span c) \<in> A \<Longrightarrow> fails_at A (convert_cast conv c)"
  by (auto simp: convert_cast_def Let_def intro!: fails_intros)

lemma fails_convert_remainder: "(FieldNotFound, rem_span a) \<in> A \<Longrightarrow> fails_at A (convert_remainder a r)"
  by (auto simp: convert_remainder_def intro!: fails_intros)

lemma fails_convert_unary:
  "conv_fails A conv e \<Longrightarrow> unary_codes op \<times> {sp} \<subseteq> A \<Longrightarrow> fails_at A (convert_unary conv op e sp x)"
  by (cases op) (auto simp: convert_unary_def unary_operator_def result_simps
      intro!: fails_intros fails_integer_literal fails_fold_unary split: option.split if_split_asm)

lemma fails_convert_null_predicate:
  "conv_fails A conv e \<Longrightarrow> (TypeMismatch, sp) \<in> A \<Longrightarrow> fails_at A (convert_null_predicate conv op e sp)"
  by (auto simp: convert_null_predicate_def Let_def intro!: fails_intros split: ir_expression_kind.split)

lemma fails_convert_contextual_pair:
  "conv_fails A conv a \<Longrightarrow> conv_fails A conv b \<Longrightarrow> fails_at A (convert_contextual_pair conv a b x)"
  by (auto simp: convert_contextual_pair_def Let_def intro!: fails_intros split: bool.split)

lemma fails_convert_binary:
  assumes "conv_fails A conv a" "conv_fails A conv b" "binary_codes op \<times> {sp} \<subseteq> A"
  shows "fails_at A (convert_binary conv op a b sp x)"
proof -
  have at: "(TypeMismatch, sp) \<in> A" using assms(3) by (auto simp: binary_codes_def split: if_split_asm)
  have "fails_at A (convert_numeric_pair conv a b y sp)" for y
    using at by (auto simp: convert_numeric_pair_def intro!: fails_intros fails_convert_contextual_pair assms(1,2)
        split: prod.split)
  moreover have "fails_at A (convert_comparison_pair conv a b op sp)"
    using at by (auto simp: convert_comparison_pair_def Let_def
        intro!: fails_intros fails_convert_contextual_pair assms(1,2) split: prod.split)
  ultimately show ?thesis
    using assms at by (auto simp: convert_binary_def
        intro!: fails_intros fails_convert_null_predicate fails_build_binary split: prod.split)
qed

lemma cast_sites_eq: "cast_sites c = insert (CastInvalid, cast_span c) (expression_sites (cast_expression c))"
  by (cases c) simp

lemma fails_convert_expression: "fails_at (expression_sites e) (convert_expression_with_expected C r e x)"
proof (induction "size e" arbitrary: e x rule: less_induct)
  case less
  obtain kind sp where e: "e = AstExpression kind sp" by (cases e)
  have sub: "conv_fails A (convert_expression_with_expected C r) a"
    if "size a < size e" "expression_sites a \<subseteq> A" for a A
    unfolding conv_fails_def using fails_mono [OF less [OF that(1)] that(2)] by blast
  show ?case
  proof (cases kind)
    case (AstCast c)
    then have "size (cast_expression c) < size e" using size_cast_expression [of c] e by simp
    then have "conv_fails (cast_sites c) (convert_expression_with_expected C r) (cast_expression c)"
      by (rule sub) (auto simp: cast_sites_eq)
    with AstCast e show ?thesis by (auto simp: cast_sites_eq intro!: fails_convert_cast)
  next
    case (AstUnary op a)
    with e sub [of a] show ?thesis by (auto intro!: fails_convert_unary)
  next
    case (AstBinary op a b)
    have "conv_fails (expression_sites e) (convert_expression_with_expected C r) a"
      "conv_fails (expression_sites e) (convert_expression_with_expected C r) b"
      by (rule sub; use e AstBinary in auto)+
    with e AstBinary show ?thesis by (auto intro!: fails_convert_binary)
  qed (use e in \<open>simp_all add: fails_convert_literal fails_resolve_field fails_convert_constructor
    fails_convert_remainder\<close>)
qed

lemma fails_convert_projection: "fails_at (projection_sites p) (convert_projection C p r)"
  by (cases p) (auto simp: convert_projection_def convert_expression_def fails_resolve_field
      intro!: fails_intros fails_mono [OF fails_convert_expression])

lemma convert_projection_span:
  "convert_projection C p r = Inr (e, f, sp) \<Longrightarrow> (DuplicateOutputField, sp) \<in> projection_sites p"
  by (cases p) (auto simp: convert_projection_def result_simps)

lemma fails_convert_projections: "fails_at (\<Union> (projection_sites ` set ps)) (convert_projections C names ps r)"
proof (induction ps arbitrary: names)
  case (Cons p ps)
  let ?A = "\<Union> (projection_sites ` set (p # ps))"
  have "fails_at ?A (convert_projection C p r)" by (rule fails_mono [OF fails_convert_projection]) auto
  moreover have "fails_at ?A (convert_projections C names' ps r)" for names'
    by (rule fails_mono [OF Cons]) auto
  moreover have "(DuplicateOutputField, sp) \<in> ?A" if "convert_projection C p r = Inr (e, f, sp)" for e f sp
    using convert_projection_span [OF that] by simp
  ultimately show ?case
    by (auto simp: ensure_unique_output_def intro!: fails_intros split: prod.splits)
qed simp

lemma fails_convert_groups:
  "fails_at (\<Union>g \<in> set refs. {FieldNotFound, TypeMismatch, DuplicateOutputField} \<times> {field_reference_span g})
     (convert_groups names refs r)"
proof (induction refs arbitrary: names)
  case (Cons g refs)
  let ?A = "\<Union>g \<in> set (g # refs). {FieldNotFound, TypeMismatch, DuplicateOutputField} \<times> {field_reference_span g}"
  have "fails_at ?A (convert_groups names' refs r)" for names' by (rule fails_mono [OF Cons]) auto
  then show ?case
    by (auto simp: ensure_unique_output_def intro!: fails_intros fails_resolve_field split: prod.split)
qed simp

lemma fails_aggregate_output:
  "{FunctionArityInvalid, FunctionArgumentTypeInvalid} \<times> {ac_span call} \<subseteq> A \<Longrightarrow> fails_at A (aggregate_output f arg call)"
  by (cases arg) (simp_all add: aggregate_output_def Let_def)

lemma fails_convert_measures: "fails_at (\<Union> (measure_sites ` set ms)) (convert_measures names ms r)"
proof (induction ms arbitrary: names)
  case (Cons m ms)
  let ?A = "\<Union> (measure_sites ` set (m # ms))"
  have "fails_at ?A (convert_measures names' ms r)" for names' by (rule fails_mono [OF Cons]) auto
  then show ?case
    by (auto simp: ensure_unique_output_def Let_def measure_sites_def
        intro!: fails_intros fails_resolve_field fails_aggregate_output split: prod.split option.split)
qed simp

lemma fails_convert_stage: "fails_at (stage_sites (st_kind s)) (convert_stage C s r)"
proof (cases "st_kind s")
  case (AstFilter e)
  then show ?thesis
    by (auto simp: convert_stage_def convert_expression_def intro!: fails_intros fails_mono [OF fails_convert_expression])
next
  case (AstProject ps)
  then show ?thesis
    by (auto simp: convert_stage_def convert_project_def intro!: fails_intros fails_convert_projections)
next
  case (AstSort items)
  have "fails_at (stage_sites (st_kind s)) (convert_sort_item r i)" if "i \<in> set items" for i
    using that AstSort by (auto simp: convert_sort_item_def intro!: fails_intros fails_resolve_field)
  with AstSort show ?thesis
    by (auto simp: convert_stage_def intro!: fails_intros fails_traverse)
next
  case (AstTake v)
  then show ?thesis by (auto simp: convert_stage_def convert_take_def intro!: fails_intros)
next
  case (AstSummarize ms gs)
  then show ?thesis
    by (auto simp: convert_stage_def convert_summarize_def intro!: fails_intros
        fails_mono [OF fails_convert_groups] fails_mono [OF fails_convert_measures] split: prod.split)
qed

lemma fails_convert_stages: "fails_at (stages_sites ss) (convert_stages C pos r ss)"
proof (induction ss arbitrary: pos r)
  case (Cons s ss)
  have "fails_at (stages_sites (s # ss)) (convert_stages C p r' ss)" for p r'
    by (rule fails_mono [OF Cons]) (auto simp: stages_sites_def)
  then show ?case
    by (auto simp: stages_sites_def intro!: fails_intros fails_mono [OF fails_convert_stage])
qed simp

lemma fails_resolve_time_range: "fails_at (time_sites (qu_source q)) (resolve_time_range C q c)"
proof -
  have ops: "(TimeExpressionInvalid, sp) \<in> A \<Longrightarrow> fails_at A (apply_time_operations v sp ops)" for v sp ops A
    by (induction ops arbitrary: v) (auto simp: truncate_time_def shift_time_def Let_def intro!: fails_intros
      split: time_operation_kind.split)
  have "(TimeExpressionInvalid, te_span e) \<in> A \<Longrightarrow> fails_at A (evaluate_time_expression C e t)" for e t A
    by (cases "te_kind e") (simp_all add: evaluate_time_expression_def parse_datetime_def fails_parse_datetime ops)
  then show ?thesis
    by (auto simp: resolve_time_range_def time_sites_def Let_def intro!: fails_intros split: option.split)
qed

lemma semantic_failure_at:
  assumes "map_err (semantic_failure []) r = Inl e" "fails_at A r" "A \<subseteq> B"
  shows "an_kind e = ErrorSemantic \<and> (\<exists>d. an_diagnostics e = [d] \<and> reported_at B d)"
  using assms(1) fails_mono [OF assms(2,3)] by (cases r) (auto simp: semantic_failure_def)

lemma convert_query_failure:
  assumes "convert_query C q catalog c = Inl e"
  shows "an_kind e = ErrorSemantic \<and> (\<exists>d. an_diagnostics e = [d] \<and> reported_at (query_sites q) d)"
proof -
  from assms consider
    (source) "e = semantic_failure [] (diagnostic_error SourceNotFound (''source '' @
        debug_name (id_value (se_name (qu_source q))) @ '' was not found in the catalog snapshot'')
        (id_span (se_name (qu_source q))))"
  | (time) "map_err (semantic_failure []) (resolve_time_range C q c) = Inl e"
  | (stages) r where "map_err (semantic_failure []) (convert_stages C Rows r (qu_stages q)) = Inl e"
    by (auto simp: convert_query_def Let_def result_simps)
  then show ?thesis
  proof cases
    case source
    then show ?thesis by (simp add: semantic_failure_def query_sites_def)
  next
    case time
    then show ?thesis by (rule semantic_failure_at [OF _ fails_resolve_time_range]) (auto simp: query_sites_def)
  next
    case stages
    then show ?thesis by (rule semantic_failure_at [OF _ fails_convert_stages]) (auto simp: query_sites_def)
  qed
qed

text \<open>A missing source has a code of its own.\<close>

lemma source_not_found_expression:
  "(SourceNotFound, sp) \<notin> expression_sites e" "(SourceNotFound, sp) \<notin> kind_sites k sp'"
  "(SourceNotFound, sp) \<notin> cast_sites c"
proof (induction e and k and c arbitrary: and sp' and)
  case (AstLiteral l)
  then show ?case by (cases "al_kind l") simp_all
next
  case (AstUnary op e)
  then show ?case by (cases op) simp_all
qed (simp_all add: binary_codes_def)

lemma source_not_found_elsewhere: "(SourceNotFound, sp) \<notin> time_sites s \<union> stages_sites ss"
proof -
  have "(SourceNotFound, sp) \<notin> projection_sites p" for p
    by (cases p) (simp_all add: source_not_found_expression)
  moreover have "(SourceNotFound, sp) \<notin> measure_sites m" for m
    by (auto simp: measure_sites_def split: option.split)
  ultimately have "(SourceNotFound, sp) \<notin> stage_sites k" for k
    by (cases k) (auto simp: source_not_found_expression)
  then show ?thesis by (auto simp: time_sites_def stages_sites_def)
qed

lemma convert_query_source_missing:
  assumes "convert_query C q catalog c = Inl e" "an_diagnostics e = [diagnostic_error code message sp]"
  shows "code = SourceNotFound \<longleftrightarrow> snapshot_source catalog (id_value (se_name (qu_source q))) = None"
proof (cases "snapshot_source catalog (id_value (se_name (qu_source q)))")
  case None
  with assms show ?thesis by (auto simp: convert_query_def Let_def semantic_failure_def diagnostic_error_def)
next
  case (Some s)
  with assms(1) consider
    (time) "map_err (semantic_failure []) (resolve_time_range C q c) = Inl e"
  | (stages) r where "map_err (semantic_failure []) (convert_stages C Rows r (qu_stages q)) = Inl e"
    by (auto simp: convert_query_def Let_def result_simps)
  then have "\<exists>d. an_diagnostics e = [d] \<and> reported_at (time_sites (qu_source q) \<union> stages_sites (qu_stages q)) d"
  proof cases
    case time
    from semantic_failure_at [OF this fails_resolve_time_range, OF Un_upper1] show ?thesis by blast
  next
    case stages
    from semantic_failure_at [OF this fails_convert_stages, OF Un_upper2] show ?thesis by blast
  qed
  with assms(2) have "(code, sp) \<in> time_sites (qu_source q) \<union> stages_sites (qu_stages q)" by auto
  with source_not_found_elsewhere Some show ?thesis by auto
qed

section \<open>Positions\<close>

definition newlines :: "string \<Rightarrow> nat" where
  "newlines s = length (filter (\<lambda>c. c = CHR 0x0A) s)"

definition characters :: "string \<Rightarrow> nat" where
  "characters s = length (filter (\<lambda>c. \<not> is_continuation c) s)"

definition last_line :: "string \<Rightarrow> string" where
  "last_line s = rev (takeWhile (\<lambda>c. c \<noteq> CHR 0x0A) (rev s))"

lemma advance_position_append: "advance_position p (s @ t) = advance_position (advance_position p s) t"
  by (induction s arbitrary: p) simp_all

lemma advance_position_eq:
  "advance_position \<lparr>pos_line = 1, pos_column = 1\<rparr> s =
   \<lparr>pos_line = 1 + newlines s, pos_column = 1 + characters (last_line s)\<rparr>"
proof (induction s rule: rev_induct)
  case Nil
  show ?case by (simp add: newlines_def characters_def last_line_def)
next
  case (snoc c s)
  have "\<not> is_continuation (CHR 0x0A)" by (simp add: is_continuation_def)
  with snoc show ?case
    by (auto simp: advance_position_append newlines_def characters_def last_line_def)
qed

text \<open>The position of an offset, and the range that a diagnostic shows for a span of the text.\<close>

definition text_position :: "string \<Rightarrow> nat \<Rightarrow> source_position" where
  "text_position s n =
     \<lparr>pos_line = 1 + newlines (take n s), pos_column = 1 + characters (last_line (take n s))\<rparr>"

definition text_range :: "string \<Rightarrow> span \<Rightarrow> source_range option" where
  "text_range s sp =
     (if is_char_boundary s (sp_start sp) \<and> is_char_boundary s (sp_end sp)
      then Some \<lparr>sr_start = text_position s (sp_start sp), sr_end = text_position s (sp_end sp)\<rparr> else None)"

lemma attach_source_range_error:
  "attach_source_range s (diagnostic_error code message sp) =
   \<lparr>diag_code = code, diag_severity = SeverityError, diag_message = message, diag_span = Some sp,
    diag_source_range = text_range s sp\<rparr>"
  by (simp add: attach_source_range_def diagnostic_error_def text_range_def text_position_def
      source_position_at_def advance_position_eq [simplified])

end
