(* ===== verification/Catalog_Properties.thy ===== *)
theory Catalog_Properties
  imports Catalog_Source
begin

text \<open>
  The properties of the catalog model: the texts that have one spelling, what a materialized
  schema guarantees, and what a source accepts.
\<close>

section \<open>Texts\<close>

text \<open>
  C7. A JSON Pointer has one spelling: the texts that parse are exactly the ones that the parsed
  pointer prints, and every pointer parses from its own text.
\<close>

theorem json_pointer_text_is_canonical:
  "json_pointer_parse text = Inr pointer \<longleftrightarrow> text = json_pointer_display pointer"
  using json_pointer.dec_iff [of "text" pointer] by simp

section \<open>Schemas\<close>

definition demo_user_field :: "uuid \<Rightarrow> string \<Rightarrow> nullability \<Rightarrow> user_field" where
  "demo_user_field i name n =
     \<lparr>uf_id = i, uf_name = name, uf_logical_type = UInt64, uf_nullability = n,
      uf_description = None, uf_historical_remainder_pointer = None\<rparr>"

definition demo_digests :: definition_digests where
  "demo_digests = \<lparr>dd_declaration = [], dd_materialized = []\<rparr>"

definition demo_schema :: "uuid \<Rightarrow> nat \<Rightarrow> user_field list \<Rightarrow> schema" where
  "demo_schema i version fs = \<lparr>sc_id = i, sc_source_id = 7, sc_version = version,
     sc_digests = demo_digests, sc_fields = schema_fields_of fs,
     sc_arrow_schema = map (field_to_arrow (\<lambda>u. replicate (unat u) (CHR ''x''))) (schema_fields_of fs)\<rparr>"

definition demo_v1 :: "user_field list" where
  "demo_v1 = [demo_user_field 100 ''status'' NonNull]"

definition demo_v2 :: "user_field list" where
  "demo_v2 = [demo_user_field 100 ''status'' NonNull, demo_user_field 101 ''latency'' Nullable]"

lemma demo_fields_ok: "list_all user_field_ok demo_v1" "list_all user_field_ok demo_v2"
  by code_simp+

lemma demo_schema_new:
  "schema_new (\<lambda>u. replicate (unat u) (CHR ''x'')) 1 7 1 demo_digests demo_v1 = Inr (demo_schema 1 1 demo_v1)"
  "schema_new (\<lambda>u. replicate (unat u) (CHR ''x'')) 2 7 2 demo_digests demo_v2 = Inr (demo_schema 2 2 demo_v2)"
  by (simp_all add: schema_new_Inr demo_schema_def demo_v1_def demo_v2_def demo_user_field_def i32_max_def)

text \<open>
  C5. What materialization accepts: a schema is built from a list of user fields exactly when
  their identities and their names are distinct and the last ordinal fits an \<open>i32\<close>, and its
  fields are the three leading system fields, the data fields in order and the remainder.
\<close>

theorem schema_materialization:
  "schema_new to_s i src v d fs = Inr s \<longleftrightarrow>
   distinct (map uf_id fs) \<and> distinct (map uf_name fs) \<and> length fs + 3 \<le> i32_max \<and>
   s = \<lparr>sc_id = i, sc_source_id = src, sc_version = v, sc_digests = d,
        sc_fields = schema_fields_of fs,
        sc_arrow_schema = map (field_to_arrow to_s) (schema_fields_of fs)\<rparr>"
  by (rule schema_new_Inr)

text \<open>
  C4. A materialized schema is well formed: over system and data fields together the identities
  and the names are distinct, the ordinals count the fields from zero, the roles are the
  documented layout, the system identities are exactly those of the system fields, and only
  system fields have the types EID and JSON.
\<close>

theorem materialized_schema_is_well_formed:
  assumes "list_all user_field_ok fs" "schema_new to_s i src v d fs = Inr s"
  shows "schema_ok s"
  using assms by (rule schema_new_ok)

theorem materialized_schema_is_well_formed_witness: "schema_ok (demo_schema 2 2 demo_v2)"
  using materialized_schema_is_well_formed [OF demo_fields_ok(2) demo_schema_new(2)] .

text \<open>
  C6. The Arrow schema loses nothing that identifies a field: two fields with equal Arrow fields
  have the same identity, name, logical type and nullability, although several logical types
  share an Arrow type.
\<close>

theorem arrow_field_determines_field:
  assumes "inj to_s" "field_to_arrow to_s f = field_to_arrow to_s g"
  shows "fld_id f = fld_id g \<and> fld_name f = fld_name g \<and> fld_logical_type f = fld_logical_type g \<and>
    fld_nullability f = fld_nullability g"
  using field_to_arrow_eq [OF assms] by blast

lemma demo_text_inj: "inj (\<lambda>u :: uuid. replicate (unat u) (CHR ''x''))"
  by (rule injI) (simp add: replicate_eq_replicate word_unat_eq_iff)

theorem arrow_field_determines_field_witness:
  "let f = data_field_of (demo_user_field 100 ''status'' NonNull) 3;
       g = data_field_of (with_description ''HTTP status'' (demo_user_field 100 ''status'' NonNull)) 4;
       to_s = (\<lambda>u :: uuid. replicate (unat u) (CHR ''x'')) in
   field_to_arrow to_s f = field_to_arrow to_s g \<and> f \<noteq> g \<and> fld_logical_type f = fld_logical_type g"
proof -
  let ?f = "data_field_of (demo_user_field 100 ''status'' NonNull) 3"
  let ?g = "data_field_of (with_description ''HTTP status'' (demo_user_field 100 ''status'' NonNull)) 4"
  have "field_to_arrow (\<lambda>u. replicate (unat u) (CHR ''x'')) ?f =
      field_to_arrow (\<lambda>u. replicate (unat u) (CHR ''x'')) ?g"
    by (simp add: data_field_of_def demo_user_field_def with_description_def field_to_arrow_def)
  with arrow_field_determines_field [OF demo_text_inj this] show ?thesis
    by (simp add: Let_def data_field_of_def demo_user_field_def with_description_def)
qed

section \<open>Sources\<close>

definition demo_revision :: ingestion_profile_revision where
  "demo_revision = \<lparr>pr_id = 50, pr_input_id = 60, pr_revision = 1, pr_target_schema_id = 1,
     pr_digests = demo_digests,
     pr_profile = \<lparr>ip_maximum_record_bytes = 1000,
       ip_event_time = \<lparr>et_json_pointer = [''time''], et_format = Rfc3339\<rparr>,
       ip_mappings = [\<lparr>fm_target_field_id = 100, fm_json_pointer = [''status'']\<rparr>]\<rparr>\<rparr>"

definition demo_input :: input where
  "demo_input = \<lparr>in_id = 60, in_source_id = 7, in_name = ''nginx'', in_digests = demo_digests,
     in_profile_revisions = [demo_revision], in_active_profile_revision_index = 0\<rparr>"

definition demo_schemas :: "schema list" where
  "demo_schemas = [demo_schema 1 1 demo_v1, demo_schema 2 2 demo_v2]"

definition demo_source :: source where
  "demo_source = \<lparr>src_id = 7, src_name = ''web'', src_display_name = ''Web'',
     src_declaration_digest = [], src_schemas = demo_schemas, src_active_schema_index = 1,
     src_inputs = [demo_input]\<rparr>"

lemma find_by_key:
  "distinct (map g xs) \<Longrightarrow> x \<in> set xs \<Longrightarrow> g x = k \<Longrightarrow> find (\<lambda>y. g y = k) xs = Some x"
  by (induction xs) (auto simp: rev_image_eqI)

lemma length_filter_key:
  "distinct (map g xs) \<Longrightarrow> length (filter (\<lambda>y. g y = k) xs) = (if k \<in> g ` set xs then 1 else 0)"
proof (induction xs)
  case (Cons x xs)
  then show ?case by (cases "g x = k") auto
qed simp

lemma demo_schemas_ok: "list_all schema_ok demo_schemas"
  using schema_new_ok [OF demo_fields_ok(1) demo_schema_new(1)]
    schema_new_ok [OF demo_fields_ok(2) demo_schema_new(2)] by (simp add: demo_schemas_def)

lemma demo_data_fields:
  "data_fields (demo_schema i v demo_v1) = [data_field_of (demo_user_field 100 ''status'' NonNull) 3]"
  "data_fields (demo_schema i v demo_v2) = [data_field_of (demo_user_field 100 ''status'' NonNull) 3,
     data_field_of (demo_user_field 101 ''latency'' Nullable) 4]"
  by (simp_all add: data_fields_def demo_schema_def schema_fields_of_data demo_v1_def demo_v2_def)

lemma demo_accepts: "source_accepts 7 2 demo_schemas [demo_input]"
proof -
  have "additive (demo_schema 1 1 demo_v1) (demo_schema 2 2 demo_v2)"
    unfolding additive_def demo_data_fields
    by (simp add: field_key_def data_field_of_def demo_user_field_def)
  moreover have "mappings_fit demo_revision (demo_schema 1 1 demo_v1)"
    unfolding mappings_fit_def demo_data_fields
    by (simp add: data_field_of_def demo_user_field_def demo_revision_def)
  ultimately show ?thesis
    by (simp add: source_accepts_def demo_schemas_def demo_schema_def demo_input_def demo_revision_def)
qed

text \<open>
  C1. What a source accepts. Over well-formed schemas, \<open>Source::new\<close> succeeds exactly when the
  schemas belong to the source with increasing versions and distinct identities, every later
  schema extends every earlier one by nullable fields only, the active schema is among them, and
  every profile revision of every input maps data fields of its target schema, all required ones
  included. In particular the check that field identities and names are never reused cannot
  reject a history that the additivity check accepts.
\<close>

theorem source_acceptance:
  assumes "list_all schema_ok schemas"
  shows "source_new i name display d a schemas inputs = Inr src \<longleftrightarrow>
    source_accepts i a schemas inputs \<and>
    (\<exists>k < length schemas. sc_id (schemas ! k) = a \<and>
      src = \<lparr>src_id = i, src_name = name, src_display_name = display, src_declaration_digest = d,
             src_schemas = schemas, src_active_schema_index = k, src_inputs = inputs\<rparr>)"
  using assms by (rule source_new_Inr)

theorem source_acceptance_witness:
  "source_new 7 ''web'' ''Web'' [] 2 demo_schemas [demo_input] = Inr demo_source"
  unfolding source_acceptance [OF demo_schemas_ok]
  using demo_accepts by (simp add: demo_source_def demo_schemas_def demo_schema_def)

lemma demo_source_new: "source_new 7 ''web'' ''Web'' [] 2 demo_schemas [demo_input] = Inr demo_source"
  unfolding source_new_Inr [OF demo_schemas_ok]
  using demo_accepts by (simp add: demo_source_def demo_schemas_def demo_schema_def)

text \<open>
  C2. Schemas of a source only grow. Between any two schemas of an accepted source, not only
  neighbouring ones, the later one has at least as many data fields, each data field of the
  earlier one is in the later one at the same ordinal with the same identity, name, logical type,
  nullability and historical pointer, and the data fields that only the later one has are
  nullable and come after the others.
\<close>

theorem schema_history_only_grows:
  assumes "list_all schema_ok schemas" "source_new i name display d a schemas inputs = Inr src"
    "j < k" "k < length schemas"
  defines "earlier \<equiv> data_fields (schemas ! j)" and "later \<equiv> data_fields (schemas ! k)"
  shows "length earlier \<le> length later \<and>
    map field_key (take (length earlier) later) = map field_key earlier \<and>
    map fld_ordinal (take (length earlier) later) = map fld_ordinal earlier \<and>
    (\<forall>f \<in> set (drop (length earlier) later). fld_nullability f = Nullable)"
proof -
  from assms(1,2) have "sorted_wrt additive schemas"
    by (simp add: source_new_Inr source_accepts_def)
  with assms(3,4) have additive: "additive (schemas ! j) (schemas ! k)"
    by (simp add: sorted_wrt_iff_nth_less)
  have len: "length earlier \<le> length later"
    unfolding earlier_def later_def using additive by (simp add: additive_def)
  have "fld_ordinal (data_fields (schemas ! m) ! n) = 3 + n"
    if "m < length schemas" "n < length (data_fields (schemas ! m))" for m n
    using that assms(1) data_fields_ordinals [of "schemas ! m"]
    by (metis (no_types, lifting) add_less_cancel_left list_all_length nth_map nth_upt)
  with additive_nth [OF additive] assms(3,4) len
  have "map fld_ordinal (take (length earlier) later) = map fld_ordinal earlier"
    "map field_key (take (length earlier) later) = map field_key earlier"
    unfolding earlier_def later_def by (auto intro!: nth_equalityI)
  moreover have "fld_nullability f = Nullable" if "f \<in> set (drop (length earlier) later)" for f
    using that additive unfolding earlier_def later_def additive_def by (auto simp: list_all_iff)
  ultimately show ?thesis using len by blast
qed

theorem schema_history_only_grows_witness:
  "let earlier = data_fields (demo_schemas ! 0); later = data_fields (demo_schemas ! 1) in
   length earlier = 1 \<and> length later = 2 \<and>
   map field_key (take 1 later) = map field_key earlier \<and>
   map fld_ordinal (take 1 later) = map fld_ordinal earlier \<and> fld_nullability (later ! 1) = Nullable"
  using schema_history_only_grows [OF demo_schemas_ok demo_source_new, of 0 1]
  by (simp add: demo_schemas_def demo_data_fields)

text \<open>
  C3. Profiles cover their schemas. In an accepted source, for a profile built by
  \<open>IngestionProfile::new\<close> and each data field of its target schema there is at most one mapping,
  and exactly one if the field is required; and no mapping targets a system field.
\<close>

theorem profile_covers_target_schema:
  assumes "list_all schema_ok schemas" "source_new i name display d a schemas inputs = Inr src"
    "inp \<in> set inputs" "r \<in> set (in_profile_revisions inp)"
    "ingestion_profile_new limit et (ip_mappings (pr_profile r)) = Inr (pr_profile r)"
  shows "\<exists>s. source_schema src (pr_target_schema_id r) = Some s \<and>
    (\<forall>f \<in> set (data_fields s).
       length (filter (\<lambda>m. fm_target_field_id m = fld_id f) (ip_mappings (pr_profile r)))
         \<in> (if fld_nullability f = NonNull then {1} else {0, 1})) \<and>
    (\<forall>m \<in> set (ip_mappings (pr_profile r)). \<not> is_system (fm_target_field_id m))"
proof -
  let ?ms = "ip_mappings (pr_profile r)"
  from assms(1,2) have acc: "source_accepts i a schemas inputs" and src: "src_schemas src = schemas"
    by (auto simp: source_new_Inr)
  with assms(3,4) obtain s where s: "s \<in> set schemas" "sc_id s = pr_target_schema_id r"
    and fit: "mappings_fit r s" unfolding source_accepts_def by blast
  have ok: "schema_ok s" using assms(1) s(1) by (simp add: list_all_iff)
  from acc s have "source_schema src (pr_target_schema_id r) = Some s"
    by (simp add: source_schema_def src source_accepts_def find_by_key)
  moreover have "distinct (map fm_target_field_id ?ms)"
    using assms(5) by (simp add: ingestion_profile_new_Inr)
  then have "length (filter (\<lambda>m. fm_target_field_id m = x) ?ms) = (if x \<in> fm_target_field_id ` set ?ms then 1 else 0)" for x
    by (rule length_filter_key)
  moreover have "fld_id f \<in> fm_target_field_id ` set ?ms" if "f \<in> set (data_fields s)" "fld_nullability f = NonNull" for f
    using fit that by (auto simp: mappings_fit_def image_subset_iff)
  moreover have "\<not> is_system (fm_target_field_id m)" if "m \<in> set ?ms" for m
  proof -
    from fit that obtain f where "f \<in> set (data_fields s)" "fm_target_field_id m = fld_id f"
      by (auto simp: mappings_fit_def image_subset_iff)
    with ok show ?thesis by (auto simp: schema_ok_def data_fields_def list_all_iff)
  qed
  ultimately show ?thesis by simp
qed

theorem profile_covers_target_schema_witness:
  "\<exists>s. source_schema demo_source 1 = Some s \<and>
    (\<forall>f \<in> set (data_fields s).
       length (filter (\<lambda>m. fm_target_field_id m = fld_id f) (ip_mappings (pr_profile demo_revision)))
         \<in> (if fld_nullability f = NonNull then {1} else {0, 1})) \<and>
    (\<forall>m \<in> set (ip_mappings (pr_profile demo_revision)). \<not> is_system (fm_target_field_id m))"
  using profile_covers_target_schema [OF demo_schemas_ok demo_source_new, of demo_input demo_revision
      1000 "\<lparr>et_json_pointer = [''time''], et_format = Rfc3339\<rparr>"]
  by (simp add: demo_input_def demo_revision_def ingestion_profile_new_Inr)

end
