(* ===== verification/Query_Properties.thy ===== *)
theory Query_Properties
  imports Query_Reports Catalog_Properties
begin

text \<open>
  The properties of the query analysis, with a small query over the demonstration source as
  their witness.
\<close>

section \<open>A query\<close>

definition demo_span :: span where
  "demo_span = \<lparr>sp_start = 0, sp_end = 3\<rparr>"

definition demo_id :: "string \<Rightarrow> ast_identifier" where
  "demo_id s = \<lparr>id_value = s, id_span = demo_span\<rparr>"

definition demo_integer :: "nat \<Rightarrow> ast_expression" where
  "demo_integer n = AstExpression (AstLiteral \<lparr>al_kind = LitInteger n, al_span = demo_span\<rparr>) demo_span"

definition demo_chrono :: chrono_env where
  "demo_chrono = \<lparr>parse_from_rfc3339 = (\<lambda>_. None)\<rparr>"

definition demo_context :: query_time_context where
  "demo_context = \<lparr>qt_reference_time = 7199999, qt_request_start_inclusive = None,
     qt_request_end_exclusive = Some 9000000\<rparr>"

text \<open>The last hour of requests that failed, counted by status.\<close>

definition demo_query :: query where
  "demo_query = \<lparr>
     qu_source = \<lparr>se_name = demo_id ''web'',
       se_start_inclusive = Some \<lparr>te_kind = TimeRelative [\<lparr>to_kind = Truncate Hour, to_span = demo_span\<rparr>],
         te_span = demo_span\<rparr>,
       se_end_exclusive = None, se_span = demo_span\<rparr>,
     qu_stages = [
       \<lparr>st_kind = AstFilter (AstExpression (AstBinary AstGreaterThanOrEqual
          (AstExpression (AstField (UserReference (demo_id ''status''))) demo_span)
          (AstExpression (AstBinary AstMultiply (demo_integer 5) (demo_integer 100)) demo_span)) demo_span),
        st_span = demo_span\<rparr>,
       \<lparr>st_kind = AstSummarize
          [\<lparr>me_alias = Some (demo_id ''n''), me_aggregate = \<lparr>ac_function = AstCount, ac_argument = None,
            ac_span = demo_span\<rparr>, me_span = demo_span\<rparr>] [UserReference (demo_id ''status'')],
        st_span = demo_span\<rparr>,
       \<lparr>st_kind = AstTake \<lparr>sil_sign = NonNegative, sil_magnitude = 10, sil_span = demo_span\<rparr>,
        st_span = demo_span\<rparr>],
     qu_span = demo_span\<rparr>"

definition demo_catalog :: source where
  "demo_catalog = demo_source\<lparr>src_schemas := [demo_schema 2 2 demo_v2], src_active_schema_index := 0\<rparr>"

definition demo_relation :: relation where
  "demo_relation = relation_from_schema (demo_schema 2 2 demo_v2)"

definition demo_status :: ir_field where
  "demo_status = \<lparr>if_name = ''status'', if_logical_type = TInt64, if_nullability = NonNull,
     if_origin = OriginSchema 100\<rparr>"

definition demo_count :: ir_field where
  "demo_count = \<lparr>if_name = ''n'', if_logical_type = TInt64, if_nullability = NonNull,
     if_origin = OriginDerived demo_span\<rparr>"

definition demo_pipeline :: pipeline where
  "demo_pipeline =
     \<lparr>pl_source = \<lparr>is_source_id = 7, is_name = ''web'', is_active_schema_id = 2\<rparr>,
      pl_time_range = \<lparr>tr_start_inclusive = 3600000, tr_end_exclusive = 9000000\<rparr>,
      pl_source_relation = demo_relation,
      pl_stages = [
        \<lparr>ig_kind = IrFilter (IrExpression (IrBinary OpGreaterThanOrEqual (expression_field demo_status)
           (expression_literal (LInt64 500))) TBool NonNull), ig_output_relation = demo_relation\<rparr>,
        \<lparr>ig_kind = IrAggregate [\<lparr>ae_function = Count, ae_argument = None, ae_output_field = demo_count\<rparr>]
           [demo_status], ig_output_relation = [demo_status, demo_count]\<rparr>,
        \<lparr>ig_kind = IrTake 10, ig_output_relation = [demo_status, demo_count]\<rparr>]\<rparr>"

lemma demo_chrono_ok: "chrono_ok demo_chrono"
  by (simp add: chrono_ok_def demo_chrono_def)

lemma demo_facts [simp]:
  "id_value (demo_id s) = s" "id_span (demo_id s) = demo_span"
  "if_name demo_status = ''status''" "if_logical_type demo_status = TInt64" "if_nullability demo_status = NonNull"
  by (simp_all add: demo_id_def demo_status_def)

lemma demo_relation_status: "relation_field demo_relation ''status'' = Some demo_status"
  by (simp add: relation_field_def demo_relation_def relation_from_schema_def demo_schema_def
      schema_fields_of_def system_field_of_def data_field_of_def demo_v2_def demo_user_field_def demo_status_def)

lemma demo_constant:
  "build_binary AstMultiply (expression_literal (LInt64 5)) (expression_literal (LInt64 100)) TInt64 demo_span =
   Inr (expression_literal (LInt64 500))"
  by (simp add: build_binary_def fold_binary_def fold_literals_def fold_integer_def checked_mul_def in_range_def
      in_i64_def)

lemma demo_integer_literal:
  "n \<le> 100 \<Longrightarrow> convert_expression_with_expected C r (demo_integer n) (Some TInt64) =
     Inr (expression_literal (LInt64 (int n)))"
  by (simp add: demo_integer_def convert_literal_def integer_literal_def signed_i128_def in_range_def in_i64_def)

lemma demo_integer_facts [simp]: "needs_context (demo_integer n)" "\<not> is_null_literal (demo_integer n)"
  by (simp_all add: demo_integer_def is_null_literal_def)

lemma demo_product:
  "convert_expression_with_expected C r
     (AstExpression (AstBinary AstMultiply (demo_integer 5) (demo_integer 100)) demo_span) (Some TInt64) =
   Inr (expression_literal (LInt64 500))"
  by (simp add: demo_integer_literal convert_binary_def convert_numeric_pair_def convert_contextual_pair_def
      option_filter_def is_numeric_def is_arithmetic_def common_numeric_type_def coerce_losslessly_def demo_constant)

lemma demo_filter:
  "convert_expression demo_chrono (AstExpression (AstBinary AstGreaterThanOrEqual
      (AstExpression (AstField (UserReference (demo_id ''status''))) demo_span)
      (AstExpression (AstBinary AstMultiply (demo_integer 5) (demo_integer 100)) demo_span)) demo_span) demo_relation =
   Inr (IrExpression (IrBinary OpGreaterThanOrEqual (expression_field demo_status)
      (expression_literal (LInt64 500))) TBool NonNull)"
proof -
  let ?conv = "convert_expression_with_expected demo_chrono demo_relation"
  let ?status = "AstExpression (AstField (UserReference (demo_id ''status''))) demo_span"
  let ?product = "AstExpression (AstBinary AstMultiply (demo_integer 5) (demo_integer 100)) demo_span"
  have "?conv ?status x = Inr (expression_field demo_status)" for x
    by (simp add: resolve_field_def demo_relation_status)
  moreover have "needs_context ?product" "\<not> needs_context ?status" by (simp_all add: is_arithmetic_def)
  moreover have "ir_logical_type (expression_field demo_status) = TInt64" "ir_kind (expression_field demo_status) = IrField demo_status"
    "ir_nullability (expression_field demo_status) = NonNull"
    by (simp_all add: expression_field_def)
  ultimately have "convert_binary ?conv AstGreaterThanOrEqual ?status ?product demo_span None =
     Inr (IrExpression (IrBinary OpGreaterThanOrEqual (expression_field demo_status)
      (expression_literal (LInt64 500))) TBool NonNull)"
    by (simp add: convert_binary_def convert_comparison_pair_def convert_contextual_pair_def demo_product
        common_numeric_type_def is_numeric_def coerce_losslessly_def build_binary_def fold_binary_def
        combine_nullability_def is_arithmetic_def del: convert_expression_with_expected.simps needs_context.simps)
  then show ?thesis unfolding convert_expression_def by simp
qed

lemma demo_analysis:
  "analyze_parsed demo_chrono ''web'' demo_query (Some demo_catalog) demo_context =
   Inr \<lparr>ay_pipeline = demo_pipeline, ay_diagnostics = []\<rparr>"
proof -
  have "convert_stages demo_chrono Rows demo_relation (qu_stages demo_query) = Inr (pl_stages demo_pipeline)"
    by (simp add: demo_query_def demo_pipeline_def convert_stage_def demo_filter convert_summarize_def resolve_field_def
        demo_relation_status ensure_unique_output_def aggregate_output_def convert_take_def demo_count_def)
  moreover have "resolve_time_range demo_chrono demo_query demo_context = Inr (pl_time_range demo_pipeline)"
    by (simp add: resolve_time_range_def demo_query_def demo_context_def demo_pipeline_def evaluate_time_expression_def
        truncate_time_def in_range_def in_i64_def time_range_new_def)
  moreover have "snapshot_source (Some demo_catalog) ''web'' = Some demo_catalog"
    "active_schema demo_catalog = demo_schema 2 2 demo_v2" "src_id demo_catalog = 7" "src_name demo_catalog = ''web''"
    by (simp_all add: snapshot_source_def option_filter_def demo_catalog_def demo_source_def active_schema_def)
  moreover have "id_value (se_name (qu_source demo_query)) = ''web''" by (simp add: demo_query_def)
  moreover have "sc_id (demo_schema 2 2 demo_v2) = 2" by (simp add: demo_schema_def)
  ultimately show ?thesis
    by (simp add: analyze_parsed_def convert_query_def demo_relation_def [symmetric] finish_diagnostics_def)
      (simp add: demo_pipeline_def)
qed

section \<open>Analysis\<close>

text \<open>
  C16. An accepted query is well typed. When the active schema is well formed and the analysis of a
  parsed query succeeds, the names of the source relation are distinct; every stage is typed over
  the relation that the stage before it produces, with its own output relation determined by it and
  again free of duplicate names; in every expression the operands have the types that their
  operator requires, nullability is propagated, lossless casts only widen, and no operator is left
  over literals; only sorting and taking follow an aggregation; and the time range is a
  non-empty interval of \<open>i64\<close> milliseconds.
\<close>

theorem analysis_is_well_typed:
  assumes "chrono_ok C" "time_context_ok c" "list_all ast_stage_ok (qu_stages q)"
    "pred_option (schema_ok \<circ> active_schema) catalog"
    "analyze_parsed C src q catalog c = Inr a"
  shows "let p = ay_pipeline a; t = pl_time_range p in
    relation_ok (pl_source_relation p) \<and> stages_ok (pl_source_relation p) (pl_stages p) \<and>
    aggregates_end_rows (pl_stages p) \<and> tr_start_inclusive t < tr_end_exclusive t \<and>
    in_i64 (tr_start_inclusive t) \<and> in_i64 (tr_end_exclusive t)"
proof -
  from assms(5) obtain s where s: "snapshot_source catalog (id_value (se_name (qu_source q))) = Some s"
    and t: "resolve_time_range C q c = Inr (pl_time_range (ay_pipeline a))"
    and r: "pl_source_relation (ay_pipeline a) = relation_from_schema (active_schema s)"
    and stages: "convert_stages C Rows (relation_from_schema (active_schema s)) (qu_stages q) =
      Inr (pl_stages (ay_pipeline a))"
    by (auto simp: analyze_parsed_def convert_query_def Let_def result_simps)
  have "catalog = Some s" using s by (cases catalog) (auto simp: snapshot_source_def option_filter_def split: if_split_asm)
  with assms(4) have ok: "relation_ok (relation_from_schema (active_schema s))"
    by (simp add: schema_ok_def relation_ok_def relation_from_schema_def comp_def)
  from convert_stages_ok [OF assms(1) stages assms(3) ok] convert_stages_order [OF stages]
    resolve_time_range_ok [OF assms(1,2) t] ok r
  show ?thesis by (simp add: Let_def)
qed

theorem analysis_is_well_typed_witness:
  "relation_ok demo_relation \<and> stages_ok demo_relation (pl_stages demo_pipeline) \<and>
   aggregates_end_rows (pl_stages demo_pipeline) \<and> (3600000 :: int) < 9000000"
proof -
  have "time_context_ok demo_context" by (simp add: time_context_ok_def demo_context_def in_i64_def)
  moreover have "list_all ast_stage_ok (qu_stages demo_query)"
    by (simp add: demo_query_def ast_stage_ok_def demo_integer_def u64_max_def)
  moreover have "pred_option (schema_ok \<circ> active_schema) (Some demo_catalog)"
    using demo_schemas_ok by (simp add: demo_catalog_def demo_source_def active_schema_def demo_schemas_def)
  ultimately show ?thesis
    using analysis_is_well_typed [OF demo_chrono_ok _ _ _ demo_analysis] by (simp add: demo_pipeline_def)
qed

text \<open>
  C20. A failed analysis says what is wrong and where. It is a semantic error with one diagnostic,
  of severity error, whose code and span are a node of the query and a code that this kind of node
  reports: a missing source at its name, a missing field at the reference, an invalid literal or
  constructor at the literal, a type mismatch or a constant that cannot be evaluated at the
  operator, a missing alias, an unusable argument, a repeated output, a misplaced stage or an
  unresolved time bound at its place. The line and column range is that of the span in the text,
  and the code for a missing source is used exactly when the snapshot has no such source.
\<close>

theorem analysis_failure_is_reported:
  assumes "analyze_parsed C src q catalog c = Inl e"
  shows "an_kind e = ErrorSemantic \<and> (\<exists>code message sp. (code, sp) \<in> query_sites q \<and>
    an_diagnostics e = [\<lparr>diag_code = code, diag_severity = SeverityError, diag_message = message,
      diag_span = Some sp, diag_source_range = text_range src sp\<rparr>] \<and>
    (code = SourceNotFound \<longleftrightarrow> snapshot_source catalog (id_value (se_name (qu_source q))) = None))"
proof -
  from assms obtain e' where e': "convert_query C q catalog c = Inl e'"
    "e = e'\<lparr>an_diagnostics := finish_diagnostics src (an_diagnostics e')\<rparr>"
    by (cases "convert_query C q catalog c") (auto simp: analyze_parsed_def)
  from convert_query_failure [OF e'(1)] obtain code message sp where
    d: "an_kind e' = ErrorSemantic" "(code, sp) \<in> query_sites q" "an_diagnostics e' = [diagnostic_error code message sp]"
    by (auto simp: reported_at_def)
  from convert_query_source_missing [OF e'(1) d(3)] d e'(2) show ?thesis
    by (intro conjI exI [of _ code] exI [of _ message] exI [of _ sp])
      (simp_all add: finish_diagnostics_def attach_source_range_error)
qed

theorem analysis_failure_is_reported_witness:
  "\<exists>e. analyze_parsed demo_chrono ''web'' demo_query None demo_context = Inl e \<and>
   map diag_code (an_diagnostics e) = [SourceNotFound] \<and>
   (\<exists>sp. (SourceNotFound, sp) \<in> query_sites demo_query \<and>
      map diag_span (an_diagnostics e) = [Some sp] \<and> map diag_source_range (an_diagnostics e) = [text_range ''web'' sp])"
proof -
  obtain e where e: "analyze_parsed demo_chrono ''web'' demo_query None demo_context = Inl e"
    by (simp add: analyze_parsed_def convert_query_def demo_query_def snapshot_source_def option_filter_def)
  from analysis_failure_is_reported [OF e] have "\<exists>message sp. (SourceNotFound, sp) \<in> query_sites demo_query \<and>
      an_diagnostics e = [\<lparr>diag_code = SourceNotFound, diag_severity = SeverityError, diag_message = message,
        diag_span = Some sp, diag_source_range = text_range ''web'' sp\<rparr>]"
    by (auto simp: snapshot_source_def option_filter_def)
  with e show ?thesis by auto
qed

text \<open>
  C21. Positions count lines and characters: an offset has a position exactly when it does not lie
  inside a character; its line is one more than the newlines before it, and its column one more
  than the characters, not bytes, since the last of them.
\<close>

theorem positions_count_characters:
  "source_position_at src n = Some p \<longleftrightarrow> is_char_boundary src n \<and>
   p = \<lparr>pos_line = 1 + newlines (take n src), pos_column = 1 + characters (last_line (take n src))\<rparr>"
  unfolding source_position_at_def advance_position_eq by auto

section \<open>Literals\<close>

text \<open>
  C17. An integer literal means its integer: in an expression it is accepted at the type of its
  context (\<open>int64\<close> without one) exactly when that type holds the integer without rounding, and then
  it is that value; in particular a floating-point context accepts exactly the integers that the
  format represents.
\<close>

theorem integer_literals_are_exact:
  assumes "n \<le> u64_max"
  shows "integer_literal n sign expected sp SiteExpression = Inr l \<longleftrightarrow>
    (let t = (case expected of Some t \<Rightarrow> t | None \<Rightarrow> TInt64) in
     holds_exactly t (integer_value sign n) \<and> l = exact_literal t (integer_value sign n))"
proof -
  from assms have "n < 2 ^ 64" by (simp add: u64_max_def)
  then show ?thesis by (rule integer_literal_Inr)
qed

theorem integer_literals_are_exact_witness:
  "integer_literal 7 Negative (Some TFloat64) demo_span SiteExpression = Inr (LFloat64 (FNum (- 7)))"
  using integer_literals_are_exact [of 7 Negative "Some TFloat64" demo_span "LFloat64 (FNum (- 7))"] fp_exact_small [of "- 7"]
  by (simp add: u64_max_def holds_exactly_def exact_literal_def integer_value_def fp_int_def)

text \<open>
  C18. Context decides: an arithmetic expression over integer and null literals, in a context of a
  numeric type, is a well-typed expression of that type.
\<close>

theorem contextual_literals_take_the_context_type:
  assumes "chrono_ok C" "ast_ok e" "needs_context e" "is_numeric t"
    "convert_expression_with_expected C r e (Some t) = Inr ir"
  shows "ir_logical_type ir = t \<and> ir_ok r ir"
  using convert_expression_context [OF assms(1,3,4,2,5)] convert_expression_with_expected_typed [OF assms(1,2,5)] by simp

theorem contextual_literals_take_the_context_type_witness:
  "ir_logical_type (expression_literal (LInt64 500)) = TInt64 \<and> ir_ok [] (expression_literal (LInt64 500))"
  using contextual_literals_take_the_context_type [OF demo_chrono_ok _ _ _ demo_product]
  by (simp add: is_arithmetic_def demo_integer_def u64_max_def is_numeric_def)

section \<open>Time\<close>

text \<open>
  C19. Relative times are exact. Truncation to a unit returns the greatest multiple of the unit that
  is not after the time, for times before 1970 too, and fails exactly when that multiple is not an
  \<open>i64\<close>; a shift adds the magnitude in the unit and fails exactly when the sum is not an \<open>i64\<close>.
\<close>

theorem relative_times_are_exact:
  "(truncate_time v u sp = Inr w \<longleftrightarrow>
    in_i64 w \<and> unit_milliseconds u dvd w \<and> w \<le> v \<and> v < w + unit_milliseconds u) \<and>
   (shift_time v d n u sp = Inr w \<longleftrightarrow>
    in_i64 w \<and> w = v + (if d = Forward then 1 else - 1) * int n * unit_milliseconds u)"
  using truncate_time_Inr shift_time_Inr by blast

end
