(* ===== verification/Engine_Runtime.thy ===== *)
theory Engine_Runtime
  imports Query_Soundness
begin

text \<open>
  The scalar functions of the query engine (\<open>elucid-engine/src/runtime.rs\<close>): checked arithmetic,
  casts and access to the remainder. \<open>ScalarValue\<close> is represented by the variants that the code
  matches. The packages \<open>serde_json\<close> and \<open>chrono\<close> are parameters; a JSON number is the text that
  the package keeps, read through its accessors.
\<close>

section \<open>Values\<close>

datatype (plugins only: size code) scalar =
    SBoolean "bool option"
  | SInt32 "int option"
  | SInt64 "int option"
  | SUInt32 "int option"
  | SUInt64 "int option"
  | SFloat32 "fp option"
  | SFloat64 "fp option"
  | SUtf8 "string option"
  | STimestampMillisecond "int option" "string option"
  | SFixedSizeBinary nat "bytes option"

primrec scalar_is_null :: "scalar \<Rightarrow> bool" where
  "scalar_is_null (SBoolean v) = (v = None)"
| "scalar_is_null (SInt32 v) = (v = None)"
| "scalar_is_null (SInt64 v) = (v = None)"
| "scalar_is_null (SUInt32 v) = (v = None)"
| "scalar_is_null (SUInt64 v) = (v = None)"
| "scalar_is_null (SFloat32 v) = (v = None)"
| "scalar_is_null (SFloat64 v) = (v = None)"
| "scalar_is_null (SUtf8 v) = (v = None)"
| "scalar_is_null (STimestampMillisecond v _) = (v = None)"
| "scalar_is_null (SFixedSizeBinary _ v) = (v = None)"

datatype runtime_failure_kind = CastFailure | EvaluationFailure | ExecutionFailure

definition UTC_TIMEZONE :: string where
  "UTC_TIMEZONE = ''UTC''"

primrec null_scalar :: "logical_type \<Rightarrow> scalar" where
  "null_scalar TBool = SBoolean None"
| "null_scalar TInt32 = SInt32 None"
| "null_scalar TInt64 = SInt64 None"
| "null_scalar TUInt32 = SUInt32 None"
| "null_scalar TUInt64 = SUInt64 None"
| "null_scalar TFloat32 = SFloat32 None"
| "null_scalar TFloat64 = SFloat64 None"
| "null_scalar TUtf8 = SUtf8 None"
| "null_scalar TJson = SUtf8 None"
| "null_scalar TDatetime = STimestampMillisecond None (Some UTC_TIMEZONE)"
| "null_scalar TEid = SFixedSizeBinary 16 None"

text \<open>\<open>literal_expression\<close> of \<open>elucid-engine/src/pipeline.rs\<close>: the scalar of a literal.\<close>

primrec literal_scalar :: "ir_literal \<Rightarrow> scalar" where
  "literal_scalar (LNull t) = null_scalar t"
| "literal_scalar (LBoolean v) = SBoolean (Some v)"
| "literal_scalar (LInt32 v) = SInt32 (Some v)"
| "literal_scalar (LInt64 v) = SInt64 (Some v)"
| "literal_scalar (LUInt32 v) = SUInt32 (Some v)"
| "literal_scalar (LUInt64 v) = SUInt64 (Some v)"
| "literal_scalar (LFloat32 v) = SFloat32 (Some v)"
| "literal_scalar (LFloat64 v) = SFloat64 (Some v)"
| "literal_scalar (LUtf8 v) = SUtf8 (Some v)"
| "literal_scalar (LDatetime v) = STimestampMillisecond (Some v) (Some UTC_TIMEZONE)"
| "literal_scalar (LEid v) = SFixedSizeBinary 16 (Some v)"

section \<open>Checked arithmetic\<close>

definition checked_integer ::
  "(int \<Rightarrow> bool) \<Rightarrow> (int option \<Rightarrow> scalar) \<Rightarrow> ir_binary_operator \<Rightarrow> int \<Rightarrow> int \<Rightarrow> runtime_failure_kind + scalar" where
  "checked_integer P variant operator left right =
     map_sum id (variant \<circ> Some) (ok_or (case operator of
         OpAdd \<Rightarrow> checked_int_add P left right
       | OpSubtract \<Rightarrow> checked_sub P left right
       | OpMultiply \<Rightarrow> checked_mul P left right
       | OpDivide \<Rightarrow> checked_div P left right
       | _ \<Rightarrow> None) EvaluationFailure)"

definition checked_float ::
  "fp_format \<Rightarrow> (fp option \<Rightarrow> scalar) \<Rightarrow> ir_binary_operator \<Rightarrow> fp \<Rightarrow> fp \<Rightarrow> runtime_failure_kind + scalar" where
  "checked_float F variant operator left right =
     (let finish = (\<lambda>result. if fp_is_finite result then Inr (variant (Some result)) else Inl EvaluationFailure)
      in case operator of
        OpAdd \<Rightarrow> finish (fp_add F left right)
      | OpSubtract \<Rightarrow> finish (fp_sub F left right)
      | OpMultiply \<Rightarrow> finish (fp_mul F left right)
      | OpDivide \<Rightarrow> finish (fp_div F left right)
      | _ \<Rightarrow> Inl ExecutionFailure)"

definition checked_binary ::
  "ir_binary_operator \<Rightarrow> logical_type \<Rightarrow> scalar \<Rightarrow> scalar \<Rightarrow> runtime_failure_kind + scalar" where
  "checked_binary operator t left right =
     (if scalar_is_null left \<or> scalar_is_null right then Inr (null_scalar t)
      else case (t, left, right) of
        (TInt32, SInt32 (Some l), SInt32 (Some r)) \<Rightarrow> checked_integer in_i32 SInt32 operator l r
      | (TInt64, SInt64 (Some l), SInt64 (Some r)) \<Rightarrow> checked_integer in_i64 SInt64 operator l r
      | (TUInt32, SUInt32 (Some l), SUInt32 (Some r)) \<Rightarrow> checked_integer in_u32 SUInt32 operator l r
      | (TUInt64, SUInt64 (Some l), SUInt64 (Some r)) \<Rightarrow> checked_integer in_u64 SUInt64 operator l r
      | (TFloat32, SFloat32 (Some l), SFloat32 (Some r)) \<Rightarrow> checked_float binary32 SFloat32 operator l r
      | (TFloat64, SFloat64 (Some l), SFloat64 (Some r)) \<Rightarrow> checked_float binary64 SFloat64 operator l r
      | _ \<Rightarrow> Inl ExecutionFailure)"

definition checked_negate :: "logical_type \<Rightarrow> scalar \<Rightarrow> runtime_failure_kind + scalar" where
  "checked_negate t value =
     (if scalar_is_null value then Inr (null_scalar t)
      else case (t, value) of
        (TInt32, SInt32 (Some v)) \<Rightarrow> map_sum id (SInt32 \<circ> Some) (ok_or (checked_neg in_i32 v) EvaluationFailure)
      | (TInt64, SInt64 (Some v)) \<Rightarrow> map_sum id (SInt64 \<circ> Some) (ok_or (checked_neg in_i64 v) EvaluationFailure)
      | (TFloat32, SFloat32 (Some v)) \<Rightarrow>
          if fp_is_finite (fp_neg v) then Inr (SFloat32 (Some (fp_neg v))) else Inl EvaluationFailure
      | (TFloat64, SFloat64 (Some v)) \<Rightarrow>
          if fp_is_finite (fp_neg v) then Inr (SFloat64 (Some (fp_neg v))) else Inl EvaluationFailure
      | _ \<Rightarrow> Inl ExecutionFailure)"

section \<open>JSON\<close>

datatype json =
    JNull
  | JBool bool
  | JNumber string
  | JString string
  | JArray "json list"
  | JObject "(string \<times> json) list"

record engine_env = chrono_env +
  json_from_str :: "string \<Rightarrow> json option"
  json_to_string :: "json \<Rightarrow> string option"
  json_float_to_string :: "fp_format \<Rightarrow> fp \<Rightarrow> string option"
  number_from_str :: "string \<Rightarrow> string option"
  number_as_i64 :: "string \<Rightarrow> int option"
  number_as_u64 :: "string \<Rightarrow> int option"
  number_as_f64 :: "string \<Rightarrow> fp option"
  timestamp_millis_to_rfc3339 :: "int \<Rightarrow> string option"

text \<open>The accessors return values of their Rust types.\<close>

definition engine_env_ok :: "'x engine_env_scheme \<Rightarrow> bool" where
  "engine_env_ok X \<longleftrightarrow> chrono_ok X \<and>
     (\<forall>n v. number_as_i64 X n = Some v \<longrightarrow> in_i64 v) \<and>
     (\<forall>n v. number_as_u64 X n = Some v \<longrightarrow> in_u64 v) \<and>
     (\<forall>n v. number_as_f64 X n = Some v \<longrightarrow> fp_ok binary64 v)"

definition evaluate_remainder ::
  "'x engine_env_scheme \<Rightarrow> ir_remainder_function \<Rightarrow> string \<Rightarrow> scalar \<Rightarrow> runtime_failure_kind + scalar" where
  "evaluate_remainder X f key value = (case value of
       SUtf8 None \<Rightarrow> (case f of RemValue \<Rightarrow> Inr (SUtf8 None) | RemExists \<Rightarrow> Inr (SBoolean (Some False)))
     | SUtf8 (Some remainder) \<Rightarrow>
         (case json_from_str X remainder of
            Some (JObject members) \<Rightarrow>
              (case f of
                 RemValue \<Rightarrow> (case map_of members key of
                     None \<Rightarrow> Inr (SUtf8 None)
                   | Some v \<Rightarrow> map_sum id (SUtf8 \<circ> Some) (ok_or (json_to_string X v) ExecutionFailure))
               | RemExists \<Rightarrow> Inr (SBoolean (Some (map_of members key \<noteq> None))))
          | _ \<Rightarrow> Inl ExecutionFailure)
     | _ \<Rightarrow> Inl ExecutionFailure)"

section \<open>Numeric casts\<close>

datatype invalid_cast = InvalidCast

datatype numeric_value = NSigned int | NUnsigned int | NFloat32 fp | NFloat64 fp

definition numeric_value_of :: "scalar \<Rightarrow> logical_type \<Rightarrow> invalid_cast + numeric_value" where
  "numeric_value_of value source = (case (source, value) of
       (TInt32, SInt32 (Some v)) \<Rightarrow> Inr (NSigned v)
     | (TInt64, SInt64 (Some v)) \<Rightarrow> Inr (NSigned v)
     | (TUInt32, SUInt32 (Some v)) \<Rightarrow> Inr (NUnsigned v)
     | (TUInt64, SUInt64 (Some v)) \<Rightarrow> Inr (NUnsigned v)
     | (TFloat32, SFloat32 (Some v)) \<Rightarrow> if fp_is_finite v then Inr (NFloat32 v) else Inl InvalidCast
     | (TFloat64, SFloat64 (Some v)) \<Rightarrow> if fp_is_finite v then Inr (NFloat64 v) else Inl InvalidCast
     | _ \<Rightarrow> Inl InvalidCast)"

definition json_number :: "'x engine_env_scheme \<Rightarrow> string \<Rightarrow> invalid_cast + numeric_value" where
  "json_number X n = (case number_as_i64 X n of
       Some v \<Rightarrow> Inr (NSigned v)
     | None \<Rightarrow> (case number_as_u64 X n of
           Some v \<Rightarrow> Inr (NUnsigned v)
         | None \<Rightarrow> map_sum id NFloat64
             (ok_or (option_filter fp_is_finite (number_as_f64 X n)) InvalidCast)))"

text \<open>
  A \<open>f64\<close> value is its rational value, so \<open>f64::from\<close> of a \<open>f32\<close> is the same value, the bounds are
  exact, \<open>fract() == 0.0\<close> is integrality, and \<open>as i32\<close> of an integral value in range is that value.
\<close>

definition float_to_i32 :: "fp \<Rightarrow> invalid_cast + int" where
  "float_to_i32 value =
     (if fp_is_finite value \<and> fp_is_integral value \<and>
         - (2 ^ 31) \<le> fp_value value \<and> fp_value value \<le> 2 ^ 31 - 1
      then Inr \<lfloor>fp_value value\<rfloor> else Inl InvalidCast)"

definition float_to_i64 :: "fp \<Rightarrow> invalid_cast + int" where
  "float_to_i64 value =
     (if fp_is_finite value \<and> fp_is_integral value \<and>
         - 9223372036854775808 \<le> fp_value value \<and> fp_value value < 9223372036854775808
      then Inr \<lfloor>fp_value value\<rfloor> else Inl InvalidCast)"

definition float_to_u32 :: "fp \<Rightarrow> invalid_cast + int" where
  "float_to_u32 value =
     (if fp_is_finite value \<and> fp_is_integral value \<and>
         0 \<le> fp_value value \<and> fp_value value \<le> 2 ^ 32 - 1
      then Inr \<lfloor>fp_value value\<rfloor> else Inl InvalidCast)"

definition float_to_u64 :: "fp \<Rightarrow> invalid_cast + int" where
  "float_to_u64 value =
     (if fp_is_finite value \<and> fp_is_integral value \<and>
         0 \<le> fp_value value \<and> fp_value value < 18446744073709551616
      then Inr \<lfloor>fp_value value\<rfloor> else Inl InvalidCast)"

definition runtime_integer_is_exact :: "nat \<Rightarrow> nat \<Rightarrow> bool" where
  "runtime_integer_is_exact value mantissa_digits =
     (if value = 0 then True
      else let bits = significant_bits value in
        bits \<le> mantissa_digits \<or> trailing_zeros value \<ge> bits - mantissa_digits)"

definition to_i32 :: "numeric_value \<Rightarrow> invalid_cast + int" where
  "to_i32 value = (case value of
       NSigned v \<Rightarrow> ok_or (in_range in_i32 v) InvalidCast
     | NUnsigned v \<Rightarrow> ok_or (in_range in_i32 v) InvalidCast
     | NFloat32 v \<Rightarrow> float_to_i32 v
     | NFloat64 v \<Rightarrow> float_to_i32 v)"

definition to_i64 :: "numeric_value \<Rightarrow> invalid_cast + int" where
  "to_i64 value = (case value of
       NSigned v \<Rightarrow> Inr v
     | NUnsigned v \<Rightarrow> ok_or (in_range in_i64 v) InvalidCast
     | NFloat32 v \<Rightarrow> float_to_i64 v
     | NFloat64 v \<Rightarrow> float_to_i64 v)"

definition to_u32 :: "numeric_value \<Rightarrow> invalid_cast + int" where
  "to_u32 value = (case value of
       NSigned v \<Rightarrow> ok_or (in_range in_u32 v) InvalidCast
     | NUnsigned v \<Rightarrow> ok_or (in_range in_u32 v) InvalidCast
     | NFloat32 v \<Rightarrow> float_to_u32 v
     | NFloat64 v \<Rightarrow> float_to_u32 v)"

definition to_u64 :: "numeric_value \<Rightarrow> invalid_cast + int" where
  "to_u64 value = (case value of
       NSigned v \<Rightarrow> ok_or (in_range in_u64 v) InvalidCast
     | NUnsigned v \<Rightarrow> Inr v
     | NFloat32 v \<Rightarrow> float_to_u64 v
     | NFloat64 v \<Rightarrow> float_to_u64 v)"

definition to_f32 :: "numeric_value \<Rightarrow> invalid_cast + fp" where
  "to_f32 value =
     sbind (case value of
         NSigned v \<Rightarrow> if runtime_integer_is_exact (nat \<bar>v\<bar>) 24 then Inr (fp_of_int binary32 v) else Inl InvalidCast
       | NUnsigned v \<Rightarrow> if runtime_integer_is_exact (nat v) 24 then Inr (fp_of_int binary32 v) else Inl InvalidCast
       | NFloat32 v \<Rightarrow> Inr v
       | NFloat64 v \<Rightarrow> (let converted = fp_convert binary32 v in
           if \<not> fp_eq converted v then Inl InvalidCast else Inr converted)) (\<lambda>converted.
     if fp_is_finite converted then Inr converted else Inl InvalidCast)"

definition to_f64 :: "numeric_value \<Rightarrow> invalid_cast + fp" where
  "to_f64 value =
     sbind (case value of
         NSigned v \<Rightarrow> if runtime_integer_is_exact (nat \<bar>v\<bar>) 53 then Inr (fp_of_int binary64 v) else Inl InvalidCast
       | NUnsigned v \<Rightarrow> if runtime_integer_is_exact (nat v) 53 then Inr (fp_of_int binary64 v) else Inl InvalidCast
       | NFloat32 v \<Rightarrow> Inr v
       | NFloat64 v \<Rightarrow> Inr v) (\<lambda>converted.
     if fp_is_finite converted then Inr converted else Inl InvalidCast)"

definition numeric_to_scalar :: "numeric_value \<Rightarrow> logical_type \<Rightarrow> invalid_cast + scalar" where
  "numeric_to_scalar value target = (case target of
       TInt32 \<Rightarrow> map_sum id (SInt32 \<circ> Some) (to_i32 value)
     | TInt64 \<Rightarrow> map_sum id (SInt64 \<circ> Some) (to_i64 value)
     | TUInt32 \<Rightarrow> map_sum id (SUInt32 \<circ> Some) (to_u32 value)
     | TUInt64 \<Rightarrow> map_sum id (SUInt64 \<circ> Some) (to_u64 value)
     | TFloat32 \<Rightarrow> map_sum id (SFloat32 \<circ> Some) (to_f32 value)
     | TFloat64 \<Rightarrow> map_sum id (SFloat64 \<circ> Some) (to_f64 value)
     | _ \<Rightarrow> Inl InvalidCast)"

section \<open>Text\<close>

text \<open>Decimal text of integers: \<open>to_string\<close> and \<open>parse\<close> of the standard library.\<close>

fun nat_to_string :: "nat \<Rightarrow> string" where
  "nat_to_string n = (if n < 10 then [char_of (n + 48)] else nat_to_string (n div 10) @ [char_of (n mod 10 + 48)])"

declare nat_to_string.simps [simp del]

definition int_to_string :: "int \<Rightarrow> string" where
  "int_to_string i = (if i < 0 then CHR ''-'' # nat_to_string (nat (- i)) else nat_to_string (nat i))"

definition strip_minus :: "string \<Rightarrow> bool \<times> string" where
  "strip_minus s = (case s of [] \<Rightarrow> (False, []) | c # cs \<Rightarrow> if c = CHR ''-'' then (True, cs) else (False, s))"

definition valid_unsigned_decimal :: "string \<Rightarrow> bool" where
  "valid_unsigned_decimal s \<longleftrightarrow> s \<noteq> [] \<and> list_all is_digit s"

definition valid_signed_decimal :: "string \<Rightarrow> bool" where
  "valid_signed_decimal s \<longleftrightarrow> valid_unsigned_decimal (snd (strip_minus s))"

text \<open>\<open>str::parse\<close> on a text that one of these two accepts.\<close>

definition parse_int :: "(int \<Rightarrow> bool) \<Rightarrow> string \<Rightarrow> int option" where
  "parse_int P s = (let (neg, digits) = strip_minus s; n = int (decimal_value digits)
     in in_range P (if neg then - n else n))"

definition parse_json_float :: "'x engine_env_scheme \<Rightarrow> string \<Rightarrow> invalid_cast + fp" where
  "parse_json_float X s =
     sbind (ok_or (number_from_str X s) InvalidCast) (\<lambda>n.
     ok_or (option_filter fp_is_finite (number_as_f64 X n)) InvalidCast)"

definition utf8_to_scalar ::
  "'x engine_env_scheme \<Rightarrow> scalar \<Rightarrow> logical_type \<Rightarrow> invalid_cast + scalar" where
  "utf8_to_scalar X value target = (case value of
     SUtf8 (Some s) \<Rightarrow> (case target of
         TBool \<Rightarrow> if s = ''true'' then Inr (SBoolean (Some True))
           else if s = ''false'' then Inr (SBoolean (Some False)) else Inl InvalidCast
       | TInt32 \<Rightarrow> if valid_signed_decimal s
           then map_sum id (SInt32 \<circ> Some) (ok_or (parse_int in_i32 s) InvalidCast) else Inl InvalidCast
       | TInt64 \<Rightarrow> if valid_signed_decimal s
           then map_sum id (SInt64 \<circ> Some) (ok_or (parse_int in_i64 s) InvalidCast) else Inl InvalidCast
       | TUInt32 \<Rightarrow> if valid_unsigned_decimal s
           then map_sum id (SUInt32 \<circ> Some) (ok_or (parse_int in_u32 s) InvalidCast) else Inl InvalidCast
       | TUInt64 \<Rightarrow> if valid_unsigned_decimal s
           then map_sum id (SUInt64 \<circ> Some) (ok_or (parse_int in_u64 s) InvalidCast) else Inl InvalidCast
       | TFloat32 \<Rightarrow> sbind (parse_json_float X s) (\<lambda>v.
           let v = fp_convert binary32 v in
           if fp_is_finite v then Inr (SFloat32 (Some v)) else Inl InvalidCast)
       | TFloat64 \<Rightarrow> map_sum id (SFloat64 \<circ> Some) (parse_json_float X s)
       | TDatetime \<Rightarrow> sbind (ok_or (parse_from_rfc3339 X s) InvalidCast) (\<lambda>(subsec_nanos, millis).
           if subsec_nanos mod 1000000 \<noteq> 0 then Inl InvalidCast
           else Inr (STimestampMillisecond (Some millis) (Some UTC_TIMEZONE)))
       | TEid \<Rightarrow> map_sum (\<lambda>_. InvalidCast) (SFixedSizeBinary 16 \<circ> Some) (event_id_from_str s)
       | _ \<Rightarrow> Inl InvalidCast)
   | _ \<Rightarrow> Inl InvalidCast)"

definition scalar_to_utf8 ::
  "'x engine_env_scheme \<Rightarrow> scalar \<Rightarrow> logical_type \<Rightarrow> invalid_cast + string" where
  "scalar_to_utf8 X value source = (case (source, value) of
       (TBool, SBoolean (Some v)) \<Rightarrow> Inr (if v then ''true'' else ''false'')
     | (TInt32, SInt32 (Some v)) \<Rightarrow> Inr (int_to_string v)
     | (TInt64, SInt64 (Some v)) \<Rightarrow> Inr (int_to_string v)
     | (TUInt32, SUInt32 (Some v)) \<Rightarrow> Inr (int_to_string v)
     | (TUInt64, SUInt64 (Some v)) \<Rightarrow> Inr (int_to_string v)
     | (TFloat32, SFloat32 (Some v)) \<Rightarrow> if fp_is_finite v
         then ok_or (json_float_to_string X binary32 v) InvalidCast else Inl InvalidCast
     | (TFloat64, SFloat64 (Some v)) \<Rightarrow> if fp_is_finite v
         then ok_or (json_float_to_string X binary64 v) InvalidCast else Inl InvalidCast
     | (TUtf8, SUtf8 (Some v)) \<Rightarrow> Inr v
     | (TDatetime, STimestampMillisecond (Some v) (Some timezone)) \<Rightarrow> if timezone = UTC_TIMEZONE
         then ok_or (timestamp_millis_to_rfc3339 X v) InvalidCast else Inl InvalidCast
     | (TEid, SFixedSizeBinary n (Some v)) \<Rightarrow> if n = 16 \<and> length v = 16
         then Inr (event_id_display v) else Inl InvalidCast
     | _ \<Rightarrow> Inl InvalidCast)"

definition scalar_to_json ::
  "'x engine_env_scheme \<Rightarrow> scalar \<Rightarrow> logical_type \<Rightarrow> invalid_cast + string" where
  "scalar_to_json X value source =
     (if source \<in> {TUtf8, TDatetime, TEid}
      then sbind (scalar_to_utf8 X value source) (\<lambda>s. ok_or (json_to_string X (JString s)) InvalidCast)
      else if source = TJson then Inl InvalidCast
      else scalar_to_utf8 X value source)"

section \<open>Casts\<close>

definition convert_non_json ::
  "'x engine_env_scheme \<Rightarrow> scalar \<Rightarrow> logical_type \<Rightarrow> logical_type \<Rightarrow> invalid_cast + scalar" where
  "convert_non_json X value source target =
     (if source = target then Inr value
      else if target = TJson then map_sum id (SUtf8 \<circ> Some) (scalar_to_json X value source)
      else if target = TUtf8 then map_sum id (SUtf8 \<circ> Some) (scalar_to_utf8 X value source)
      else if source = TUtf8 then utf8_to_scalar X value target
      else if is_numeric source \<and> is_numeric target
      then sbind (numeric_value_of value source) (\<lambda>v. numeric_to_scalar v target)
      else Inl InvalidCast)"

definition convert_json ::
  "'x engine_env_scheme \<Rightarrow> scalar \<Rightarrow> logical_type \<Rightarrow> invalid_cast + scalar" where
  "convert_json X value target = (case value of
     SUtf8 (Some encoded) \<Rightarrow>
       sbind (ok_or (json_from_str X encoded) InvalidCast) (\<lambda>json.
       if target = TJson then Inr value
       else case json of
         JNull \<Rightarrow> Inr (null_scalar target)
       | JBool v \<Rightarrow> convert_non_json X (SBoolean (Some v)) TBool target
       | JString v \<Rightarrow> convert_non_json X (SUtf8 (Some v)) TUtf8 target
       | JNumber v \<Rightarrow> if is_numeric target
           then sbind (json_number X v) (\<lambda>n. numeric_to_scalar n target) else Inl InvalidCast
       | JArray _ \<Rightarrow> Inl InvalidCast
       | JObject _ \<Rightarrow> Inl InvalidCast)
   | _ \<Rightarrow> Inl InvalidCast)"

definition convert_scalar ::
  "'x engine_env_scheme \<Rightarrow> scalar \<Rightarrow> logical_type \<Rightarrow> logical_type \<Rightarrow> invalid_cast + scalar" where
  "convert_scalar X value source target =
     (if scalar_is_null value then Inr (null_scalar target)
      else if source = TJson then convert_json X value target
      else convert_non_json X value source target)"

datatype cast_failure_behavior = Abort | NullResult

primrec failure_behavior :: "ir_cast_kind \<Rightarrow> cast_failure_behavior" where
  "failure_behavior Lossless = Abort"
| "failure_behavior Strict = Abort"
| "failure_behavior NullOnFailure = NullResult"

text \<open>The operation of \<open>cast_udf\<close> on one value.\<close>

definition cast_value ::
  "'x engine_env_scheme \<Rightarrow> cast_failure_behavior \<Rightarrow> logical_type \<Rightarrow> logical_type \<Rightarrow> scalar \<Rightarrow>
   runtime_failure_kind + scalar" where
  "cast_value X behavior source target value = (case convert_scalar X value source target of
       Inr converted \<Rightarrow> Inr converted
     | Inl InvalidCast \<Rightarrow> if behavior = NullResult then Inr (null_scalar target) else Inl CastFailure)"

section \<open>Functions over columns\<close>

datatype columnar = CScalar scalar | CArray "scalar list"

text \<open>
  An array is the list of its values; a call with another number of arguments is an internal
  error of DataFusion, which the engine reports as a failed execution.
\<close>

definition map_unary ::
  "(scalar \<Rightarrow> runtime_failure_kind + scalar) \<Rightarrow> columnar list \<Rightarrow> runtime_failure_kind + columnar" where
  "map_unary operation arguments = (case arguments of
       [CScalar value] \<Rightarrow> map_sum id CScalar (operation value)
     | [CArray values] \<Rightarrow> if values = [] then Inr (CArray [])
         else map_sum id CArray (traverse operation values)
     | _ \<Rightarrow> Inl ExecutionFailure)"

text \<open>
  \<open>values_to_arrays\<close> of DataFusion, which repeats a scalar for the rows of the other argument, is the
  parameter \<open>expand\<close>.
\<close>

definition map_binary ::
  "(columnar list \<Rightarrow> scalar list list option) \<Rightarrow> (scalar \<Rightarrow> scalar \<Rightarrow> runtime_failure_kind + scalar) \<Rightarrow>
   columnar list \<Rightarrow> runtime_failure_kind + columnar" where
  "map_binary expand operation arguments = (case arguments of
       [left, right] \<Rightarrow>
         (case (left, right) of
            (CScalar l, CScalar r) \<Rightarrow> map_sum id CScalar (operation l r)
          | _ \<Rightarrow> (case expand arguments of
              Some [ls, rs] \<Rightarrow>
                if ls = [] then Inr (CArray [])
                else map_sum id CArray (traverse (\<lambda>(l, r). operation l r) (zip ls rs))
            | _ \<Rightarrow> Inl ExecutionFailure))
     | _ \<Rightarrow> Inl ExecutionFailure)"

end
