(* ===== verification/Engine_Cast.thy ===== *)
theory Engine_Cast
  imports Engine_Runtime
begin

text \<open>
  What the scalar functions compute: arithmetic agrees with constant folding, numeric casts are
  exact, texts round-trip, and every function keeps to the type it is declared with.
\<close>

section \<open>Typed values\<close>

text \<open>The scalars of a column of a logical type.\<close>

definition scalar_ok :: "logical_type \<Rightarrow> scalar \<Rightarrow> bool" where
  "scalar_ok t v = (case (t, v) of
       (TBool, SBoolean _) \<Rightarrow> True
     | (TInt32, SInt32 x) \<Rightarrow> pred_option in_i32 x
     | (TInt64, SInt64 x) \<Rightarrow> pred_option in_i64 x
     | (TUInt32, SUInt32 x) \<Rightarrow> pred_option in_u32 x
     | (TUInt64, SUInt64 x) \<Rightarrow> pred_option in_u64 x
     | (TFloat32, SFloat32 x) \<Rightarrow> pred_option (\<lambda>y. fp_is_finite y \<and> fp_ok binary32 y) x
     | (TFloat64, SFloat64 x) \<Rightarrow> pred_option (\<lambda>y. fp_is_finite y \<and> fp_ok binary64 y) x
     | (TUtf8, SUtf8 _) \<Rightarrow> True
     | (TJson, SUtf8 _) \<Rightarrow> True
     | (TDatetime, STimestampMillisecond x z) \<Rightarrow> z = Some UTC_TIMEZONE \<and> pred_option in_i64 x
     | (TEid, SFixedSizeBinary n x) \<Rightarrow> n = 16 \<and> pred_option event_id_ok x
     | _ \<Rightarrow> False)"

lemma null_scalar_facts [simp]: "scalar_is_null (null_scalar t)" "scalar_ok t (null_scalar t)"
  by (cases t; simp add: scalar_ok_def)+

lemma scalar_ok_null: "scalar_ok t v \<Longrightarrow> scalar_is_null v \<Longrightarrow> v = null_scalar t"
  by (cases t; cases v) (simp_all add: scalar_ok_def)

lemma literal_scalar_ok:
  "literal_ok l \<Longrightarrow> scalar_ok (literal_logical_type l) (literal_scalar l)"
proof (cases l)
  case (LNull t)
  then show ?thesis by simp
qed (simp_all add: scalar_ok_def)

lemma literal_scalar_null [simp]: "scalar_is_null (literal_scalar l) = is_null l"
  by (cases l) simp_all

text \<open>The literal that a non-null scalar is the value of.\<close>

lemma scalar_ok_cases:
  assumes "scalar_ok t v" "\<not> scalar_is_null v" "t \<noteq> TJson"
  obtains l where "v = literal_scalar l" "literal_ok l" "literal_logical_type l = t" "\<not> is_null l"
proof -
  have "\<exists>l. v = literal_scalar l \<and> literal_ok l \<and> literal_logical_type l = t \<and> \<not> is_null l"
  proof (cases v)
    case (SBoolean x)
    with assms show ?thesis by (cases t) (auto simp: scalar_ok_def intro!: exI [of _ "LBoolean (the x)"])
  next
    case (SInt32 x)
    with assms show ?thesis by (cases t) (auto simp: scalar_ok_def intro!: exI [of _ "LInt32 (the x)"])
  next
    case (SInt64 x)
    with assms show ?thesis by (cases t) (auto simp: scalar_ok_def intro!: exI [of _ "LInt64 (the x)"])
  next
    case (SUInt32 x)
    with assms show ?thesis by (cases t) (auto simp: scalar_ok_def intro!: exI [of _ "LUInt32 (the x)"])
  next
    case (SUInt64 x)
    with assms show ?thesis by (cases t) (auto simp: scalar_ok_def intro!: exI [of _ "LUInt64 (the x)"])
  next
    case (SFloat32 x)
    with assms show ?thesis by (cases t) (auto simp: scalar_ok_def intro!: exI [of _ "LFloat32 (the x)"])
  next
    case (SFloat64 x)
    with assms show ?thesis by (cases t) (auto simp: scalar_ok_def intro!: exI [of _ "LFloat64 (the x)"])
  next
    case (SUtf8 x)
    with assms show ?thesis by (cases t) (auto simp: scalar_ok_def intro!: exI [of _ "LUtf8 (the x)"])
  next
    case (STimestampMillisecond x z)
    with assms show ?thesis by (cases t) (auto simp: scalar_ok_def intro!: exI [of _ "LDatetime (the x)"])
  next
    case (SFixedSizeBinary n x)
    with assms show ?thesis by (cases t) (auto simp: scalar_ok_def intro!: exI [of _ "LEid (the x)"])
  qed
  with that show ?thesis by blast
qed

section \<open>Arithmetic\<close>

text \<open>
  The run-time result that corresponds to a result of constant folding: a folded literal is its
  value, and a constant that cannot be evaluated is a failed evaluation.
\<close>

definition folded_result :: "diagnostic + ir_expression option \<Rightarrow> runtime_failure_kind + scalar \<Rightarrow> bool" where
  "folded_result folded result = (case folded of
       Inr (Some e) \<Rightarrow> (\<exists>l. e = expression_literal l \<and> result = Inr (literal_scalar l))
     | Inr None \<Rightarrow> False
     | Inl d \<Rightarrow> diag_code d = ConstantEvaluationFailed \<and> result = Inl EvaluationFailure)"

lemma fp_div_zero:
  assumes "fp_is_finite x" "fp_is_finite y" "fp_ok F y" "fp_eq y (FZero False)"
  shows "\<not> fp_is_finite (fp_div F x y)"
proof (cases y)
  case (FNum q)
  with assms(3,4) show ?thesis by (auto dest: representable_nonzero)
qed (use assms in \<open>cases x; simp\<close>)+

lemma checked_binary_folds:
  assumes "literal_ok l" "literal_ok r" "literal_logical_type l = t" "literal_logical_type r = t"
    "is_numeric t" "arithmetic_op op"
  shows "folded_result (fold_binary op (expression_literal l) (expression_literal r) t sp)
    (checked_binary op t (literal_scalar l) (literal_scalar r))"
proof (cases "is_null l \<or> is_null r")
  case True
  with assms(6) show ?thesis
    by (auto simp: folded_result_def fold_binary_def checked_binary_def arithmetic_op_def)
next
  case False
  note nonnull = this
  have op: "op \<in> {OpAdd, OpSubtract, OpMultiply, OpDivide}" using assms(6) by (simp add: arithmetic_op_def)
  have int: "folded_result (map_sum id (map_option expression_literal) (fold_integer P v op a b sp))
      (checked_integer P s op a b)" if "\<And>x. literal_scalar (v x) = s (Some x)" for P v s a b
    using op that by (cases op; cases "case op of OpAdd \<Rightarrow> checked_int_add P a b | OpSubtract \<Rightarrow> checked_sub P a b
      | OpMultiply \<Rightarrow> checked_mul P a b | OpDivide \<Rightarrow> checked_div P a b | _ \<Rightarrow> None")
      (auto simp: folded_result_def fold_integer_def checked_integer_def constant_evaluation_failed_def
        diagnostic_error_def)
  have flt: "folded_result (map_sum id (map_option expression_literal) (fold_float F v op a b sp))
      (checked_float F s op a b)" if "\<And>x. literal_scalar (v x) = s (Some x)" "fp_is_finite a" "fp_is_finite b" "fp_ok F b" for F v s a b
    using op that fp_div_zero [of a b F] by (cases op)
      (auto simp: folded_result_def fold_float_def checked_float_def constant_evaluation_failed_def
        diagnostic_error_def)
  have eq: "fold_binary op (expression_literal l) (expression_literal r) t sp =
      map_sum id (map_option expression_literal) (fold_literals op l r sp)"
    using nonnull op by (auto simp: fold_binary_def)
  show ?thesis
    using assms(1-5) nonnull unfolding eq
    by (cases l; cases r; simp add: is_numeric_def fold_literals_def checked_binary_def int flt)
qed

lemma checked_negate_folds:
  assumes "literal_ok l" "literal_logical_type l \<in> {TInt32, TInt64, TFloat32, TFloat64}"
  shows "folded_result (fold_unary OpNegate (expression_literal l) sp)
    (checked_negate (literal_logical_type l) (literal_scalar l))"
proof (cases l)
  case (LNull t)
  then show ?thesis
    by (auto simp: folded_result_def fold_unary_def checked_negate_def intro!: exI [of _ "LNull t"])
qed (use assms in \<open>auto simp: folded_result_def fold_unary_def checked_negate_def checked_neg_def in_range_def
      constant_evaluation_failed_def diagnostic_error_def\<close>)

section \<open>Numeric casts\<close>

primrec numeric_ok :: "numeric_value \<Rightarrow> bool" where
  "numeric_ok (NSigned v) = in_i64 v"
| "numeric_ok (NUnsigned v) = in_u64 v"
| "numeric_ok (NFloat32 x) = (fp_is_finite x \<and> fp_ok binary32 x)"
| "numeric_ok (NFloat64 x) = (fp_is_finite x \<and> fp_ok binary64 x)"

primrec numeric_rat :: "numeric_value \<Rightarrow> rat" where
  "numeric_rat (NSigned v) = of_int v"
| "numeric_rat (NUnsigned v) = of_int v"
| "numeric_rat (NFloat32 x) = fp_value x"
| "numeric_rat (NFloat64 x) = fp_value x"

text \<open>Whether a numeric type has a value that equals a rational number.\<close>

definition type_holds :: "logical_type \<Rightarrow> rat \<Rightarrow> bool" where
  "type_holds t q = (case t of
       TInt32 \<Rightarrow> q = of_int \<lfloor>q\<rfloor> \<and> in_i32 \<lfloor>q\<rfloor>
     | TInt64 \<Rightarrow> q = of_int \<lfloor>q\<rfloor> \<and> in_i64 \<lfloor>q\<rfloor>
     | TUInt32 \<Rightarrow> q = of_int \<lfloor>q\<rfloor> \<and> in_u32 \<lfloor>q\<rfloor>
     | TUInt64 \<Rightarrow> q = of_int \<lfloor>q\<rfloor> \<and> in_u64 \<lfloor>q\<rfloor>
     | TFloat32 \<Rightarrow> q = 0 \<or> representable binary32 q
     | TFloat64 \<Rightarrow> q = 0 \<or> representable binary64 q
     | _ \<Rightarrow> False)"

definition scalar_rat :: "scalar \<Rightarrow> rat option" where
  "scalar_rat v = (case v of
       SInt32 x \<Rightarrow> map_option of_int x
     | SInt64 x \<Rightarrow> map_option of_int x
     | SUInt32 x \<Rightarrow> map_option of_int x
     | SUInt64 x \<Rightarrow> map_option of_int x
     | SFloat32 x \<Rightarrow> map_option fp_value x
     | SFloat64 x \<Rightarrow> map_option fp_value x
     | _ \<Rightarrow> None)"

lemma fp_ok_value: "fp_is_finite x \<Longrightarrow> fp_ok F x \<Longrightarrow> fp_value x = 0 \<or> representable F (fp_value x)"
  by (cases x) simp_all

lemma runtime_integer_is_exact_eq: "runtime_integer_is_exact n d = integer_is_exact n d"
  by (simp add: runtime_integer_is_exact_def integer_is_exact_def significant_bits.simps [of 0])

lemma integer_to_float:
  assumes "\<bar>v\<bar> < 2 ^ 64" "fp_format_ok F" "63 \<le> fp_emax F"
  shows "runtime_integer_is_exact (nat \<bar>v\<bar>) (fp_precision F) \<longleftrightarrow> fp_exact F v"
proof -
  have "int (nat \<bar>v\<bar>) = v \<or> int (nat \<bar>v\<bar>) = - v" by linarith
  moreover have "nat \<bar>v\<bar> < 2 ^ 64" using assms(1) by (simp add: nat_less_iff)
  ultimately show ?thesis
    using fp_exact_iff [of "nat \<bar>v\<bar>" F] assms(2,3) fp_exact_minus [of F v]
    by (auto simp: runtime_integer_is_exact_eq)
qed

lemma fp_format_facts [simp]:
  "fp_format_ok binary32" "fp_format_ok binary64" "63 \<le> fp_emax binary32" "63 \<le> fp_emax binary64"
  "fp_precision binary32 = 24" "fp_precision binary64 = 53"
  by (simp_all add: binary32_def binary64_def fp_format_ok_def)

lemma narrow_float:
  assumes "fp_is_finite x" "fp_ok binary64 x"
  shows "fp_eq (fp_convert binary32 x) x \<longleftrightarrow> fp_value x = 0 \<or> representable binary32 (fp_value x)"
    "fp_eq (fp_convert binary32 x) x \<Longrightarrow> fp_convert binary32 x = x"
proof -
  have key: "fp_of_rat binary32 q = FNum q" if eq: "fp_eq (fp_of_rat binary32 q) (FNum q)" "q \<noteq> 0" for q
    using that by (cases "fp_of_rat binary32 q") auto
  have rep: "representable binary32 q" if "fp_eq (fp_of_rat binary32 q) (FNum q)" "q \<noteq> 0" for q
    using fp_ok_of_rat [of binary32 q] key [OF that] by simp
  show "fp_eq (fp_convert binary32 x) x \<Longrightarrow> fp_convert binary32 x = x"
    using assms key by (cases x) (auto dest: representable_nonzero)
  show "fp_eq (fp_convert binary32 x) x \<longleftrightarrow> fp_value x = 0 \<or> representable binary32 (fp_value x)"
    using assms rep by (cases x) (auto simp: fp_of_rat_exact dest: representable_nonzero)
qed

definition exact_floor :: "logical_type \<Rightarrow> rat \<Rightarrow> invalid_cast + int" where
  "exact_floor t q = (if type_holds t q then Inr \<lfloor>q\<rfloor> else Inl InvalidCast)"

lemma float_to_int_exact:
  assumes "fp_is_finite x"
  shows "float_to_i32 x = exact_floor TInt32 (fp_value x) \<and> float_to_i64 x = exact_floor TInt64 (fp_value x) \<and>
    float_to_u32 x = exact_floor TUInt32 (fp_value x) \<and> float_to_u64 x = exact_floor TUInt64 (fp_value x)"
proof (cases "\<exists>i. fp_value x = of_int i")
  case True
  then obtain i where i: "fp_value x = of_int i" ..
  have "(- 2147483648 \<le> (of_int i :: rat)) = (- 2147483648 \<le> i)" "((of_int i :: rat) \<le> 2147483647) = (i \<le> 2147483647)"
    "(- 9223372036854775808 \<le> (of_int i :: rat)) = (- 9223372036854775808 \<le> i)"
    "((of_int i :: rat) < 9223372036854775808) = (i < 9223372036854775808)" "(0 \<le> (of_int i :: rat)) = (0 \<le> i)"
    "((of_int i :: rat) \<le> 4294967295) = (i \<le> 4294967295)"
    "((of_int i :: rat) < 18446744073709551616) = (i < 18446744073709551616)"
    by linarith+
  with assms show ?thesis
    by (auto simp: i float_to_i32_def float_to_i64_def float_to_u32_def float_to_u64_def fp_is_integral_def
        exact_floor_def type_holds_def int_ranges)
next
  case False
  then have "of_int \<lfloor>fp_value x\<rfloor> \<noteq> fp_value x" by metis
  then show ?thesis
    by (auto simp: float_to_i32_def float_to_i64_def float_to_u32_def float_to_u64_def fp_is_integral_def
        exact_floor_def type_holds_def)
qed

lemma exact_floor_Inr: "exact_floor t q = Inr i \<longleftrightarrow> type_holds t q \<and> i = \<lfloor>q\<rfloor>"
  by (auto simp: exact_floor_def)

lemma type_holds_int:
  "type_holds TInt32 (of_int i) = in_i32 i" "type_holds TInt64 (of_int i) = in_i64 i"
  "type_holds TUInt32 (of_int i) = in_u32 i" "type_holds TUInt64 (of_int i) = in_u64 i"
  "type_holds TFloat32 (of_int i) = fp_exact binary32 i" "type_holds TFloat64 (of_int i) = fp_exact binary64 i"
  by (simp_all add: type_holds_def fp_exact_def)

lemma to_int_exact:
  assumes "numeric_ok v"
  shows "to_i32 v = exact_floor TInt32 (numeric_rat v)" "to_i64 v = exact_floor TInt64 (numeric_rat v)"
    "to_u32 v = exact_floor TUInt32 (numeric_rat v)" "to_u64 v = exact_floor TUInt64 (numeric_rat v)"
  using assms float_to_int_exact
  by (cases v; force simp: to_i32_def to_i64_def to_u32_def to_u64_def exact_floor_def type_holds_int in_range_def
      int_ranges)+

lemma to_float_exact:
  assumes "numeric_ok v"
  shows "(\<exists>x. to_f32 v = Inr x) \<longleftrightarrow> type_holds TFloat32 (numeric_rat v)"
    "(\<exists>x. to_f64 v = Inr x) \<longleftrightarrow> type_holds TFloat64 (numeric_rat v)"
    "to_f32 v = Inr x \<Longrightarrow> fp_value x = numeric_rat v \<and> fp_is_finite x \<and> fp_ok binary32 x"
    "to_f64 v = Inr x \<Longrightarrow> fp_value x = numeric_rat v \<and> fp_is_finite x \<and> fp_ok binary64 x"
proof -
  have small: "in_i64 i \<Longrightarrow> \<bar>i\<bar> < 2 ^ 64" "in_u64 i \<Longrightarrow> \<bar>i\<bar> < 2 ^ 64" "in_u64 i \<Longrightarrow> nat i = nat \<bar>i\<bar>" for i
    by (auto simp: int_ranges)
  have exact: "runtime_integer_is_exact (nat \<bar>i\<bar>) 24 = fp_exact binary32 i"
    "runtime_integer_is_exact (nat \<bar>i\<bar>) 53 = fp_exact binary64 i" if "\<bar>i\<bar> < 2 ^ 64" for i
    using integer_to_float [OF that, of binary32] integer_to_float [OF that, of binary64] by simp_all
  note int = exact [OF small(1)] exact [OF small(2)] small(3)
  show "(\<exists>x. to_f32 v = Inr x) \<longleftrightarrow> type_holds TFloat32 (numeric_rat v)"
  proof (cases v)
    case (NFloat32 x)
    with assms fp_ok_value [of x binary32] show ?thesis by (auto simp: to_f32_def type_holds_def)
  next
    case (NFloat64 x)
    with assms narrow_float [of x] show ?thesis by (auto simp: to_f32_def type_holds_def)
  qed (use assms int in \<open>auto simp: to_f32_def type_holds_int fp_of_int_fp_int\<close>)
  show "(\<exists>x. to_f64 v = Inr x) \<longleftrightarrow> type_holds TFloat64 (numeric_rat v)"
  proof (cases v)
    case (NFloat32 x)
    with assms fp_ok_value [of x binary64] show ?thesis by (auto simp: to_f64_def type_holds_def dest: fp_ok_widen)
  next
    case (NFloat64 x)
    with assms fp_ok_value [of x binary64] show ?thesis by (auto simp: to_f64_def type_holds_def)
  qed (use assms int in \<open>auto simp: to_f64_def type_holds_int fp_of_int_fp_int\<close>)
  show "to_f32 v = Inr x \<Longrightarrow> fp_value x = numeric_rat v \<and> fp_is_finite x \<and> fp_ok binary32 x"
  proof (cases v)
    case (NFloat64 y)
    assume "to_f32 v = Inr x"
    with NFloat64 assms have "fp_eq (fp_convert binary32 y) y" "x = fp_convert binary32 y" "fp_is_finite x"
      by (auto simp: to_f32_def Let_def split: if_split_asm)
    moreover from this narrow_float(2) [of y] NFloat64 assms have "x = y" by simp
    ultimately show ?thesis using fp_ok_convert [of binary32 y] NFloat64 by simp
  qed (use assms int in \<open>auto simp: to_f32_def fp_of_int_fp_int fp_ok_fp_int split: if_split_asm\<close>)
  show "to_f64 v = Inr x \<Longrightarrow> fp_value x = numeric_rat v \<and> fp_is_finite x \<and> fp_ok binary64 x"
    using assms int by (cases v) (auto simp: to_f64_def fp_of_int_fp_int fp_ok_fp_int split: if_split_asm dest: fp_ok_widen)
qed

text \<open>A numeric cast succeeds exactly when the target holds the value, and keeps it.\<close>

lemma numeric_to_scalar_exact:
  assumes "numeric_ok v" "is_numeric t"
  shows "(\<exists>s. numeric_to_scalar v t = Inr s) \<longleftrightarrow> type_holds t (numeric_rat v)"
    "numeric_to_scalar v t = Inr s \<Longrightarrow> scalar_ok t s \<and> scalar_rat s = Some (numeric_rat v)"
proof -
  have holds: "\<lfloor>q\<rfloor> = i \<Longrightarrow> type_holds t' q \<Longrightarrow> t' \<in> {TInt32, TInt64, TUInt32, TUInt64} \<Longrightarrow> of_int i = q" for t' i q
    by (auto simp: type_holds_def)
  show "(\<exists>s. numeric_to_scalar v t = Inr s) \<longleftrightarrow> type_holds t (numeric_rat v)"
    using assms(2) to_int_exact [OF assms(1)] to_float_exact [OF assms(1)]
    by (cases t) (auto simp: numeric_to_scalar_def is_numeric_def result_simps exact_floor_Inr)
  show "numeric_to_scalar v t = Inr s \<Longrightarrow> scalar_ok t s \<and> scalar_rat s = Some (numeric_rat v)"
    using assms(2) to_int_exact [OF assms(1)] to_float_exact(3,4) [OF assms(1)] holds
    by (cases t) (auto simp: numeric_to_scalar_def is_numeric_def result_simps exact_floor_Inr scalar_ok_def
        scalar_rat_def type_holds_def)
qed

lemma numeric_value_of_ok:
  assumes "scalar_ok t v" "\<not> scalar_is_null v" "is_numeric t"
  shows "\<exists>n. numeric_value_of v t = Inr n \<and> numeric_ok n \<and> scalar_rat v = Some (numeric_rat n)"
proof -
  from assms obtain l where "v = literal_scalar l" "literal_ok l" "literal_logical_type l = t" "\<not> is_null l"
    using scalar_ok_cases [OF assms(1,2)] by (auto simp: is_numeric_def)
  with assms(3) show ?thesis
    by (cases l) (auto simp: numeric_value_of_def is_numeric_def scalar_rat_def int_ranges)
qed

section \<open>Texts\<close>

lemma digit_char [simp]:
  "d < 10 \<Longrightarrow> is_digit (char_of (d + 48))" "d < 10 \<Longrightarrow> digit_value (char_of (d + 48)) = d"
  "d < 10 \<Longrightarrow> char_of (d + 48) \<noteq> CHR ''-''"
proof -
  assume "d < 10"
  then have c: "of_char (char_of (d + 48) :: char) = (d + 48 :: nat)" by (simp add: of_char_of)
  then show "is_digit (char_of (d + 48))" "digit_value (char_of (d + 48)) = d"
    using \<open>d < 10\<close> by (simp_all add: is_digit_def digit_value_def less_eq_char_def)
  show "char_of (d + 48) \<noteq> CHR ''-''"
  proof
    assume "char_of (d + 48) = CHR ''-''"
    then have "d + 48 = of_char (CHR ''-'')" using c by simp
    then show False by simp
  qed
qed

lemma nat_to_string_digits: "list_all is_digit (nat_to_string n) \<and> nat_to_string n \<noteq> [] \<and> hd (nat_to_string n) \<noteq> CHR ''-''"
proof (induction n rule: nat_to_string.induct)
  case (1 n)
  then show ?case by (simp add: nat_to_string.simps [of n])
qed

lemma decimal_value_append: "decimal_value (s @ [c]) = 10 * decimal_value s + digit_value c"
  by (simp add: decimal_value_def)

lemma decimal_value_nat_to_string [simp]: "decimal_value (nat_to_string n) = n"
proof (induction n rule: nat_to_string.induct)
  case (1 n)
  show ?case
  proof (cases "n < 10")
    case True
    then show ?thesis by (simp add: nat_to_string.simps [of n] decimal_value_def)
  next
    case False
    with 1 show ?thesis by (simp add: nat_to_string.simps [of n] decimal_value_append)
  qed
qed

lemma strip_minus_int_to_string:
  "strip_minus (int_to_string i) = (i < 0, nat_to_string (nat \<bar>i\<bar>))"
  using nat_to_string_digits [of "nat i"]
  by (cases "nat_to_string (nat i)") (auto simp: strip_minus_def int_to_string_def)

lemma valid_int_to_string: "valid_signed_decimal (int_to_string i)"
  using nat_to_string_digits [of "nat \<bar>i\<bar>"]
  by (simp add: valid_signed_decimal_def valid_unsigned_decimal_def strip_minus_int_to_string)

lemma valid_unsigned_int_to_string: "0 \<le> i \<Longrightarrow> valid_unsigned_decimal (int_to_string i)"
  using nat_to_string_digits [of "nat i"] by (simp add: valid_unsigned_decimal_def int_to_string_def)

lemma parse_int_to_string: "P i \<Longrightarrow> parse_int P (int_to_string i) = Some i"
  by (simp add: parse_int_def strip_minus_int_to_string in_range_def Let_def)

section \<open>Casts\<close>

lemma utf8_to_scalar_ok:
  assumes "engine_env_ok X" "utf8_to_scalar X v t = Inr w"
  shows "scalar_ok t w \<and> \<not> scalar_is_null w"
proof -
  obtain s where v: "v = SUtf8 (Some s)"
    using assms(2) by (auto simp: utf8_to_scalar_def split: scalar.splits option.splits)
  have num: "number_as_f64 X n = Some x \<Longrightarrow> fp_ok binary64 x" for n x
    using assms(1) by (simp add: engine_env_ok_def)
  have time: "parse_from_rfc3339 X s = Some (n, ms) \<Longrightarrow> in_i64 ms" for n ms
    using assms(1) by (auto simp: engine_env_ok_def chrono_ok_def)
  have float: "parse_json_float X s = Inr x \<Longrightarrow> fp_is_finite x \<and> fp_ok binary64 x" for x
    by (auto simp: parse_json_float_def result_simps option_filter_def split: option.split_asm if_split_asm dest: num)
  show ?thesis
    using assms(2) unfolding v
    by (cases t) (auto simp: utf8_to_scalar_def scalar_ok_def result_simps parse_int_def in_range_def Let_def
        event_id.dec_iff split: if_split_asm prod.split_asm dest: float time)
qed

lemma scalar_to_utf8_total:
  assumes "scalar_ok t v" "\<not> scalar_is_null v" "t \<notin> {TFloat32, TFloat64, TDatetime, TJson}"
  shows "\<exists>s. scalar_to_utf8 X v t = Inr s"
proof -
  from assms obtain l where "v = literal_scalar l" "literal_ok l" "literal_logical_type l = t" "\<not> is_null l"
    using scalar_ok_cases [OF assms(1,2)] by auto
  with assms(3) show ?thesis
    by (cases l) (auto simp: scalar_to_utf8_def event_id_ok_def)
qed

lemma convert_non_json_ok:
  assumes "engine_env_ok X" "scalar_ok s v" "\<not> scalar_is_null v" "convert_non_json X v s t = Inr w"
  shows "scalar_ok t w \<and> \<not> scalar_is_null w"
proof (cases "s = t \<or> t = TJson \<or> t = TUtf8 \<or> s = TUtf8")
  case True
  then consider "s = t" | "s \<noteq> t" "t = TJson" | "s \<noteq> t" "t = TUtf8" | "s \<noteq> t" "t \<noteq> TJson" "t \<noteq> TUtf8" "s = TUtf8"
    by blast
  then show ?thesis
  proof cases
    case 1
    with assms show ?thesis by (simp add: convert_non_json_def)
  next
    case 2
    with assms(4) obtain u where "w = SUtf8 (Some u)" by (auto simp: convert_non_json_def result_simps)
    with 2 show ?thesis by (simp add: scalar_ok_def)
  next
    case 3
    with assms(4) obtain u where "w = SUtf8 (Some u)" by (auto simp: convert_non_json_def result_simps)
    with 3 show ?thesis by (simp add: scalar_ok_def)
  next
    case 4
    with assms(4) have "utf8_to_scalar X v t = Inr w" by (simp add: convert_non_json_def)
    with assms(1) show ?thesis by (rule utf8_to_scalar_ok)
  qed
next
  case False
  with assms(4) obtain n where num: "is_numeric s" "is_numeric t" "numeric_value_of v s = Inr n"
    "numeric_to_scalar n t = Inr w"
    by (auto simp: convert_non_json_def result_simps split: if_split_asm)
  with numeric_value_of_ok [OF assms(2,3)] have "numeric_ok n" by auto
  from numeric_to_scalar_exact(2) [OF this num(2,4)] show ?thesis by (cases w) (auto simp: scalar_rat_def)
qed

lemma convert_json_ok:
  assumes "engine_env_ok X" "convert_json X v t = Inr w"
  shows "scalar_ok t w"
proof -
  obtain s j where v: "v = SUtf8 (Some s)" and j: "json_from_str X s = Some j"
    using assms(2) by (auto simp: convert_json_def result_simps split: scalar.splits option.splits)
  have num: "json_number X n = Inr m \<Longrightarrow> numeric_ok m" for n m
    using assms(1) by (auto simp: json_number_def engine_env_ok_def result_simps option_filter_def
        split: option.split_asm if_split_asm)
  show ?thesis
  proof (cases "t = TJson")
    case True
    with assms(2) v j have "w = SUtf8 (Some s)" by (simp add: convert_json_def)
    with True show ?thesis by (simp add: scalar_ok_def)
  next
    case False
    with assms(2) v j have "(case j of JNull \<Rightarrow> w = null_scalar t
        | JBool b \<Rightarrow> convert_non_json X (SBoolean (Some b)) TBool t = Inr w
        | JString b \<Rightarrow> convert_non_json X (SUtf8 (Some b)) TUtf8 t = Inr w
        | JNumber n \<Rightarrow> is_numeric t \<and> (\<exists>m. json_number X n = Inr m \<and> numeric_to_scalar m t = Inr w)
        | _ \<Rightarrow> False)"
      by (auto simp: convert_json_def result_simps split: json.split_asm if_split_asm)
    moreover have "scalar_ok TBool (SBoolean (Some b))" "scalar_ok TUtf8 (SUtf8 (Some u))" for b u
      by (simp_all add: scalar_ok_def)
    note scalars = convert_non_json_ok [OF assms(1) this(1)] convert_non_json_ok [OF assms(1) this(2)]
    ultimately show ?thesis
      by (cases j) (auto dest: scalars numeric_to_scalar_exact(2) [OF num])
  qed
qed

lemma cast_value_ok:
  assumes "engine_env_ok X" "scalar_ok s v"
  shows "cast_value X b s t v = Inr w \<Longrightarrow> scalar_ok t w \<and>
      (scalar_is_null w \<longrightarrow> scalar_is_null v \<or> b = NullResult \<or> s = TJson)"
    "cast_value X b s t v = Inl f \<Longrightarrow> f = CastFailure \<and> b = Abort \<and> \<not> scalar_is_null v"
proof -
  have conv: "convert_scalar X v s t = Inr w \<Longrightarrow> scalar_ok t w \<and>
      (scalar_is_null w \<longrightarrow> scalar_is_null v \<or> s = TJson)" for w
    using convert_non_json_ok [OF assms] convert_json_ok [OF assms(1)]
    by (auto simp: convert_scalar_def split: if_split_asm)
  show "cast_value X b s t v = Inr w \<Longrightarrow> scalar_ok t w \<and>
      (scalar_is_null w \<longrightarrow> scalar_is_null v \<or> b = NullResult \<or> s = TJson)"
    using conv by (auto simp: cast_value_def split: sum.split_asm invalid_cast.split_asm if_split_asm)
  show "cast_value X b s t v = Inl f \<Longrightarrow> f = CastFailure \<and> b = Abort \<and> \<not> scalar_is_null v"
    by (cases b) (auto simp: cast_value_def convert_scalar_def split: sum.split_asm invalid_cast.split_asm if_split_asm)
qed

text \<open>A lossless cast cannot fail, and computes what widening a literal computes.\<close>

lemma can_widen_numeric: "can_widen s t \<Longrightarrow> s \<noteq> t \<Longrightarrow> is_numeric s \<and> is_numeric t"
  by (cases s; cases t) (simp_all add: is_numeric_def)

lemma type_holds_widen:
  assumes "can_widen s t" "type_holds s q"
  shows "type_holds t q"
proof -
  have i32: "in_i32 i \<Longrightarrow> fp_exact binary64 i" and u32: "in_u32 i \<Longrightarrow> fp_exact binary64 i" for i
    by (intro fp_exact_small; force simp: int_ranges)+
  have "q = 0 \<or> representable binary64 q" if "q = of_int \<lfloor>q\<rfloor>" "fp_exact binary64 \<lfloor>q\<rfloor>"
    using that by (metis fp_exact_def of_int_0)
  with assms i32 u32 show ?thesis
    by (cases s; cases t) (auto simp: type_holds_def int_ranges binary32_binary64)
qed

lemma scalar_ok_holds: "scalar_ok t v \<Longrightarrow> scalar_rat v = Some q \<Longrightarrow> type_holds t q"
  by (cases t; cases v)
    (auto simp: scalar_ok_def scalar_rat_def type_holds_def dest: fp_ok_value)

lemma lossless_cast_total:
  assumes "scalar_ok s v" "can_widen s t" "s \<noteq> t"
  shows "\<exists>w. cast_value X Abort s t v = Inr w \<and> scalar_ok t w \<and> scalar_rat w = scalar_rat v \<and>
    scalar_is_null w = scalar_is_null v"
proof -
  note num = can_widen_numeric [OF assms(2,3)]
  then have cases: "s \<notin> {TJson, TUtf8}" "t \<notin> {TJson, TUtf8}" by (auto simp: is_numeric_def)
  show ?thesis
  proof (cases "scalar_is_null v")
    case True
    then have "scalar_rat v = None" by (cases v) (auto simp: scalar_rat_def)
    moreover have "scalar_rat (null_scalar t) = None" by (cases t) (auto simp: scalar_rat_def)
    ultimately show ?thesis using True by (simp add: cast_value_def convert_scalar_def)
  next
    case False
    from numeric_value_of_ok [OF assms(1) False] num obtain n where
      n: "numeric_value_of v s = Inr n" "numeric_ok n" "scalar_rat v = Some (numeric_rat n)" by auto
    have "type_holds t (numeric_rat n)" using type_holds_widen [OF assms(2)] scalar_ok_holds [OF assms(1) n(3)] .
    with numeric_to_scalar_exact [OF n(2)] num obtain w where w: "numeric_to_scalar n t = Inr w" "scalar_ok t w"
      "scalar_rat w = Some (numeric_rat n)" by blast
    then have "\<not> scalar_is_null w" by (cases w) (auto simp: scalar_rat_def)
    with False cases num n w assms(3) show ?thesis
      by (simp add: cast_value_def convert_scalar_def convert_non_json_def)
  qed
qed

end
