(* ===== verification/Engine_Lowering.thy ===== *)
theory Engine_Lowering
  imports Engine_Cast Error_Code
begin

text \<open>
  Errors of the engine (\<open>elucid-engine/src/error.rs\<close>) and the lowering of pipelines to plans of
  DataFusion (\<open>elucid-engine/src/pipeline.rs\<close>). The plans are datatypes with the constructors that
  the code uses. What DataFusion computes for an expression is the parameter \<open>evaluate\<close>; the laws
  that the engine relies on are \<open>datafusion_ok\<close>.
\<close>

section \<open>Errors\<close>

datatype (plugins only: size code) engine_error_kind =
    EkPublishedObjectMissing | EkPublishedObjectCorrupt | EkCatalogCorrupt | EkQueryCastFailed
  | EkQueryEvaluationFailed | EkQueryResourceLimitExceeded | EkQueryTimeout | EkQueryCancelled
  | EkQueryExecutionFailed

primrec engine_error_code :: "engine_error_kind \<Rightarrow> error_code" where
  "engine_error_code EkPublishedObjectMissing = CodePublishedObjectMissing"
| "engine_error_code EkPublishedObjectCorrupt = CodePublishedObjectCorrupt"
| "engine_error_code EkCatalogCorrupt = CodeCatalogCorrupt"
| "engine_error_code EkQueryCastFailed = CodeQueryCastFailed"
| "engine_error_code EkQueryEvaluationFailed = CodeQueryEvaluationFailed"
| "engine_error_code EkQueryResourceLimitExceeded = CodeQueryResourceLimitExceeded"
| "engine_error_code EkQueryTimeout = CodeQueryTimeout"
| "engine_error_code EkQueryCancelled = CodeQueryCancelled"
| "engine_error_code EkQueryExecutionFailed = CodeQueryExecutionFailed"

datatype query_resource_limit_exceeded =
    SelectedSegments nat | ScanBytes nat | ExecutionResources | EncodedRowBytes nat

datatype engine_error_source =
    SourceStorage | SourceParquet | SourceJson | SourceDataFusion
  | SourceResourceLimit query_resource_limit_exceeded | SourceInvariant string

record engine_error =
  ee_kind :: engine_error_kind
  ee_source :: engine_error_source

definition resource_limit_exceeded :: "engine_error \<Rightarrow> query_resource_limit_exceeded option" where
  "resource_limit_exceeded e = (case ee_source e of
       SourceResourceLimit source \<Rightarrow> Some source
     | SourceDataFusion \<Rightarrow> if ee_kind e = EkQueryResourceLimitExceeded then Some ExecutionResources else None
     | _ \<Rightarrow> None)"

definition engine_invariant :: "engine_error_kind \<Rightarrow> string \<Rightarrow> engine_error" where
  "engine_invariant kind message = \<lparr>ee_kind = kind, ee_source = SourceInvariant message\<rparr>"

definition missing_object :: engine_error where
  "missing_object = engine_invariant EkPublishedObjectMissing ''a selected published object is absent''"

definition corrupt_object :: "engine_error_source \<Rightarrow> engine_error" where
  "corrupt_object source = \<lparr>ee_kind = EkPublishedObjectCorrupt, ee_source = source\<rparr>"

definition corrupt_object_invariant :: "string \<Rightarrow> engine_error" where
  "corrupt_object_invariant = engine_invariant EkPublishedObjectCorrupt"

definition catalog_corrupt :: "string \<Rightarrow> engine_error" where
  "catalog_corrupt = engine_invariant EkCatalogCorrupt"

definition engine_execution :: "engine_error_source \<Rightarrow> engine_error" where
  "engine_execution source = \<lparr>ee_kind = EkQueryExecutionFailed, ee_source = source\<rparr>"

definition cast_failed :: engine_error where
  "cast_failed = \<lparr>ee_kind = EkQueryCastFailed, ee_source = SourceDataFusion\<rparr>"

definition evaluation_failed :: engine_error where
  "evaluation_failed = \<lparr>ee_kind = EkQueryEvaluationFailed, ee_source = SourceDataFusion\<rparr>"

definition evaluation_invariant :: "string \<Rightarrow> engine_error" where
  "evaluation_invariant = engine_invariant EkQueryEvaluationFailed"

definition resource_limit :: "query_resource_limit_exceeded \<Rightarrow> engine_error" where
  "resource_limit source = \<lparr>ee_kind = EkQueryResourceLimitExceeded, ee_source = SourceResourceLimit source\<rparr>"

definition resources_exhausted :: engine_error where
  "resources_exhausted = \<lparr>ee_kind = EkQueryResourceLimitExceeded, ee_source = SourceDataFusion\<rparr>"

definition engine_timeout :: engine_error where
  "engine_timeout = engine_invariant EkQueryTimeout ''query exceeded its execution timeout''"

definition engine_cancelled :: engine_error where
  "engine_cancelled = engine_invariant EkQueryCancelled ''query execution was cancelled''"

definition execution_invariant :: "string \<Rightarrow> engine_error" where
  "execution_invariant = engine_invariant EkQueryExecutionFailed"

section \<open>Scalar functions\<close>

datatype udf =
    CheckedBinaryUdf ir_binary_operator logical_type
  | CheckedNegateUdf logical_type
  | CastUdf cast_failure_behavior logical_type logical_type
  | RemainderUdf ir_remainder_function string

definition checked_binary_udf :: "ir_binary_operator \<Rightarrow> logical_type \<Rightarrow> engine_error + udf" where
  "checked_binary_udf operator t =
     (if \<not> is_numeric t then Inl (catalog_corrupt ''typed arithmetic expression is not numeric'')
      else if operator \<in> {OpAdd, OpSubtract, OpMultiply, OpDivide} then Inr (CheckedBinaryUdf operator t)
      else Inl (catalog_corrupt ''typed arithmetic expression has an invalid operator''))"

definition checked_negate_udf :: "ir_unary_operator \<Rightarrow> logical_type \<Rightarrow> engine_error + udf" where
  "checked_negate_udf operator t =
     (if operator \<noteq> OpNegate \<or> t \<notin> {TInt32, TInt64, TFloat32, TFloat64}
      then Inl (catalog_corrupt ''typed negation expression has an invalid type or operator'')
      else Inr (CheckedNegateUdf t))"

definition cast_udf :: "ir_cast_kind \<Rightarrow> logical_type \<Rightarrow> logical_type \<Rightarrow> udf" where
  "cast_udf kind source target = CastUdf (failure_behavior kind) source target"

definition remainder_udf :: "ir_remainder_function \<Rightarrow> string \<Rightarrow> udf" where
  "remainder_udf f key = RemainderUdf f key"

text \<open>The closure of a function, applied to one row.\<close>

definition call_udf :: "'x engine_env_scheme \<Rightarrow> udf \<Rightarrow> scalar list \<Rightarrow> runtime_failure_kind + scalar" where
  "call_udf X u arguments = (case (u, arguments) of
       (CheckedBinaryUdf operator t, [left, right]) \<Rightarrow> checked_binary operator t left right
     | (CheckedNegateUdf t, [value]) \<Rightarrow> checked_negate t value
     | (CastUdf behavior source target, [value]) \<Rightarrow> cast_value X behavior source target value
     | (RemainderUdf f key, [value]) \<Rightarrow> evaluate_remainder X f key value
     | _ \<Rightarrow> Inl ExecutionFailure)"

text \<open>The closure, applied to the columns of a batch.\<close>

definition udf_columns ::
  "(columnar list \<Rightarrow> scalar list list option) \<Rightarrow> 'x engine_env_scheme \<Rightarrow> udf \<Rightarrow> columnar list \<Rightarrow>
   runtime_failure_kind + columnar" where
  "udf_columns expand X u arguments = (case u of
       CheckedBinaryUdf operator t \<Rightarrow> map_binary expand (checked_binary operator t) arguments
     | CheckedNegateUdf t \<Rightarrow> map_unary (checked_negate t) arguments
     | CastUdf behavior source target \<Rightarrow> map_unary (cast_value X behavior source target) arguments
     | RemainderUdf f key \<Rightarrow> map_unary (evaluate_remainder X f key) arguments)"

section \<open>Expressions\<close>

datatype comparison = CmpEq | CmpNotEq | CmpGt | CmpGtEq | CmpLt | CmpLtEq

datatype (plugins only: size code) df_expr =
    DfLit scalar
  | DfColumn string
  | DfNot df_expr
  | DfAnd df_expr df_expr
  | DfOr df_expr df_expr
  | DfBinaryExpr df_expr comparison df_expr
  | DfIsNull df_expr
  | DfIsNotNull df_expr
  | DfCall udf "df_expr list"
  | DfAlias df_expr string

definition comparison_operator :: "ir_binary_operator \<Rightarrow> engine_error + comparison" where
  "comparison_operator operator = (case operator of
       OpEqual \<Rightarrow> Inr CmpEq
     | OpNotEqual \<Rightarrow> Inr CmpNotEq
     | OpGreaterThan \<Rightarrow> Inr CmpGt
     | OpGreaterThanOrEqual \<Rightarrow> Inr CmpGtEq
     | OpLessThan \<Rightarrow> Inr CmpLt
     | OpLessThanOrEqual \<Rightarrow> Inr CmpLtEq
     | _ \<Rightarrow> Inl (catalog_corrupt ''typed comparison expression has an invalid operator''))"

definition field_expression :: "ir_field \<Rightarrow> df_expr" where
  "field_expression f = DfColumn (if_name f)"

text \<open>\<open>lower_binary\<close> after its two calls of \<open>lower_expression\<close>.\<close>

definition lower_binary ::
  "ir_binary_operator \<Rightarrow> df_expr \<Rightarrow> df_expr \<Rightarrow> logical_type \<Rightarrow> engine_error + df_expr" where
  "lower_binary operator left right t =
     (if operator \<in> {OpAdd, OpSubtract, OpMultiply, OpDivide}
      then sbind (checked_binary_udf operator t) (\<lambda>u. Inr (DfCall u [left, right]))
      else if operator = OpAnd then Inr (DfAnd left right)
      else if operator = OpOr then Inr (DfOr left right)
      else sbind (comparison_operator operator) (\<lambda>op. Inr (DfBinaryExpr left op right)))"

fun lower_expression :: "ir_expression \<Rightarrow> engine_error + df_expr" where
  "lower_expression (IrExpression kind t n) = (case kind of
       IrLiteral literal \<Rightarrow> Inr (DfLit (literal_scalar literal))
     | IrField f \<Rightarrow> Inr (field_expression f)
     | IrUnary operator operand \<Rightarrow>
         (case operator of
            OpNot \<Rightarrow> sbind (lower_expression operand) (\<lambda>e. Inr (DfNot e))
          | OpNegate \<Rightarrow> sbind (checked_negate_udf operator t) (\<lambda>u.
              sbind (lower_expression operand) (\<lambda>e. Inr (DfCall u [e]))))
     | IrBinary operator left right \<Rightarrow>
         sbind (lower_expression left) (\<lambda>l. sbind (lower_expression right) (\<lambda>r. lower_binary operator l r t))
     | IrCast kind input target \<Rightarrow>
         sbind (lower_expression input) (\<lambda>e. Inr (DfCall (cast_udf kind (ir_logical_type input) target) [e]))
     | IrRemainder f remainder key \<Rightarrow> Inr (DfCall (remainder_udf f key) [field_expression remainder])
     | IrNullPredicate e predicate \<Rightarrow>
         sbind (lower_expression e) (\<lambda>e. Inr (case predicate of
           IsNull \<Rightarrow> DfIsNull e | IsNotNull \<Rightarrow> DfIsNotNull e)))"

section \<open>Plans\<close>

datatype count_mode = AllRows | NonNullRows

datatype sum_kind = SumSignedKind | SumUnsignedKind | SumFloatKind

datatype udaf =
    CheckedCount count_mode
  | CheckedSum sum_kind
  | CheckedAverage logical_type
  | DfMin
  | DfMax

definition checked_sum_udaf :: "logical_type \<Rightarrow> engine_error + udaf" where
  "checked_sum_udaf input_type =
     map_sum id CheckedSum (case input_type of
       TInt32 \<Rightarrow> Inr SumSignedKind
     | TInt64 \<Rightarrow> Inr SumSignedKind
     | TUInt32 \<Rightarrow> Inr SumUnsignedKind
     | TUInt64 \<Rightarrow> Inr SumUnsignedKind
     | TFloat32 \<Rightarrow> Inr SumFloatKind
     | TFloat64 \<Rightarrow> Inr SumFloatKind
     | _ \<Rightarrow> Inl (catalog_corrupt ''typed sum aggregate has a non-numeric argument''))"

definition checked_average_udaf :: "logical_type \<Rightarrow> engine_error + udaf" where
  "checked_average_udaf input_type =
     (if input_type \<in> {TInt32, TInt64, TUInt32, TUInt64, TFloat32, TFloat64} then Inr (CheckedAverage input_type)
      else Inl (catalog_corrupt ''typed average aggregate has a non-numeric argument''))"

definition lower_aggregate :: "aggregate_function \<Rightarrow> logical_type option \<Rightarrow> engine_error + udaf" where
  "lower_aggregate f argument_type = (case f of
       Count \<Rightarrow> Inr (CheckedCount (case argument_type of None \<Rightarrow> AllRows | Some _ \<Rightarrow> NonNullRows))
     | Sum \<Rightarrow> sbind (ok_or argument_type (catalog_corrupt ''typed sum aggregate has no argument'')) checked_sum_udaf
     | Average \<Rightarrow> sbind (ok_or argument_type (catalog_corrupt ''typed average aggregate has no argument''))
         checked_average_udaf
     | Min \<Rightarrow> Inr DfMin
     | Max \<Rightarrow> Inr DfMax)"

record df_aggregate =
  da_function :: udaf
  da_argument :: df_expr
  da_alias :: string

datatype plan =
    PlanScan string
  | PlanFilter plan df_expr
  | PlanProject plan "df_expr list"
  | PlanAggregate plan "df_expr list" "df_aggregate list"
  | PlanSort plan "(df_expr \<times> bool \<times> bool) list"
  | PlanLimit plan nat nat

text \<open>
  The plan builder of DataFusion: whether it accepts a plan, and the names and types of the columns
  of the plan.
\<close>

record plan_builder =
  pb_accepts :: "plan \<Rightarrow> bool"
  pb_schema :: "plan \<Rightarrow> (string \<times> arrow_data_type) list"

definition build_plan :: "plan_builder \<Rightarrow> plan \<Rightarrow> engine_error + plan" where
  "build_plan B p = (if pb_accepts B p then Inr p else Inl (engine_execution SourceDataFusion))"

definition validate_relation :: "plan_builder \<Rightarrow> plan \<Rightarrow> relation \<Rightarrow> engine_error + unit" where
  "validate_relation B p r =
     (if length (pb_schema B p) \<noteq> length r
      then Inl (catalog_corrupt ''typed relation width contradicts its DataFusion plan'')
      else if list_all2 (\<lambda>(name, t) f. name = if_name f \<and> t = logical_type_arrow_data_type (if_logical_type f))
          (pb_schema B p) r
      then Inr ()
      else Inl (catalog_corrupt ''typed relation field contradicts its DataFusion plan''))"

definition lower_projection :: "ir_projection \<Rightarrow> engine_error + df_expr" where
  "lower_projection p =
     map_sum id (\<lambda>e. DfAlias e (if_name (pj_output_field p))) (lower_expression (pj_expression p))"

definition lower_measure :: "aggregate_expression \<Rightarrow> engine_error + df_aggregate" where
  "lower_measure m =
     (let (argument_type, argument) = (case ae_argument m of
          Some f \<Rightarrow> (Some (if_logical_type f), field_expression f)
        | None \<Rightarrow> (None, DfLit (SInt64 (Some 1)))) in
      map_sum id (\<lambda>f. \<lparr>da_function = f, da_argument = argument, da_alias = if_name (ae_output_field m)\<rparr>)
        (lower_aggregate (ae_function m) argument_type))"

text \<open>A \<open>take\<close> limit is a \<open>u64\<close>, which a 64-bit \<open>usize\<close> holds.\<close>

definition lower_stage :: "plan_builder \<Rightarrow> plan \<Rightarrow> ir_stage \<Rightarrow> engine_error + plan" where
  "lower_stage B p stage = (case ig_kind stage of
       IrFilter e \<Rightarrow> sbind (lower_expression e) (\<lambda>e. build_plan B (PlanFilter p e))
     | IrProject projections \<Rightarrow>
         sbind (traverse lower_projection projections) (\<lambda>es. build_plan B (PlanProject p es))
     | IrAggregate ms group_by \<Rightarrow>
         sbind (traverse lower_measure ms) (\<lambda>aggregates.
         build_plan B (PlanAggregate p (map field_expression group_by) aggregates))
     | IrSort specifications \<Rightarrow>
         build_plan B (PlanSort p
           (map (\<lambda>s. (field_expression (ss_field s), ss_order s = Ascending, False)) specifications))
     | IrTake limit \<Rightarrow> build_plan B (PlanLimit p 0 limit))"

fun lower_stages :: "plan_builder \<Rightarrow> plan \<Rightarrow> ir_stage list \<Rightarrow> engine_error + plan" where
  "lower_stages B p [] = Inr p"
| "lower_stages B p (stage # stages) =
     sbind (lower_stage B p stage) (\<lambda>p.
     sbind (validate_relation B p (ig_output_relation stage)) (\<lambda>_.
     lower_stages B p stages))"

definition lower_pipeline :: "plan_builder \<Rightarrow> pipeline \<Rightarrow> engine_error + plan" where
  "lower_pipeline B p =
     sbind (build_plan B (PlanScan (is_name (pl_source p)))) (\<lambda>plan.
     sbind (validate_relation B plan (pl_source_relation p)) (\<lambda>_.
     sbind (lower_stages B plan (pl_stages p)) (\<lambda>plan. build_plan B plan)))"

section \<open>Evaluation\<close>

text \<open>
  What DataFusion computes for an expression over a row, as far as the engine relies on it: literals
  and columns are their values; a function is applied to the values of its arguments; comparisons
  and null tests give booleans, a comparison with null gives null; the connectives are those of
  three-valued logic, where an operand that decides the result may hide the failure of the other;
  and a failure is the failure of an operand.
\<close>

type_synonym df_result = "runtime_failure_kind + scalar"

fun kleene_and :: "bool option \<Rightarrow> bool option \<Rightarrow> bool option" where
  "kleene_and a b = (if a = Some False \<or> b = Some False then Some False
     else if a = None \<or> b = None then None else Some True)"

fun kleene_or :: "bool option \<Rightarrow> bool option \<Rightarrow> bool option" where
  "kleene_or a b = (if a = Some True \<or> b = Some True then Some True
     else if a = None \<or> b = None then None else Some False)"

text \<open>The results of a connective: \<open>f\<close> on two values, and \<open>decisive\<close> is the value that decides it.\<close>

definition connective_results ::
  "(bool option \<Rightarrow> bool option \<Rightarrow> bool option) \<Rightarrow> bool \<Rightarrow> df_result \<Rightarrow> df_result \<Rightarrow> df_result set" where
  "connective_results f decisive a b =
     {r. (\<exists>x y. a = Inr (SBoolean x) \<and> b = Inr (SBoolean y) \<and> r = Inr (SBoolean (f x y))) \<or>
         (\<exists>k. r = Inl k \<and> (a = Inl k \<or> b = Inl k)) \<or>
         r = Inr (SBoolean (Some decisive)) \<and> (a = r \<or> b = r)}"

type_synonym df_evaluator = "df_expr \<Rightarrow> (string \<Rightarrow> scalar) \<Rightarrow> df_result"

definition evaluates_values :: "df_evaluator \<Rightarrow> bool" where
  "evaluates_values evaluate \<longleftrightarrow> (\<forall>row v n e.
     evaluate (DfLit v) row = Inr v \<and> evaluate (DfColumn n) row = Inr (row n) \<and>
     evaluate (DfIsNull e) row = map_sum id (\<lambda>v. SBoolean (Some (scalar_is_null v))) (evaluate e row) \<and>
     evaluate (DfIsNotNull e) row = map_sum id (\<lambda>v. SBoolean (Some (\<not> scalar_is_null v))) (evaluate e row))"

definition evaluates_calls :: "'x engine_env_scheme \<Rightarrow> df_evaluator \<Rightarrow> bool" where
  "evaluates_calls X evaluate \<longleftrightarrow> (\<forall>row u a b.
     evaluate (DfCall u [a]) row = sbind (evaluate a row) (\<lambda>v. call_udf X u [v]) \<and>
     (evaluate (DfCall u [a, b]) row =
        sbind (evaluate a row) (\<lambda>x. sbind (evaluate b row) (\<lambda>y. call_udf X u [x, y])) \<or>
      (\<exists>k. evaluate b row = Inl k \<and> evaluate (DfCall u [a, b]) row = Inl k)))"

definition evaluates_not :: "df_evaluator \<Rightarrow> bool" where
  "evaluates_not evaluate \<longleftrightarrow> (\<forall>row e x k.
     (evaluate e row = Inr (SBoolean x) \<longrightarrow> evaluate (DfNot e) row = Inr (SBoolean (map_option Not x))) \<and>
     (evaluate e row = Inl k \<longrightarrow> evaluate (DfNot e) row = Inl k))"

definition boolean_result :: "df_result \<Rightarrow> bool" where
  "boolean_result r = (case r of Inr v \<Rightarrow> scalar_ok TBool v | Inl _ \<Rightarrow> True)"

definition evaluates_connectives :: "df_evaluator \<Rightarrow> bool" where
  "evaluates_connectives evaluate \<longleftrightarrow> (\<forall>row a b.
     boolean_result (evaluate a row) \<longrightarrow> boolean_result (evaluate b row) \<longrightarrow>
     evaluate (DfAnd a b) row \<in> connective_results kleene_and False (evaluate a row) (evaluate b row) \<and>
     evaluate (DfOr a b) row \<in> connective_results kleene_or True (evaluate a row) (evaluate b row))"

definition evaluates_comparisons :: "df_evaluator \<Rightarrow> bool" where
  "evaluates_comparisons evaluate \<longleftrightarrow> (\<forall>row a b op.
     (\<forall>t x y. t \<noteq> TJson \<longrightarrow> evaluate a row = Inr x \<longrightarrow> evaluate b row = Inr y \<longrightarrow>
        scalar_ok t x \<longrightarrow> scalar_ok t y \<longrightarrow>
        (\<exists>z. evaluate (DfBinaryExpr a op b) row = Inr (SBoolean z) \<and>
           (z = None \<longleftrightarrow> scalar_is_null x \<or> scalar_is_null y))) \<and>
     ((\<exists>k. evaluate a row = Inl k) \<or> (\<exists>k. evaluate b row = Inl k) \<longrightarrow>
        (\<exists>k. evaluate (DfBinaryExpr a op b) row = Inl k \<and> (evaluate a row = Inl k \<or> evaluate b row = Inl k))))"

definition datafusion_ok :: "'x engine_env_scheme \<Rightarrow> df_evaluator \<Rightarrow> bool" where
  "datafusion_ok X evaluate \<longleftrightarrow> evaluates_values evaluate \<and> evaluates_calls X evaluate \<and>
     evaluates_not evaluate \<and> evaluates_connectives evaluate \<and> evaluates_comparisons evaluate"

end
