(* ===== verification/Engine_Safety.thy ===== *)
theory Engine_Safety
  imports Engine_Lowering
begin

text \<open>
  Evaluation is safe: an expression that the analysis produced is lowered, and over every row of
  its relation it evaluates to a value of its type or fails as a cast or an evaluation, never with
  a broken invariant.
\<close>

section \<open>Rows\<close>

definition remainder_ok :: "'x engine_env_scheme \<Rightarrow> scalar \<Rightarrow> bool" where
  "remainder_ok X v \<longleftrightarrow> v = SUtf8 None \<or>
     (\<exists>s members. v = SUtf8 (Some s) \<and> json_from_str X s = Some (JObject members) \<and>
        (\<forall>(k, j) \<in> set members. json_to_string X j \<noteq> None))"

definition row_ok :: "'x engine_env_scheme \<Rightarrow> relation \<Rightarrow> (string \<Rightarrow> scalar) \<Rightarrow> bool" where
  "row_ok X r row \<longleftrightarrow>
     (\<forall>f \<in> set r. scalar_ok (if_logical_type f) (row (if_name f)) \<and>
        (if_nullability f = NonNull \<longrightarrow> \<not> scalar_is_null (row (if_name f)))) \<and>
     (relation_field r ''@rest'' \<noteq> None \<longrightarrow> remainder_ok X (row ''@rest''))"

text \<open>A result for an expression: a value of its type, null only where it may be, or a failure of the query.\<close>

definition result_ok :: "logical_type \<Rightarrow> nullability \<Rightarrow> df_result \<Rightarrow> bool" where
  "result_ok t n r = (case r of
       Inr v \<Rightarrow> scalar_ok t v \<and> (n = NonNull \<longrightarrow> \<not> scalar_is_null v)
     | Inl k \<Rightarrow> k \<noteq> ExecutionFailure)"

lemma result_ok_simps [simp]:
  "result_ok t n (Inr v) = (scalar_ok t v \<and> (n = NonNull \<longrightarrow> \<not> scalar_is_null v))"
  "result_ok t n (Inl k) = (k \<noteq> ExecutionFailure)"
  by (simp_all add: result_ok_def)

lemma result_ok_bind:
  "result_ok t n r \<Longrightarrow> (\<And>v. r = Inr v \<Longrightarrow> result_ok t n (Inr v) \<Longrightarrow> result_ok t' n' (f v)) \<Longrightarrow> result_ok t' n' (sbind r f)"
  by (cases r) simp_all

section \<open>Functions\<close>

lemma checked_binary_ok:
  assumes "arithmetic_op op" "is_numeric t" "scalar_ok t x" "scalar_ok t y"
  shows "result_ok t n (checked_binary op t x y) \<or> n = NonNull \<and> (scalar_is_null x \<or> scalar_is_null y)"
proof (cases "scalar_is_null x \<or> scalar_is_null y")
  case True
  then show ?thesis by (cases n) (auto simp: checked_binary_def)
next
  case False
  have op: "op \<in> {OpAdd, OpSubtract, OpMultiply, OpDivide}" using assms(1) by (simp add: arithmetic_op_def)
  have int: "(\<exists>z. checked_integer P v op a b = Inr (v (Some z)) \<and> P z) \<or> checked_integer P v op a b = Inl EvaluationFailure" for P v a b
  proof -
    let ?o = "case op of OpAdd \<Rightarrow> checked_int_add P a b | OpSubtract \<Rightarrow> checked_sub P a b
      | OpMultiply \<Rightarrow> checked_mul P a b | OpDivide \<Rightarrow> checked_div P a b | _ \<Rightarrow> None"
    have "?o = Some z \<Longrightarrow> P z" for z
      using op by (auto simp: checked_int_add_def checked_sub_def checked_mul_def checked_div_def in_range_def split: if_split_asm)
    then show ?thesis by (cases ?o) (auto simp: checked_integer_def)
  qed
  have flt: "(\<exists>z. checked_float F v op a b = Inr (v (Some z)) \<and> fp_is_finite z \<and> fp_ok F z) \<or>
      checked_float F v op a b = Inl EvaluationFailure"
    if "fp_format_ok F" "fp_ok F a" "fp_ok F b" for F v a b
  proof -
    let ?z = "case op of OpAdd \<Rightarrow> fp_add F a b | OpSubtract \<Rightarrow> fp_sub F a b | OpMultiply \<Rightarrow> fp_mul F a b | _ \<Rightarrow> fp_div F a b"
    have "fp_ok F ?z" using op that by (auto simp: fp_ok_mul fp_ok_div fp_ok_add fp_ok_sub)
    moreover have "checked_float F v op a b = (if fp_is_finite ?z then Inr (v (Some ?z)) else Inl EvaluationFailure)"
      using op by (auto simp: checked_float_def Let_def)
    ultimately show ?thesis by auto
  qed
  have ok: "result_ok t n (checked_binary op t x y)"
  proof -
    have nj: "t \<noteq> TJson" using assms(2) by (auto simp: is_numeric_def)
    from False assms(3) nj obtain l where l: "x = literal_scalar l" "literal_ok l" "literal_logical_type l = t" "\<not> is_null l"
      using scalar_ok_cases by blast
    from False assms(4) nj obtain m where m: "y = literal_scalar m" "literal_ok m" "literal_logical_type m = t" "\<not> is_null m"
      using scalar_ok_cases by blast
    consider a b where "l = LInt32 a" "m = LInt32 b" | a b where "l = LInt64 a" "m = LInt64 b"
      | a b where "l = LUInt32 a" "m = LUInt32 b" | a b where "l = LUInt64 a" "m = LUInt64 b"
      | a b where "l = LFloat32 a" "m = LFloat32 b" | a b where "l = LFloat64 a" "m = LFloat64 b"
      using assms(2) l(3,4) m(3,4) by (cases l; cases m) (auto simp: is_numeric_def)
    then show ?thesis
    proof cases
      case (1 a b)
      with int [of in_i32 SInt32 a b] l m show ?thesis by (auto simp: checked_binary_def scalar_ok_def)
    next
      case (2 a b)
      with int [of in_i64 SInt64 a b] l m show ?thesis by (auto simp: checked_binary_def scalar_ok_def)
    next
      case (3 a b)
      with int [of in_u32 SUInt32 a b] l m show ?thesis by (auto simp: checked_binary_def scalar_ok_def)
    next
      case (4 a b)
      with int [of in_u64 SUInt64 a b] l m show ?thesis by (auto simp: checked_binary_def scalar_ok_def)
    next
      case (5 a b)
      with flt [of binary32 a b SFloat32] l m show ?thesis by (auto simp: checked_binary_def scalar_ok_def)
    next
      case (6 a b)
      with flt [of binary64 a b SFloat64] l m show ?thesis by (auto simp: checked_binary_def scalar_ok_def)
    qed
  qed
  then show ?thesis ..
qed

lemma checked_negate_ok:
  assumes "t \<in> {TInt32, TInt64, TFloat32, TFloat64}" "scalar_ok t x" "n = NonNull \<longrightarrow> \<not> scalar_is_null x"
  shows "result_ok t n (checked_negate t x)"
proof (cases "scalar_is_null x")
  case True
  with assms(3) show ?thesis by (simp add: checked_negate_def)
next
  case False
  with assms(1,2) obtain l where l: "x = literal_scalar l" "literal_ok l" "literal_logical_type l = t" "\<not> is_null l"
    using scalar_ok_cases by blast
  with assms(1) show ?thesis
    by (cases l) (auto simp: checked_negate_def checked_neg_def in_range_def scalar_ok_def)
qed

lemma evaluate_remainder_ok:
  assumes "remainder_ok X v"
  shows "result_ok TJson Nullable (evaluate_remainder X RemValue key v)"
    "result_ok TBool NonNull (evaluate_remainder X RemExists key v)"
proof -
  consider "v = SUtf8 None" | s members where "v = SUtf8 (Some s)" "json_from_str X s = Some (JObject members)"
    "\<forall>(k, j) \<in> set members. json_to_string X j \<noteq> None"
    using assms by (auto simp: remainder_ok_def)
  note cases = this
  show "result_ok TJson Nullable (evaluate_remainder X RemValue key v)"
    using cases
  proof cases
    case (2 s members)
    show ?thesis
    proof (cases "map_of members key")
      case (Some j)
      then have "(key, j) \<in> set members" by (rule map_of_SomeD)
      with 2(3) obtain u where "json_to_string X j = Some u" by fastforce
      with 2 Some show ?thesis by (simp add: evaluate_remainder_def scalar_ok_def)
    qed (use 2 in \<open>simp add: evaluate_remainder_def scalar_ok_def\<close>)
  qed (simp add: evaluate_remainder_def scalar_ok_def)
  show "result_ok TBool NonNull (evaluate_remainder X RemExists key v)"
    using cases by cases (simp_all add: evaluate_remainder_def scalar_ok_def)
qed

section \<open>Operators of DataFusion\<close>

lemma datafusion_values:
  assumes "datafusion_ok X ev"
  shows "ev (DfLit v) row = Inr v" "ev (DfColumn n) row = Inr (row n)"
    "ev (DfCall u [e]) row = sbind (ev e row) (\<lambda>v. call_udf X u [v])"
    "ev (DfIsNull e) row = map_sum id (\<lambda>v. SBoolean (Some (scalar_is_null v))) (ev e row)"
    "ev (DfIsNotNull e) row = map_sum id (\<lambda>v. SBoolean (Some (\<not> scalar_is_null v))) (ev e row)"
  using assms by (simp_all add: datafusion_ok_def evaluates_values_def evaluates_calls_def)

lemma datafusion_binary:
  assumes "datafusion_ok X ev"
  shows "ev (DfCall u [a, b]) row = sbind (ev a row) (\<lambda>x. sbind (ev b row) (\<lambda>y. call_udf X u [x, y])) \<or>
     (\<exists>k. ev b row = Inl k \<and> ev (DfCall u [a, b]) row = Inl k)"
  using assms unfolding datafusion_ok_def evaluates_calls_def by blast

lemma datafusion_not:
  assumes "datafusion_ok X ev"
  shows "ev e row = Inr (SBoolean x) \<Longrightarrow> ev (DfNot e) row = Inr (SBoolean (map_option Not x))"
    "ev e row = Inl k \<Longrightarrow> ev (DfNot e) row = Inl k"
  using assms by (simp_all add: datafusion_ok_def evaluates_not_def)

lemma datafusion_connective:
  assumes "datafusion_ok X ev" "boolean_result (ev a row)" "boolean_result (ev b row)"
  shows "ev (DfAnd a b) row \<in> connective_results kleene_and False (ev a row) (ev b row)"
    "ev (DfOr a b) row \<in> connective_results kleene_or True (ev a row) (ev b row)"
  using assms by (simp_all add: datafusion_ok_def evaluates_connectives_def)

lemma datafusion_compare:
  assumes "datafusion_ok X ev"
  shows "t \<noteq> TJson \<Longrightarrow> ev a row = Inr x \<Longrightarrow> ev b row = Inr y \<Longrightarrow> scalar_ok t x \<Longrightarrow> scalar_ok t y \<Longrightarrow>
      \<exists>z. ev (DfBinaryExpr a op b) row = Inr (SBoolean z) \<and> (z = None \<longleftrightarrow> scalar_is_null x \<or> scalar_is_null y)"
    "(\<exists>k. ev a row = Inl k) \<or> (\<exists>k. ev b row = Inl k) \<Longrightarrow>
      \<exists>k. ev (DfBinaryExpr a op b) row = Inl k \<and> (ev a row = Inl k \<or> ev b row = Inl k)"
  using assms unfolding datafusion_ok_def evaluates_comparisons_def by blast+

lemma scalar_ok_bool: "scalar_ok TBool v \<longleftrightarrow> (\<exists>x. v = SBoolean x)"
  by (cases v) (simp_all add: scalar_ok_def)

lemma result_ok_bool:
  "result_ok TBool n r \<longleftrightarrow> (\<exists>x. r = Inr (SBoolean x) \<and> (n = NonNull \<longrightarrow> x \<noteq> None)) \<or> (\<exists>k. r = Inl k \<and> k \<noteq> ExecutionFailure)"
  by (cases r) (auto simp: scalar_ok_bool)

lemma not_result_ok: "datafusion_ok X ev \<Longrightarrow> result_ok TBool n (ev e row) \<Longrightarrow> result_ok TBool n (ev (DfNot e) row)"
  by (auto simp: result_ok_bool [of n "ev e row"] datafusion_not scalar_ok_bool)

lemma connective_result_ok:
  assumes "result_ok TBool n a" "result_ok TBool m b" "r \<in> connective_results f d a b"
    "\<And>x y. f (Some x) (Some y) \<noteq> None"
  shows "result_ok TBool (combine_nullability n m) r"
  using assms(1-3) assms(4) unfolding connective_results_def result_ok_bool combine_nullability_def
  by (cases n; cases m) auto

lemma kleene_Some: "kleene_and (Some x) (Some y) \<noteq> None" "kleene_or (Some x) (Some y) \<noteq> None"
  by auto

lemma compare_result_ok:
  assumes "datafusion_ok X ev" "result_ok t n (ev a row)" "result_ok t m (ev b row)" "t \<noteq> TJson"
  shows "result_ok TBool (combine_nullability n m) (ev (DfBinaryExpr a op b) row)"
proof (cases "(\<exists>k. ev a row = Inl k) \<or> (\<exists>k. ev b row = Inl k)")
  case True
  from datafusion_compare(2) [OF assms(1) this, of op] assms(2,3) show ?thesis by auto
next
  case False
  then obtain x y where xy: "ev a row = Inr x" "ev b row = Inr y" by (cases "ev a row"; cases "ev b row") auto
  with assms(2,3) datafusion_compare(1) [OF assms(1,4) xy, of op] show ?thesis
    by (cases n; cases m) (auto simp: scalar_ok_bool combine_nullability_def)
qed

section \<open>Expressions\<close>

lemma lower_binary_ok:
  assumes "datafusion_ok X ev" "binary_typed op s t" "result_ok s n (ev a row)" "result_ok s m (ev b row)"
  shows "\<exists>p. lower_binary op a b t = Inr p \<and> result_ok t (combine_nullability n m) (ev p row)"
proof -
  consider (arith) "arithmetic_op op" "is_numeric s" "t = s" | (logic) "logical_op op" "s = TBool" "t = TBool"
    | (cmp) "\<not> arithmetic_op op" "\<not> logical_op op" "t = TBool" "s \<noteq> TJson"
    using assms(2) by (auto simp: binary_typed_def is_numeric_def split: if_split_asm)
  then show ?thesis
  proof cases
    case arith
    then have op: "op \<in> {OpAdd, OpSubtract, OpMultiply, OpDivide}" by (simp add: arithmetic_op_def)
    let ?p = "DfCall (CheckedBinaryUdf op s) [a, b]"
    have "lower_binary op a b t = Inr ?p"
      using op arith by (auto simp: lower_binary_def checked_binary_udf_def)
    moreover have "result_ok s (combine_nullability n m) (checked_binary op s x y)"
      if "scalar_ok s x" "scalar_ok s y" "n = NonNull \<longrightarrow> \<not> scalar_is_null x" "m = NonNull \<longrightarrow> \<not> scalar_is_null y" for x y
      using checked_binary_ok [OF arith(1,2) that(1,2), of "combine_nullability n m"] that(3,4)
      by (cases n; cases m) (auto simp: combine_nullability_def)
    then have "result_ok s (combine_nullability n m)
        (sbind (ev a row) (\<lambda>x. sbind (ev b row) (\<lambda>y. call_udf X (CheckedBinaryUdf op s) [x, y])))"
      using assms(3,4) by (auto simp: call_udf_def intro!: result_ok_bind)
    then have "result_ok s (combine_nullability n m) (ev ?p row)"
      using datafusion_binary [OF assms(1), of "CheckedBinaryUdf op s" a b row] assms(4) by auto
    ultimately show ?thesis using arith(3) by blast
  next
    case logic
    have ab: "boolean_result (ev a row)" "boolean_result (ev b row)"
      using assms(3,4) logic(2) by (cases "ev a row"; cases "ev b row"; simp add: boolean_result_def)+
    have "result_ok TBool (combine_nullability n m) (ev (DfAnd a b) row)"
      "result_ok TBool (combine_nullability n m) (ev (DfOr a b) row)"
      using connective_result_ok [OF _ _ datafusion_connective(1) [OF assms(1) ab] kleene_Some(1), of n m]
        connective_result_ok [OF _ _ datafusion_connective(2) [OF assms(1) ab] kleene_Some(2), of n m] assms(3,4) logic(2) by simp_all
    with logic show ?thesis by (auto simp: lower_binary_def logical_op_def)
  next
    case cmp
    obtain c where "lower_binary op a b t = Inr (DfBinaryExpr a c b)"
      using cmp(1,2) by (cases op) (auto simp: lower_binary_def comparison_operator_def arithmetic_op_def logical_op_def)
    with compare_result_ok [OF assms(1,3,4) cmp(4)] cmp(3) show ?thesis by auto
  qed
qed

lemma lowered_expression_ok:
  assumes "datafusion_ok X ev" "engine_env_ok X" "row_ok X r row"
  shows "ir_ok r e \<Longrightarrow> \<exists>p. lower_expression e = Inr p \<and> result_ok (ir_logical_type e) (ir_nullability e) (ev p row)"
proof (induction "size e" arbitrary: e rule: less_induct)
  case less
  obtain kind t n where e: "e = IrExpression kind t n" by (cases e)
  note vals = datafusion_values [OF assms(1)]
  show ?case
  proof (cases kind)
    case (IrLiteral l)
    have "literal_nullability l = NonNull \<longrightarrow> \<not> is_null l" by (cases l) simp_all
    with IrLiteral less.prems e show ?thesis by (auto simp: vals literal_scalar_ok)
  next
    case (IrField f)
    with less.prems e assms(3) show ?thesis by (simp add: field_expression_def vals row_ok_def)
  next
    case (IrUnary op a)
    then have "size a < size e" "ir_ok r a" using less.prems e by simp_all
    with less.hyps obtain p where p: "lower_expression a = Inr p"
      "result_ok (ir_logical_type a) (ir_nullability a) (ev p row)" by blast
    show ?thesis
    proof (cases op)
      case OpNot
      with IrUnary less.prems e have "ir_logical_type a = TBool" "t = TBool" "ir_nullability a = n" by auto
      with OpNot IrUnary e p not_result_ok [OF assms(1), of n p row] show ?thesis by simp
    next
      case OpNegate
      with IrUnary less.prems e have t: "t \<in> {TInt32, TInt64, TFloat32, TFloat64}" "ir_logical_type a = t" "ir_nullability a = n"
        by auto
      then have "result_ok t n (ev (DfCall (CheckedNegateUdf t) [p]) row)"
        using p(2) checked_negate_ok [OF t(1)] by (auto simp: vals call_udf_def intro!: result_ok_bind)
      with OpNegate IrUnary e p t show ?thesis by (auto simp: checked_negate_udf_def)
    qed
  next
    case (IrBinary op a b)
    with less.prems e have typed: "ir_ok r a" "ir_ok r b" "ir_logical_type a = ir_logical_type b"
      "binary_typed op (ir_logical_type a) t" "n = combine_nullability (ir_nullability a) (ir_nullability b)" by auto
    have "size a < size e" "size b < size e" using IrBinary e by simp_all
    with less.hyps typed obtain p q where pq: "lower_expression a = Inr p" "lower_expression b = Inr q"
      "result_ok (ir_logical_type a) (ir_nullability a) (ev p row)"
      "result_ok (ir_logical_type a) (ir_nullability b) (ev q row)" by metis
    from lower_binary_ok [OF assms(1) typed(4) pq(3,4)] IrBinary e pq typed(5) show ?thesis by auto
  next
    case (IrCast k a t')
    with less.prems e have typed: "ir_ok r a" "t' = t" "n = cast_nullability k a"
      "k = Lossless \<Longrightarrow> can_widen (ir_logical_type a) t \<and> ir_logical_type a \<noteq> t" by (auto split: if_split_asm)
    have "size a < size e" using IrCast e by simp
    with less.hyps typed(1) obtain p where p: "lower_expression a = Inr p"
      "result_ok (ir_logical_type a) (ir_nullability a) (ev p row)" by blast
    let ?s = "ir_logical_type a"
    have "result_ok t n (cast_value X (failure_behavior k) ?s t v)"
      if v: "scalar_ok ?s v" "ir_nullability a = NonNull \<longrightarrow> \<not> scalar_is_null v" for v
    proof (cases "k = Lossless")
      case True
      with lossless_cast_total [OF v(1), of t X] typed(3,4) v(2) show ?thesis by (auto simp: cast_nullability_def)
    next
      case False
      with cast_value_ok [OF assms(2) v(1), of "failure_behavior k" t] typed(3) v(2) show ?thesis
        by (cases k; cases "cast_value X (failure_behavior k) ?s t v") (auto simp: cast_nullability_def split: if_split_asm)
    qed
    then have "result_ok t n (ev (DfCall (cast_udf k ?s t) [p]) row)"
      using p(2) by (auto simp: vals call_udf_def cast_udf_def intro!: result_ok_bind)
    with IrCast e p(1) typed(2) show ?thesis by simp
  next
    case (IrRemainder g f key)
    with less.prems e have f: "relation_field r ''@rest'' = Some f"
      "case g of RemValue \<Rightarrow> t = TJson \<and> n = Nullable | RemExists \<Rightarrow> t = TBool \<and> n = NonNull" by auto
    then have "if_name f = ''@rest''" "remainder_ok X (row ''@rest'')"
      using relation_field_in [OF f(1)] assms(3) by (simp_all add: row_ok_def)
    with evaluate_remainder_ok f(2) IrRemainder e show ?thesis
      by (cases g) (auto simp: field_expression_def remainder_udf_def vals call_udf_def)
  next
    case (IrNullPredicate a p)
    then have "size a < size e" "ir_ok r a" using less.prems e by simp_all
    with less.hyps obtain q where "lower_expression a = Inr q"
      "result_ok (ir_logical_type a) (ir_nullability a) (ev q row)" by blast
    with IrNullPredicate e less.prems show ?thesis
      by (cases p; cases "ev q row") (auto simp: vals scalar_ok_bool)
  qed
qed

end
