(* ===== verification/Engine_Aggregate.thy ===== *)
theory Engine_Aggregate
  imports Engine_Safety
begin

text \<open>
  The accumulators of \<open>elucid-engine/src/aggregate.rs\<close>. A batch is the list of the values of a
  column. DataFusion folds the batches of each partition into an accumulator of its own, takes its
  state, and merges the states into a final accumulator.
\<close>

section \<open>Counting\<close>

record checked_count_accumulator =
  cc_mode :: count_mode
  cc_count :: int

definition count_new :: "count_mode \<Rightarrow> checked_count_accumulator" where
  "count_new mode = \<lparr>cc_mode = mode, cc_count = 0\<rparr>"

definition count_update_batch ::
  "checked_count_accumulator \<Rightarrow> scalar list \<Rightarrow> runtime_failure_kind + checked_count_accumulator" where
  "count_update_batch a values =
     (let increment = (case cc_mode a of
          AllRows \<Rightarrow> length values
        | NonNullRows \<Rightarrow> length values - length (filter scalar_is_null values)) in
      sbind (ok_or (in_range in_i64 (int increment)) EvaluationFailure) (\<lambda>increment.
      sbind (ok_or (checked_int_add in_i64 (cc_count a) increment) EvaluationFailure) (\<lambda>count.
      Inr (a\<lparr>cc_count := count\<rparr>))))"

definition count_evaluate :: "checked_count_accumulator \<Rightarrow> scalar" where
  "count_evaluate a = SInt64 (Some (cc_count a))"

definition count_state :: "checked_count_accumulator \<Rightarrow> scalar" where
  "count_state a = SInt64 (Some (cc_count a))"

fun count_merge_batch ::
  "checked_count_accumulator \<Rightarrow> scalar list \<Rightarrow> runtime_failure_kind + checked_count_accumulator" where
  "count_merge_batch a [] = Inr a"
| "count_merge_batch a (s # states) = (case s of
       SInt64 (Some count) \<Rightarrow>
         if count \<ge> 0
         then sbind (ok_or (checked_int_add in_i64 (cc_count a) count) EvaluationFailure) (\<lambda>count.
           count_merge_batch (a\<lparr>cc_count := count\<rparr>) states)
         else Inl ExecutionFailure
     | _ \<Rightarrow> Inl ExecutionFailure)"

section \<open>Sums\<close>

datatype sum_state = SumSigned "int option" | SumUnsigned "int option" | SumFloat "fp option"

primrec sum_new :: "sum_kind \<Rightarrow> sum_state" where
  "sum_new SumSignedKind = SumSigned None"
| "sum_new SumUnsignedKind = SumUnsigned None"
| "sum_new SumFloatKind = SumFloat None"

text \<open>\<open>add_signed\<close> and \<open>add_unsigned\<close>, which differ in the integer type only.\<close>

definition add_integer :: "(int \<Rightarrow> bool) \<Rightarrow> int option \<Rightarrow> int \<Rightarrow> runtime_failure_kind + int option" where
  "add_integer P state value = map_sum id Some (case state of
       Some current \<Rightarrow> ok_or (checked_int_add P current value) EvaluationFailure
     | None \<Rightarrow> Inr value)"

definition add_float :: "fp option \<Rightarrow> fp \<Rightarrow> runtime_failure_kind + fp option" where
  "add_float state value =
     (let subtotal = (case state of None \<Rightarrow> value | Some current \<Rightarrow> fp_add binary64 current value) in
      if \<not> fp_is_finite subtotal then Inl EvaluationFailure else Inr (Some subtotal))"

definition sum_add_input :: "sum_state \<Rightarrow> scalar \<Rightarrow> runtime_failure_kind + sum_state" where
  "sum_add_input state value =
     (if scalar_is_null value then Inr state
      else case (state, value) of
        (SumSigned subtotal, SInt32 (Some v)) \<Rightarrow> map_sum id SumSigned (add_integer in_i64 subtotal v)
      | (SumSigned subtotal, SInt64 (Some v)) \<Rightarrow> map_sum id SumSigned (add_integer in_i64 subtotal v)
      | (SumUnsigned subtotal, SUInt32 (Some v)) \<Rightarrow> map_sum id SumUnsigned (add_integer in_u64 subtotal v)
      | (SumUnsigned subtotal, SUInt64 (Some v)) \<Rightarrow> map_sum id SumUnsigned (add_integer in_u64 subtotal v)
      | (SumFloat subtotal, SFloat32 (Some v)) \<Rightarrow>
          if fp_is_finite v then map_sum id SumFloat (add_float subtotal v) else Inl ExecutionFailure
      | (SumFloat subtotal, SFloat64 (Some v)) \<Rightarrow>
          if fp_is_finite v then map_sum id SumFloat (add_float subtotal v) else Inl ExecutionFailure
      | _ \<Rightarrow> Inl ExecutionFailure)"

primrec sum_scalar :: "sum_state \<Rightarrow> scalar" where
  "sum_scalar (SumSigned v) = SInt64 v"
| "sum_scalar (SumUnsigned v) = SUInt64 v"
| "sum_scalar (SumFloat v) = SFloat64 v"

fun sum_update_batch :: "sum_state \<Rightarrow> scalar list \<Rightarrow> runtime_failure_kind + sum_state" where
  "sum_update_batch state [] = Inr state"
| "sum_update_batch state (v # values) = sbind (sum_add_input state v) (\<lambda>state. sum_update_batch state values)"

definition sum_merge_batch :: "sum_state \<Rightarrow> scalar list \<Rightarrow> runtime_failure_kind + sum_state" where
  "sum_merge_batch = sum_update_batch"

section \<open>Averages\<close>

record checked_average_accumulator =
  ca_input_type :: logical_type
  ca_sum :: "fp option"
  ca_count :: nat

definition average_new :: "logical_type \<Rightarrow> checked_average_accumulator" where
  "average_new t = \<lparr>ca_input_type = t, ca_sum = None, ca_count = 0\<rparr>"

definition average_input :: "logical_type \<Rightarrow> scalar \<Rightarrow> runtime_failure_kind + fp" where
  "average_input t value = (case (t, value) of
       (TInt32, SInt32 (Some v)) \<Rightarrow> Inr (fp_of_int binary64 v)
     | (TInt64, SInt64 (Some v)) \<Rightarrow> Inr (fp_of_int binary64 v)
     | (TUInt32, SUInt32 (Some v)) \<Rightarrow> Inr (fp_of_int binary64 v)
     | (TUInt64, SUInt64 (Some v)) \<Rightarrow> Inr (fp_of_int binary64 v)
     | (TFloat32, SFloat32 (Some v)) \<Rightarrow> if fp_is_finite v then Inr v else Inl ExecutionFailure
     | (TFloat64, SFloat64 (Some v)) \<Rightarrow> if fp_is_finite v then Inr v else Inl ExecutionFailure
     | _ \<Rightarrow> Inl ExecutionFailure)"

definition average_accumulate ::
  "checked_average_accumulator \<Rightarrow> fp \<Rightarrow> nat \<Rightarrow> runtime_failure_kind + checked_average_accumulator" where
  "average_accumulate a value count =
     sbind (add_float (ca_sum a) value) (\<lambda>subtotal.
     sbind (ok_or (checked_add (ca_count a) count) EvaluationFailure) (\<lambda>count.
     Inr (a\<lparr>ca_sum := subtotal, ca_count := count\<rparr>)))"

definition average_add_input ::
  "checked_average_accumulator \<Rightarrow> scalar \<Rightarrow> runtime_failure_kind + checked_average_accumulator" where
  "average_add_input a value =
     (if scalar_is_null value then Inr a
      else sbind (average_input (ca_input_type a) value) (\<lambda>v. average_accumulate a v 1))"

fun average_update_batch ::
  "checked_average_accumulator \<Rightarrow> scalar list \<Rightarrow> runtime_failure_kind + checked_average_accumulator" where
  "average_update_batch a [] = Inr a"
| "average_update_batch a (v # values) =
     sbind (average_add_input a v) (\<lambda>a. average_update_batch a values)"

definition average_evaluate :: "checked_average_accumulator \<Rightarrow> runtime_failure_kind + scalar" where
  "average_evaluate a = (case ca_sum a of
       None \<Rightarrow> Inr (SFloat64 None)
     | Some subtotal \<Rightarrow>
         if ca_count a = 0 then Inl ExecutionFailure
         else let average = fp_div binary64 subtotal (fp_of_int binary64 (int (ca_count a))) in
           if fp_is_finite average then Inr (SFloat64 (Some average)) else Inl EvaluationFailure)"

definition average_state :: "checked_average_accumulator \<Rightarrow> scalar \<times> scalar" where
  "average_state a = (SFloat64 (ca_sum a), SUInt64 (Some (int (ca_count a))))"

fun average_merge_batch ::
  "checked_average_accumulator \<Rightarrow> (scalar \<times> scalar) list \<Rightarrow>
   runtime_failure_kind + checked_average_accumulator" where
  "average_merge_batch a [] = Inr a"
| "average_merge_batch a ((subtotal, count) # states) = (case (subtotal, count) of
       (SFloat64 None, SUInt64 (Some n)) \<Rightarrow>
         if n = 0 then average_merge_batch a states else Inl ExecutionFailure
     | (SFloat64 (Some subtotal), SUInt64 (Some n)) \<Rightarrow>
         if fp_is_finite subtotal \<and> n > 0
         then sbind (average_accumulate a subtotal (nat n)) (\<lambda>a. average_merge_batch a states)
         else Inl ExecutionFailure
     | _ \<Rightarrow> Inl ExecutionFailure)"

section \<open>Integer sums\<close>

text \<open>The integers of the values that are not null, and whether the running totals stay in range.\<close>

definition scalar_int :: "scalar \<Rightarrow> int option" where
  "scalar_int v = (case v of
       SInt32 x \<Rightarrow> x | SInt64 x \<Rightarrow> x | SUInt32 x \<Rightarrow> x | SUInt64 x \<Rightarrow> x | _ \<Rightarrow> None)"

definition nonnull_ints :: "scalar list \<Rightarrow> int list" where
  "nonnull_ints vs = List.map_filter scalar_int vs"

lemma nonnull_ints_simps [simp]:
  "nonnull_ints [] = []"
  "nonnull_ints (v # vs) = (case scalar_int v of None \<Rightarrow> nonnull_ints vs | Some i \<Rightarrow> i # nonnull_ints vs)"
  "nonnull_ints (us @ vs) = nonnull_ints us @ nonnull_ints vs"
  by (simp_all add: nonnull_ints_def List.map_filter_def split: option.split)

fun running_ok :: "(int \<Rightarrow> bool) \<Rightarrow> int option \<Rightarrow> int list \<Rightarrow> bool" where
  "running_ok P a [] = True"
| "running_ok P None (x # xs) = running_ok P (Some x) xs"
| "running_ok P (Some a) (x # xs) = (P (a + x) \<and> running_ok P (Some (a + x)) xs)"

definition sum_result :: "int option \<Rightarrow> int list \<Rightarrow> int option" where
  "sum_result a xs = (case a of Some x \<Rightarrow> Some (x + sum_list xs) | None \<Rightarrow> if xs = [] then None else Some (sum_list xs))"

definition sum_fold :: "(int \<Rightarrow> bool) \<Rightarrow> (int option \<Rightarrow> 'a) \<Rightarrow> int option \<Rightarrow> int list \<Rightarrow> runtime_failure_kind + 'a" where
  "sum_fold P c a xs = (if running_ok P a xs then Inr (c (sum_result a xs)) else Inl EvaluationFailure)"

lemma sum_fold_simps [simp]:
  "sum_fold P c a [] = Inr (c a)"
  "sum_fold P c a (x # xs) = sbind (add_integer P a x) (\<lambda>b. sum_fold P c b xs)"
  by (auto simp: sum_fold_def sum_result_def add_integer_def checked_int_add_def in_range_def add.assoc split: option.split)

definition signed_input :: "scalar \<Rightarrow> bool" where
  "signed_input v \<longleftrightarrow> scalar_ok TInt32 v \<or> scalar_ok TInt64 v"

definition unsigned_input :: "scalar \<Rightarrow> bool" where
  "unsigned_input v \<longleftrightarrow> scalar_ok TUInt32 v \<or> scalar_ok TUInt64 v"

lemma sum_add_integer:
  "signed_input v \<Longrightarrow> sum_add_input (SumSigned a) v =
     (case scalar_int v of None \<Rightarrow> Inr (SumSigned a) | Some i \<Rightarrow> map_sum id SumSigned (add_integer in_i64 a i))"
  "unsigned_input v \<Longrightarrow> sum_add_input (SumUnsigned a) v =
     (case scalar_int v of None \<Rightarrow> Inr (SumUnsigned a) | Some i \<Rightarrow> map_sum id SumUnsigned (add_integer in_u64 a i))"
  by (cases v; auto simp: signed_input_def unsigned_input_def scalar_ok_def sum_add_input_def scalar_int_def
      split: option.split)+

lemma sum_update_signed:
  "list_all signed_input vs \<Longrightarrow> sum_update_batch (SumSigned a) vs = sum_fold in_i64 SumSigned a (nonnull_ints vs)"
  by (induction vs arbitrary: a)
    (auto simp: sum_add_integer sbind_map_sum split: option.split intro!: arg_cong [of _ _ "sbind _"])

lemma sum_update_unsigned:
  "list_all unsigned_input vs \<Longrightarrow> sum_update_batch (SumUnsigned a) vs = sum_fold in_u64 SumUnsigned a (nonnull_ints vs)"
  by (induction vs arbitrary: a)
    (auto simp: sum_add_integer sbind_map_sum split: option.split intro!: arg_cong [of _ _ "sbind _"])

lemma running_ok_unsigned:
  "list_all in_u64 xs \<Longrightarrow> pred_option in_u64 a \<Longrightarrow>
   running_ok in_u64 a xs \<longleftrightarrow> pred_option in_u64 (sum_result a xs)"
proof (induction in_u64 a xs rule: running_ok.induct)
  case (1 a)
  then show ?case by (cases a) (simp_all add: sum_result_def)
next
  case (2 x xs)
  then show ?case by (auto simp: sum_result_def)
next
  case (3 a x xs)
  have "0 \<le> sum_list xs" using 3(2) by (auto simp: list_all_iff in_u64_def intro!: sum_list_nonneg)
  with 3 show ?case by (auto simp: sum_result_def in_u64_def add.assoc)
qed

lemma running_ok_append: "running_ok P a (xs @ ys) \<longleftrightarrow> running_ok P a xs \<and> running_ok P (sum_result a xs) ys"
  by (induction P a xs rule: running_ok.induct) (auto simp: sum_result_def add.assoc split: option.split)

text \<open>Running sums of parts, merged in order, are the running sum of the whole.\<close>

lemma sum_result_Nil [simp]: "sum_result a [] = a"
  by (simp add: sum_result_def split: option.split)

lemma sum_result_append: "sum_result a (xs @ ys) = sum_result (sum_result a xs) ys"
  by (auto simp: sum_result_def add.assoc split: option.split)

lemma sum_result_in_u64:
  "list_all in_u64 xs \<Longrightarrow> list_all in_u64 ys \<Longrightarrow> pred_option in_u64 (sum_result None (xs @ ys)) \<Longrightarrow>
   pred_option in_u64 (sum_result None xs) \<and> pred_option in_u64 (sum_result None ys)"
proof -
  assume "list_all in_u64 xs" "list_all in_u64 ys"
  then have "0 \<le> sum_list xs" "0 \<le> sum_list ys" by (auto simp: list_all_iff in_u64_def intro!: sum_list_nonneg)
  then show "pred_option in_u64 (sum_result None (xs @ ys)) \<Longrightarrow>
      pred_option in_u64 (sum_result None xs) \<and> pred_option in_u64 (sum_result None ys)"
    by (auto simp: sum_result_def in_u64_def split: if_split_asm)
qed

lemma unsigned_inputs: "list_all unsigned_input vs \<Longrightarrow> list_all in_u64 (nonnull_ints vs)"
proof (induction vs)
  case (Cons v vs)
  then have "scalar_int v = Some i \<Longrightarrow> in_u64 i" for i
    by (cases v) (auto simp: unsigned_input_def scalar_ok_def scalar_int_def int_ranges)
  with Cons show ?case by (auto split: option.split)
qed simp

definition partition_sums :: "sum_kind \<Rightarrow> scalar list list \<Rightarrow> runtime_failure_kind + scalar" where
  "partition_sums kind parts =
     sbind (traverse (\<lambda>vs. map_sum id sum_scalar (sum_update_batch (sum_new kind) vs)) parts) (\<lambda>states.
     map_sum id sum_scalar (sum_merge_batch (sum_new kind) states))"

lemma unsigned_sum_whole:
  assumes "list_all unsigned_input vs"
  shows "sum_update_batch (SumUnsigned a) vs = (if running_ok in_u64 a (nonnull_ints vs)
    then Inr (SumUnsigned (sum_result a (nonnull_ints vs))) else Inl EvaluationFailure)"
  using sum_update_unsigned [OF assms] by (simp add: sum_fold_def)

lemma nonnull_ints_states: "nonnull_ints (map (SUInt64 \<circ> f) xs) = List.map_filter f xs"
  by (induction xs) (auto simp: scalar_int_def List.map_filter_simps split: option.split)

lemma sum_result_parts:
  "sum_result a (List.map_filter (sum_result None) xss) = sum_result a (concat xss)"
proof (induction xss arbitrary: a)
  case (Cons xs xss)
  have "sum_result a (List.map_filter (sum_result None) (xs # xss)) =
      sum_result (sum_result a xs) (List.map_filter (sum_result None) xss)"
    by (cases "xs = []") (auto simp: List.map_filter_simps sum_result_def add.assoc split: option.split)
  with Cons show ?case by (simp add: sum_result_append)
qed (simp add: List.map_filter_simps)

lemma unsigned_partitions:
  assumes "list_all (list_all unsigned_input) parts"
  shows "partition_sums SumUnsignedKind parts = map_sum id sum_scalar (sum_update_batch (sum_new SumUnsignedKind) (concat parts))"
proof -
  let ?xss = "map nonnull_ints parts"
  have ints: "nonnull_ints (concat parts) = concat ?xss" by (induction parts) simp_all
  have u64: "list_all in_u64 xs" if "xs \<in> set ?xss" for xs
    using assms that unsigned_inputs by (auto simp: list_all_iff)
  then have all: "list_all in_u64 (concat ?xss)" by (auto simp: list_all_iff)
  have whole: "sum_update_batch (SumUnsigned None) (concat parts) =
      (if pred_option in_u64 (sum_result None (concat ?xss)) then Inr (SumUnsigned (sum_result None (concat ?xss)))
       else Inl EvaluationFailure)"
    using unsigned_sum_whole [of "concat parts" None] assms running_ok_unsigned [OF all, of None]
    by (simp add: ints list_all_iff)
  have part: "map_sum id sum_scalar (sum_update_batch (SumUnsigned None) vs) =
      (if pred_option in_u64 (sum_result None (nonnull_ints vs)) then Inr (SUInt64 (sum_result None (nonnull_ints vs)))
       else Inl EvaluationFailure)" if "vs \<in> set parts" for vs
    using that unsigned_sum_whole [of vs None] assms running_ok_unsigned [of "nonnull_ints vs" None] unsigned_inputs [of vs]
    by (simp add: list_all_iff)
  let ?ok = "list_all (\<lambda>vs. pred_option in_u64 (sum_result None (nonnull_ints vs))) parts"
  have states: "traverse (\<lambda>vs. map_sum id sum_scalar (sum_update_batch (SumUnsigned None) vs)) parts =
      (if ?ok then Inr (map (SUInt64 \<circ> sum_result None) ?xss) else Inl EvaluationFailure)"
    using traverse_guard [of "\<lambda>vs. pred_option in_u64 (sum_result None (nonnull_ints vs))"
        "\<lambda>vs. SUInt64 (sum_result None (nonnull_ints vs))" EvaluationFailure parts]
    by (simp add: traverse_cong [OF part] comp_def)
  have fail: "?ok" if "pred_option in_u64 (sum_result None (concat ?xss))"
    using that all
  proof (induction parts)
    case (Cons vs parts)
    then show ?case
      using sum_result_in_u64 [of "nonnull_ints vs" "concat (map nonnull_ints parts)"] by auto
  qed simp
  have merged: "sum_update_batch (SumUnsigned None) (map (SUInt64 \<circ> sum_result None) ?xss) =
      (if pred_option in_u64 (sum_result None (concat ?xss)) then Inr (SumUnsigned (sum_result None (concat ?xss)))
       else Inl EvaluationFailure)" if ok: "?ok"
  proof -
    have in_u: "list_all unsigned_input (map (SUInt64 \<circ> sum_result None) ?xss)"
      using ok by (auto simp: list_all_iff unsigned_input_def scalar_ok_def)
    from unsigned_sum_whole [OF in_u, of None] unsigned_inputs [OF in_u] running_ok_unsigned [of _ None]
    show ?thesis by (simp add: nonnull_ints_states sum_result_parts del: map_map list.map_comp)
  qed
  show ?thesis
    using whole states merged fail by (auto simp: partition_sums_def sum_merge_batch_def)
qed

section \<open>Batches\<close>

text \<open>
  What DataFusion relies on: where the batches of a partition end makes no difference to what an
  accumulator ends with.
\<close>

locale batched =
  fixes update :: "'s \<Rightarrow> 'v list \<Rightarrow> 'e + 's" and inv :: "'s \<Rightarrow> bool"
  assumes update_Nil: "inv s \<Longrightarrow> update s [] = Inr s"
    and update_append: "inv s \<Longrightarrow> update s (xs @ ys) = sbind (update s xs) (\<lambda>t. update t ys)"
    and update_inv: "inv s \<Longrightarrow> update s xs = Inr t \<Longrightarrow> inv t"
begin

lemma update_batches: "inv s \<Longrightarrow> fold_result update batches s = update s (concat batches)"
proof (induction batches arbitrary: s)
  case (Cons b bs)
  then show ?case by (cases "update s b") (simp_all add: update_append update_inv)
qed (simp add: update_Nil)

end

definition count_inv :: "checked_count_accumulator \<Rightarrow> bool" where
  "count_inv a \<longleftrightarrow> 0 \<le> cc_count a \<and> in_i64 (cc_count a)"

text \<open>The rows of a batch that a mode counts.\<close>

definition counted :: "count_mode \<Rightarrow> scalar list \<Rightarrow> scalar list" where
  "counted mode vs = (case mode of AllRows \<Rightarrow> vs | NonNullRows \<Rightarrow> filter (\<lambda>v. \<not> scalar_is_null v) vs)"

lemma counted_append [simp]: "counted m (us @ vs) = counted m us @ counted m vs"
  by (cases m) (simp_all add: counted_def)

lemma nonnull_count: "length vs - length (filter P vs) = length (filter (\<lambda>v. \<not> P v) vs)"
  using sum_length_filter_compl [of P vs] by simp

lemma count_update_batch_exact:
  assumes "count_inv a"
  shows "count_update_batch a vs = (let n = cc_count a + int (length (counted (cc_mode a) vs)) in
    if in_i64 n then Inr (a\<lparr>cc_count := n\<rparr>) else Inl EvaluationFailure)"
  using assms by (cases "cc_mode a") (auto simp: count_update_batch_def counted_def count_inv_def
      checked_int_add_def in_range_def in_i64_def nonnull_count Let_def)

interpretation count_batches: batched count_update_batch count_inv
proof
  show "count_update_batch a [] = Inr a" if "count_inv a" for a
    using count_update_batch_exact [OF that] that by (cases "cc_mode a") (simp_all add: counted_def count_inv_def)
  show "count_update_batch a (us @ vs) = sbind (count_update_batch a us) (\<lambda>b. count_update_batch b vs)"
    if "count_inv a" for a us vs
    using count_update_batch_exact [OF that] count_update_batch_exact [of "a\<lparr>cc_count := cc_count a + int (length (counted (cc_mode a) us))\<rparr>"] that
    by (auto simp: count_inv_def Let_def in_i64_def)
  show "count_inv b" if "count_inv a" "count_update_batch a vs = Inr b" for a b vs
    using that by (auto simp: count_update_batch_exact Let_def count_inv_def split: if_split_asm)
qed

interpretation sum_batches: batched sum_update_batch "\<lambda>_. True"
proof
  show "sum_update_batch s (xs @ ys) = sbind (sum_update_batch s xs) (\<lambda>t. sum_update_batch t ys)" for s xs ys
    by (induction xs arbitrary: s) (simp_all add: sbind_assoc)
qed simp_all

interpretation average_batches: batched average_update_batch "\<lambda>_. True"
proof
  show "average_update_batch s (xs @ ys) = sbind (average_update_batch s xs) (\<lambda>t. average_update_batch t ys)" for s xs ys
    by (induction xs arbitrary: s) (simp_all add: sbind_assoc)
qed simp_all

text \<open>
  A count and an unsigned sum are the same however the rows are split into partitions: the states
  of the partitions merge to what one accumulator makes of all rows.
\<close>

definition partition_counts :: "count_mode \<Rightarrow> scalar list list \<Rightarrow> runtime_failure_kind + scalar" where
  "partition_counts mode parts =
     sbind (traverse (\<lambda>vs. map_sum id count_state (count_update_batch (count_new mode) vs)) parts) (\<lambda>states.
     map_sum id count_evaluate (count_merge_batch (count_new mode) states))"

lemma count_new_inv [simp]: "count_inv (count_new mode)"
  by (simp add: count_inv_def count_new_def in_i64_def)

lemma count_merge_exact:
  "0 \<le> n \<Longrightarrow> in_i64 n \<Longrightarrow> count_merge_batch \<lparr>cc_mode = m, cc_count = n\<rparr> (map (\<lambda>c. SInt64 (Some (int c))) cs) =
     (let t = n + int (sum_list cs) in
      if in_i64 t then Inr \<lparr>cc_mode = m, cc_count = t\<rparr> else Inl EvaluationFailure)"
proof (induction cs arbitrary: n)
  case (Cons c cs)
  show ?case
  proof (cases "in_i64 (n + int c)")
    case True
    with Cons.IH [of "n + int c"] Cons.prems show ?thesis
      by (simp add: checked_int_add_def in_range_def Let_def add.assoc)
  next
    case False
    with Cons.prems show ?thesis by (auto simp: checked_int_add_def in_range_def Let_def in_i64_def)
  qed
qed simp

lemma count_partitions:
  "partition_counts mode parts = map_sum id count_evaluate (count_update_batch (count_new mode) (concat parts))"
proof -
  let ?n = "\<lambda>vs. length (counted mode vs)"
  have n: "?n (concat parts) = sum_list (map ?n parts)"
    by (induction parts) (simp_all, cases mode, simp_all add: counted_def)
  have one: "count_update_batch (count_new mode) vs =
      (if in_i64 (int (?n vs)) then Inr \<lparr>cc_mode = mode, cc_count = int (?n vs)\<rparr> else Inl EvaluationFailure)" for vs
    by (simp add: count_update_batch_exact Let_def) (simp add: count_new_def)
  have states: "traverse (\<lambda>vs. map_sum id count_state (count_update_batch (count_new mode) vs)) parts =
      (if list_all (\<lambda>vs. in_i64 (int (?n vs))) parts then Inr (map (\<lambda>c. SInt64 (Some (int c))) (map ?n parts)) else Inl EvaluationFailure)"
    unfolding one using traverse_guard [of "\<lambda>vs. in_i64 (int (?n vs))" "\<lambda>vs. SInt64 (Some (int (?n vs)))" EvaluationFailure parts]
    by (simp add: if_distrib count_state_def comp_def cong: if_cong)
  have small: "?n vs \<le> sum_list (map ?n parts)" if "vs \<in> set parts" for vs
    using that by (auto intro: member_le_sum_list)
  have ok: "list_all (\<lambda>vs. in_i64 (int (?n vs))) parts" if t: "in_i64 (int (sum_list (map ?n parts)))"
    unfolding list_all_iff
  proof
    fix vs assume "vs \<in> set parts"
    from small [OF this] have "int (?n vs) \<le> int (sum_list (map ?n parts))" by simp
    with t show "in_i64 (int (?n vs))" unfolding in_i64_def by linarith
  qed
  have merged: "count_merge_batch (count_new mode) (map (\<lambda>c. SInt64 (Some (int c))) (map ?n parts)) =
      (if in_i64 (int (sum_list (map ?n parts))) then Inr \<lparr>cc_mode = mode, cc_count = int (sum_list (map ?n parts))\<rparr>
       else Inl EvaluationFailure)"
    using count_merge_exact [of 0 mode "map ?n parts"] by (simp add: count_new_def in_i64_def)
  show ?thesis
    unfolding partition_counts_def states using one [of "concat parts"] n merged ok by auto
qed

text \<open>The abstract aggregate, over the integers.\<close>

definition exact_sum :: "scalar list \<Rightarrow> int option" where
  "exact_sum vs = (if nonnull_ints vs = [] then None else Some (sum_list (nonnull_ints vs)))"

lemma exact_sum_result: "exact_sum vs = sum_result None (nonnull_ints vs)"
  by (simp add: exact_sum_def sum_result_def)

lemma unsigned_sum_exact:
  assumes "list_all unsigned_input vs"
  shows "map_sum id sum_scalar (sum_update_batch (sum_new SumUnsignedKind) vs) =
    (if pred_option in_u64 (exact_sum vs) then Inr (SUInt64 (exact_sum vs)) else Inl EvaluationFailure)"
  using unsigned_sum_whole [OF assms, of None] running_ok_unsigned [OF unsigned_inputs [OF assms], of None]
  by (simp add: exact_sum_result)

lemma signed_sum_exact:
  assumes "list_all signed_input vs"
  shows "map_sum id sum_scalar (sum_update_batch (sum_new SumSignedKind) vs) =
    (if running_ok in_i64 None (nonnull_ints vs) then Inr (SInt64 (exact_sum vs)) else Inl EvaluationFailure)"
  using sum_update_signed [OF assms, of None] by (simp add: exact_sum_result sum_fold_def)

text \<open>
  A signed sum is checked at every row and every state, so that it may fail where the total is in
  range; what it returns is the exact total.
\<close>

lemma running_ok_result:
  "running_ok P a xs \<Longrightarrow> list_all P xs \<Longrightarrow> pred_option P a \<Longrightarrow> pred_option P (sum_result a xs)"
  by (induction P a xs rule: running_ok.induct) (auto simp: sum_result_def add.assoc split: option.split)

lemma signed_inputs: "list_all signed_input vs \<Longrightarrow> list_all in_i64 (nonnull_ints vs)"
proof (induction vs)
  case (Cons v vs)
  then have "scalar_int v = Some i \<Longrightarrow> in_i64 i" for i
    by (cases v) (auto simp: signed_input_def scalar_ok_def scalar_int_def int_ranges)
  with Cons show ?case by (auto split: option.split)
qed simp

lemma nonnull_ints_signed_states: "nonnull_ints (map (SInt64 \<circ> f) xs) = List.map_filter f xs"
  by (induction xs) (auto simp: scalar_int_def List.map_filter_simps split: option.split)

lemma signed_partitions:
  assumes "list_all (list_all signed_input) parts"
  shows "partition_sums SumSignedKind parts = Inl EvaluationFailure \<or>
    partition_sums SumSignedKind parts = Inr (SInt64 (exact_sum (concat parts))) \<and>
      pred_option in_i64 (exact_sum (concat parts))"
proof -
  let ?xss = "map nonnull_ints parts"
  let ?ok = "\<lambda>vs. running_ok in_i64 None (nonnull_ints vs)"
  have ints: "nonnull_ints (concat parts) = concat ?xss" by (induction parts) simp_all
  have part: "map_sum id sum_scalar (sum_update_batch (SumSigned None) vs) =
      (if ?ok vs then Inr (SInt64 (sum_result None (nonnull_ints vs))) else Inl EvaluationFailure)"
    if "vs \<in> set parts" for vs
    using that assms sum_update_signed [of vs None] by (simp add: sum_fold_def list_all_iff)
  have states: "traverse (\<lambda>vs. map_sum id sum_scalar (sum_update_batch (SumSigned None) vs)) parts =
      (if list_all ?ok parts then Inr (map (SInt64 \<circ> sum_result None) ?xss) else Inl EvaluationFailure)"
    using traverse_guard [of ?ok "\<lambda>vs. SInt64 (sum_result None (nonnull_ints vs))" EvaluationFailure parts]
    by (simp add: traverse_cong [OF part] comp_def)
  show ?thesis
  proof (cases "list_all ?ok parts")
    case True
    let ?states = "map (SInt64 \<circ> sum_result None) ?xss"
    have "pred_option in_i64 (sum_result None (nonnull_ints vs))" if "vs \<in> set parts" for vs
      using that True assms running_ok_result [of in_i64 None "nonnull_ints vs"] signed_inputs [of vs]
      by (simp add: list_all_iff)
    then have input: "list_all signed_input ?states"
      by (auto simp: list_all_iff signed_input_def scalar_ok_def)
    have merged: "sum_update_batch (SumSigned None) ?states =
        (if running_ok in_i64 None (List.map_filter (sum_result None) ?xss)
         then Inr (SumSigned (exact_sum (concat parts))) else Inl EvaluationFailure)"
      using sum_update_signed [OF input, of None]
      by (simp add: sum_fold_def nonnull_ints_signed_states sum_result_parts exact_sum_result ints
          del: map_map list.map_comp)
    have "pred_option in_i64 (exact_sum (concat parts))"
      if "running_ok in_i64 None (List.map_filter (sum_result None) ?xss)"
      using running_ok_result [OF that] signed_inputs [OF input]
      by (simp add: nonnull_ints_signed_states sum_result_parts exact_sum_result ints del: map_map list.map_comp)
    with True states merged show ?thesis by (auto simp: partition_sums_def sum_merge_batch_def)
  qed (use states in \<open>simp add: partition_sums_def\<close>)
qed

end
