(* ===== verification/Engine_Scan.thy ===== *)
theory Engine_Scan
  imports Engine_Safety Catalog_Source
begin

text \<open>
  How the engine reads segments that were written under an earlier schema
  (\<open>elucid-engine/src/schema_adapter.rs\<close>, \<open>metrics.rs\<close>) and what it checks of a snapshot before
  it scans (\<open>snapshot.rs\<close>, \<open>execution.rs\<close>). A column of a batch is the list of its values.
  \<open>RecordBatch::try_new_with_options\<close> of the \<open>arrow\<close> package is the parameter \<open>try_new\<close>.
\<close>

section \<open>Plans\<close>

datatype column_plan = PlanDirect nat | PlanHistorical nat json_pointer logical_type | PlanNull

record stored_schema_plan =
  sp_stored_arrow_schema :: "arrow_field list"
  sp_columns :: "column_plan list"

definition supports_historical_conversion :: "logical_type \<Rightarrow> bool" where
  "supports_historical_conversion t = (case t of
       TBool \<Rightarrow> True | TInt32 \<Rightarrow> True | TInt64 \<Rightarrow> True | TUInt32 \<Rightarrow> True | TUInt64 \<Rightarrow> True
     | TFloat32 \<Rightarrow> True | TFloat64 \<Rightarrow> True | TUtf8 \<Rightarrow> True | TDatetime \<Rightarrow> True
     | TEid \<Rightarrow> False | TJson \<Rightarrow> False)"

definition plan_column :: "schema \<Rightarrow> nat \<Rightarrow> field \<Rightarrow> engine_error + column_plan" where
  "plan_column stored remainder_index active_field =
     (case find_position (\<lambda>f. fld_id f = fld_id active_field) (sc_fields stored) of
        Some stored_index \<Rightarrow>
          let stored_field = sc_fields stored ! stored_index in
          if fld_logical_type stored_field \<noteq> fld_logical_type active_field \<or>
             fld_nullability stored_field \<noteq> fld_nullability active_field
          then Inl (catalog_corrupt ''one field identity has contradictory schema definitions'')
          else Inr (PlanDirect stored_index)
      | None \<Rightarrow>
          if fld_nullability active_field \<noteq> Nullable
          then Inl (catalog_corrupt ''a non-null active field is absent from a stored schema'')
          else case fld_historical_remainder_pointer active_field of
              Some pointer \<Rightarrow>
                if \<not> supports_historical_conversion (fld_logical_type active_field)
                then Inl (catalog_corrupt ''historical remainder adapter targets an unsupported type'')
                else Inr (PlanHistorical remainder_index pointer (fld_logical_type active_field))
            | None \<Rightarrow> Inr PlanNull)"

definition stored_schema_plan_build :: "schema \<Rightarrow> schema \<Rightarrow> engine_error + stored_schema_plan" where
  "stored_schema_plan_build active stored =
     (if sc_source_id active \<noteq> sc_source_id stored
      then Inl (catalog_corrupt ''stored and active schemas belong to different sources'')
      else
        sbind (ok_or (find_position (\<lambda>f. fld_id f = field_id_remainder) (sc_fields stored))
                 (catalog_corrupt ''stored schema has no remainder field'')) (\<lambda>remainder_index.
        sbind (traverse (plan_column stored remainder_index) (sc_fields active)) (\<lambda>columns.
        Inr \<lparr>sp_stored_arrow_schema = sc_arrow_schema stored, sp_columns = columns\<rparr>)))"

definition matches_file_schema :: "stored_schema_plan \<Rightarrow> arrow_field list \<Rightarrow> bool" where
  "matches_file_schema plan file_schema \<longleftrightarrow> sp_stored_arrow_schema plan = file_schema"

definition column_plan_stored_index :: "column_plan \<Rightarrow> nat option" where
  "column_plan_stored_index plan = (case plan of
       PlanDirect stored_index \<Rightarrow> Some stored_index
     | PlanHistorical remainder_index _ _ \<Rightarrow> Some remainder_index
     | PlanNull \<Rightarrow> None)"

section \<open>The adapter\<close>

record schema_adapter =
  ad_active_arrow_schema :: "arrow_field list"
  ad_projected_table_schema :: "arrow_field list"
  ad_table_schema :: "arrow_field list"
  ad_plans :: "stored_schema_plan list"

definition adapter_plan :: "schema_adapter \<Rightarrow> arrow_field list \<Rightarrow> string + stored_schema_plan" where
  "adapter_plan a file_schema =
     (if ad_table_schema a \<noteq> ad_active_arrow_schema a
      then Inl ''snapshot table schema changed after validation''
      else ok_or (find (\<lambda>plan. matches_file_schema plan file_schema) (ad_plans a))
        ''Parquet schema is absent from the validated query snapshot'')"

definition active_index :: "schema_adapter \<Rightarrow> arrow_field \<Rightarrow> string + nat" where
  "active_index a f =
     ok_or (find_position (\<lambda>active. active = f) (ad_active_arrow_schema a))
       ''projected field is absent from the active snapshot schema''"

definition map_column_index :: "schema_adapter \<Rightarrow> nat \<Rightarrow> arrow_field list \<Rightarrow> nat option" where
  "map_column_index a index file_schema =
     (if index < length (ad_table_schema a)
      then case find_position (\<lambda>active. active = ad_table_schema a ! index) (ad_active_arrow_schema a) of
          None \<Rightarrow> None
        | Some k \<Rightarrow> (case adapter_plan a file_schema of
              Inl _ \<Rightarrow> None
            | Inr plan \<Rightarrow>
                if k < length (sp_columns plan) then column_plan_stored_index (sp_columns plan ! k) else None)
      else None)"

datatype batch_column = BatchDirect nat | BatchHistorical nat json_pointer logical_type | BatchNull

definition projection_index :: "nat list \<Rightarrow> nat \<Rightarrow> nat \<times> nat list" where
  "projection_index projection stored_index =
     (case find_position (\<lambda>candidate. candidate = stored_index) projection of
        Some input_index \<Rightarrow> (input_index, projection)
      | None \<Rightarrow> (length projection, projection @ [stored_index]))"

definition batch_column_of :: "nat list \<Rightarrow> column_plan \<Rightarrow> batch_column \<times> nat list" where
  "batch_column_of projection plan = (case plan of
       PlanDirect stored_index \<Rightarrow>
         (let (input_index, projection) = projection_index projection stored_index
          in (BatchDirect input_index, projection))
     | PlanHistorical remainder_index pointer t \<Rightarrow>
         (let (input_index, projection) = projection_index projection remainder_index
          in (BatchHistorical input_index pointer t, projection))
     | PlanNull \<Rightarrow> (BatchNull, projection))"

fun map_fields ::
  "schema_adapter \<Rightarrow> stored_schema_plan \<Rightarrow> nat list \<Rightarrow> arrow_field list \<Rightarrow> string + batch_column list \<times> nat list" where
  "map_fields a plan projection [] = Inr ([], projection)"
| "map_fields a plan projection (f # fs) =
     sbind (active_index a f) (\<lambda>active_index.
     let (mapping, projection) = batch_column_of projection (sp_columns plan ! active_index) in
     sbind (map_fields a plan projection fs) (\<lambda>(mappings, projection).
     Inr (mapping # mappings, projection)))"

definition map_schema :: "schema_adapter \<Rightarrow> arrow_field list \<Rightarrow> string + batch_column list \<times> nat list" where
  "map_schema a file_schema =
     sbind (adapter_plan a file_schema) (\<lambda>plan. map_fields a plan [] (ad_projected_table_schema a))"

section \<open>Values of the remainder\<close>

record scan_env = engine_env +
  timestamp_millis_supported :: "int \<Rightarrow> bool"

definition parse_array_index :: "string \<Rightarrow> nat option" where
  "parse_array_index token =
     (if take 1 token = ''+'' \<or> (length token > 1 \<and> take 1 token = ''0'') then None
      else if valid_unsigned_decimal token then map_option nat (parse_int in_u64 token) else None)"

fun resolve_pointer :: "json \<Rightarrow> json_pointer \<Rightarrow> json option" where
  "resolve_pointer current [] = Some current"
| "resolve_pointer current (token # tokens) =
     (case current of
        JObject members \<Rightarrow> Option.bind (map_of members token) (\<lambda>next. resolve_pointer next tokens)
      | JArray elements \<Rightarrow> Option.bind (parse_array_index token) (\<lambda>index.
          if index < length elements then resolve_pointer (elements ! index) tokens else None)
      | _ \<Rightarrow> None)"

definition as_number :: "json \<Rightarrow> string option" where
  "as_number v = (case v of JNumber n \<Rightarrow> Some n | _ \<Rightarrow> None)"

definition as_str :: "json \<Rightarrow> string option" where
  "as_str v = (case v of JString s \<Rightarrow> Some s | _ \<Rightarrow> None)"

definition as_bool :: "json \<Rightarrow> bool option" where
  "as_bool v = (case v of JBool b \<Rightarrow> Some b | _ \<Rightarrow> None)"

definition integer_i64 :: "'x engine_env_scheme \<Rightarrow> json \<Rightarrow> int option" where
  "integer_i64 X v = Option.bind (as_number v) (\<lambda>number. case number_as_i64 X number of
       Some i \<Rightarrow> Some i
     | None \<Rightarrow> Option.bind (number_as_u64 X number) (in_range in_i64))"

definition integer_u64 :: "'x engine_env_scheme \<Rightarrow> json \<Rightarrow> int option" where
  "integer_u64 X v = Option.bind (as_number v) (\<lambda>number. case number_as_u64 X number of
       Some i \<Rightarrow> Some i
     | None \<Rightarrow> Option.bind (number_as_i64 X number) (in_range in_u64))"

definition historical_datetime :: "'x scan_env_scheme \<Rightarrow> json \<Rightarrow> int option" where
  "historical_datetime X v =
     Option.bind (as_str v) (\<lambda>s.
     Option.bind (parse_from_rfc3339 X s) (\<lambda>(nanosecond, milliseconds).
     if nanosecond mod 1000000 \<noteq> 0 then None
     else if timestamp_millis_supported X milliseconds then Some milliseconds else None))"

text \<open>The closures of \<open>historical_array\<close>: the value of the array's type, or nothing.\<close>

definition historical_float :: "fp_format \<Rightarrow> json \<Rightarrow> fp option" where
  "historical_float F v = Option.bind (as_number v) (\<lambda>n. option_filter fp_is_finite (fp_parse F n))"

definition historical_value :: "'x scan_env_scheme \<Rightarrow> logical_type \<Rightarrow> json \<Rightarrow> scalar option" where
  "historical_value X t v = (case t of
       TBool \<Rightarrow> map_option (SBoolean \<circ> Some) (as_bool v)
     | TInt32 \<Rightarrow> map_option (SInt32 \<circ> Some) (Option.bind (integer_i64 X v) (in_range in_i32))
     | TInt64 \<Rightarrow> map_option (SInt64 \<circ> Some) (integer_i64 X v)
     | TUInt32 \<Rightarrow> map_option (SUInt32 \<circ> Some) (Option.bind (integer_u64 X v) (in_range in_u32))
     | TUInt64 \<Rightarrow> map_option (SUInt64 \<circ> Some) (integer_u64 X v)
     | TFloat32 \<Rightarrow> map_option (SFloat32 \<circ> Some) (historical_float binary32 v)
     | TFloat64 \<Rightarrow> map_option (SFloat64 \<circ> Some) (historical_float binary64 v)
     | TUtf8 \<Rightarrow> map_option (SUtf8 \<circ> Some) (as_str v)
     | TDatetime \<Rightarrow> map_option (\<lambda>ms. STimestampMillisecond (Some ms) (Some UTC_TIMEZONE)) (historical_datetime X v)
     | _ \<Rightarrow> None)"

text \<open>One row: the value, and whether the failure metric is incremented.\<close>

definition convert_row ::
  "'x scan_env_scheme \<Rightarrow> json_pointer \<Rightarrow> (json \<Rightarrow> 'a option) \<Rightarrow> string option \<Rightarrow> 'a option \<times> bool" where
  "convert_row X pointer convert remainder = (case remainder of
       None \<Rightarrow> (None, False)
     | Some s \<Rightarrow> (case json_from_str X s of
           None \<Rightarrow> (None, True)
         | Some document \<Rightarrow> (case resolve_pointer document pointer of
               None \<Rightarrow> (None, False)
             | Some JNull \<Rightarrow> (None, False)
             | Some v \<Rightarrow> (convert v, convert v = None))))"

definition convert_rows ::
  "'x scan_env_scheme \<Rightarrow> json_pointer \<Rightarrow> (json \<Rightarrow> 'a option) \<Rightarrow> string option list \<Rightarrow> 'a option list \<times> nat" where
  "convert_rows X pointer convert remainder =
     (let rows = map (convert_row X pointer convert) remainder
      in (map fst rows, length (filter snd rows)))"

definition historical_array ::
  "'x scan_env_scheme \<Rightarrow> json_pointer \<Rightarrow> logical_type \<Rightarrow> string option list \<Rightarrow> scalar list \<times> nat" where
  "historical_array X pointer t remainder =
     (if t = TEid \<or> t = TJson then (replicate (length remainder) (null_scalar t), 0)
      else let (rows, failures) = convert_rows X pointer (historical_value X t) remainder
        in (map (\<lambda>v. case v of Some v \<Rightarrow> v | None \<Rightarrow> null_scalar t) rows, failures))"

primrec logical_type_index :: "logical_type \<Rightarrow> nat option" where
  "logical_type_index TBool = Some 0"
| "logical_type_index TInt32 = Some 1"
| "logical_type_index TInt64 = Some 2"
| "logical_type_index TUInt32 = Some 3"
| "logical_type_index TUInt64 = Some 4"
| "logical_type_index TFloat32 = Some 5"
| "logical_type_index TFloat64 = Some 6"
| "logical_type_index TUtf8 = Some 7"
| "logical_type_index TDatetime = Some 8"
| "logical_type_index TEid = None"
| "logical_type_index TJson = None"

text \<open>The counters are 64 bits wide and wrap, as \<open>fetch_add\<close> does.\<close>

definition metrics_add :: "(nat \<Rightarrow> 64 word) \<Rightarrow> logical_type \<Rightarrow> nat \<Rightarrow> nat \<Rightarrow> 64 word" where
  "metrics_add metrics t n = (case logical_type_index t of
       Some index \<Rightarrow> metrics(index := metrics index + word_of_nat n)
     | None \<Rightarrow> metrics)"

definition metrics_failures :: "(nat \<Rightarrow> 64 word) \<Rightarrow> logical_type \<Rightarrow> 64 word" where
  "metrics_failures metrics t = (case logical_type_index t of Some index \<Rightarrow> metrics index | None \<Rightarrow> 0)"

section \<open>Batches\<close>

definition as_string_array :: "scalar list \<Rightarrow> string option list option" where
  "as_string_array vs =
     (if list_all (\<lambda>v. case v of SUtf8 _ \<Rightarrow> True | _ \<Rightarrow> False) vs
      then Some (map (\<lambda>v. case v of SUtf8 s \<Rightarrow> s | _ \<Rightarrow> None) vs) else None)"

text \<open>\<open>new_null_array\<close>: the null of an Arrow type.\<close>

primrec arrow_null :: "arrow_data_type \<Rightarrow> scalar" where
  "arrow_null ArrowBoolean = SBoolean None"
| "arrow_null ArrowInt32 = SInt32 None"
| "arrow_null ArrowInt64 = SInt64 None"
| "arrow_null ArrowUInt32 = SUInt32 None"
| "arrow_null ArrowUInt64 = SUInt64 None"
| "arrow_null ArrowFloat32 = SFloat32 None"
| "arrow_null ArrowFloat64 = SFloat64 None"
| "arrow_null ArrowUtf8 = SUtf8 None"
| "arrow_null ArrowTimestampMillisecondUtc = STimestampMillisecond None (Some UTC_TIMEZONE)"
| "arrow_null (ArrowFixedSizeBinary n) = SFixedSizeBinary n None"

definition map_column ::
  "'x scan_env_scheme \<Rightarrow> scalar list list \<Rightarrow> nat \<Rightarrow> (nat \<Rightarrow> 64 word) \<Rightarrow> arrow_field \<Rightarrow> batch_column \<Rightarrow>
   string + scalar list \<times> (nat \<Rightarrow> 64 word)" where
  "map_column X batch row_count metrics f mapping = (case mapping of
       BatchDirect input_index \<Rightarrow> Inr (batch ! input_index, metrics)
     | BatchHistorical input_index pointer t \<Rightarrow>
         sbind (ok_or (as_string_array (batch ! input_index)) ''validated remainder column is not UTF-8'')
           (\<lambda>remainder. let (column, failures) = historical_array X pointer t remainder
             in Inr (column, metrics_add metrics t failures))
     | BatchNull \<Rightarrow> Inr (replicate row_count (arrow_null (af_data_type f)), metrics))"

fun map_columns ::
  "'x scan_env_scheme \<Rightarrow> scalar list list \<Rightarrow> nat \<Rightarrow> (nat \<Rightarrow> 64 word) \<Rightarrow> (arrow_field \<times> batch_column) list \<Rightarrow>
   string + scalar list list \<times> (nat \<Rightarrow> 64 word)" where
  "map_columns X batch row_count metrics [] = Inr ([], metrics)"
| "map_columns X batch row_count metrics ((f, mapping) # rest) =
     sbind (map_column X batch row_count metrics f mapping) (\<lambda>(column, metrics).
     sbind (map_columns X batch row_count metrics rest) (\<lambda>(columns, metrics).
     Inr (column # columns, metrics)))"

definition map_batch ::
  "(scalar list list \<Rightarrow> nat \<Rightarrow> string + 'b) \<Rightarrow> 'x scan_env_scheme \<Rightarrow> arrow_field list \<Rightarrow> batch_column list \<Rightarrow>
   scalar list list \<Rightarrow> nat \<Rightarrow> (nat \<Rightarrow> 64 word) \<Rightarrow> string + 'b \<times> (nat \<Rightarrow> 64 word)" where
  "map_batch try_new X projected_table_schema mappings batch row_count metrics =
     sbind (map_columns X batch row_count metrics (zip projected_table_schema mappings)) (\<lambda>(columns, metrics).
     sbind (try_new columns row_count) (\<lambda>batch. Inr (batch, metrics)))"

section \<open>What the adapter computes\<close>

text \<open>The value of one field in one stored row, by the field's plan.\<close>

definition remainder_value ::
  "'x scan_env_scheme \<Rightarrow> json_pointer \<Rightarrow> logical_type \<Rightarrow> scalar \<Rightarrow> scalar" where
  "remainder_value X pointer t v = (case v of
       SUtf8 r \<Rightarrow> (case fst (convert_row X pointer (historical_value X t) r) of
           Some w \<Rightarrow> w | None \<Rightarrow> null_scalar t)
     | _ \<Rightarrow> null_scalar t)"

definition planned_value :: "'x scan_env_scheme \<Rightarrow> arrow_field \<Rightarrow> column_plan \<Rightarrow> scalar list \<Rightarrow> scalar" where
  "planned_value X f plan row = (case plan of
       PlanDirect j \<Rightarrow> row ! j
     | PlanHistorical j pointer t \<Rightarrow> remainder_value X pointer t (row ! j)
     | PlanNull \<Rightarrow> arrow_null (af_data_type f))"

lemma projection_index_sound:
  "projection_index p j = (i, p') \<Longrightarrow> i < length p' \<and> p' ! i = j \<and> (\<exists>q. p' = p @ q)"
  by (auto simp: projection_index_def dest: find_position_Some split: option.split_asm)

definition resolves :: "nat list \<Rightarrow> batch_column \<Rightarrow> column_plan \<Rightarrow> bool" where
  "resolves p m plan = (case (m, plan) of
       (BatchDirect i, PlanDirect j) \<Rightarrow> i < length p \<and> p ! i = j
     | (BatchHistorical i pointer t, PlanHistorical j pointer' t') \<Rightarrow>
         i < length p \<and> p ! i = j \<and> pointer = pointer' \<and> t = t'
     | (BatchNull, PlanNull) \<Rightarrow> True
     | _ \<Rightarrow> False)"

lemma resolves_append: "resolves p m plan \<Longrightarrow> resolves (p @ q) m plan"
  by (cases m; cases plan) (auto simp: resolves_def nth_append)

lemma batch_column_of_resolves:
  "batch_column_of p plan = (m, p') \<Longrightarrow> resolves p' m plan \<and> (\<exists>q. p' = p @ q)"
  by (cases plan) (auto simp: batch_column_of_def resolves_def dest!: projection_index_sound split: prod.split_asm)

lemma map_fields_resolves:
  "map_fields a plan p fs = Inr (ms, p') \<Longrightarrow>
   (\<exists>q. p' = p @ q) \<and>
   list_all2 (\<lambda>f m. \<exists>i. active_index a f = Inr i \<and> resolves p' m (sp_columns plan ! i)) fs ms"
proof (induction fs arbitrary: p ms)
  case (Cons f fs)
  from Cons.prems obtain i where i: "active_index a f = Inr i" by (auto simp: result_simps)
  obtain m p1 where m: "batch_column_of p (sp_columns plan ! i) = (m, p1)" by fastforce
  from Cons.prems i m obtain ms1 where ms1: "map_fields a plan p1 fs = Inr (ms1, p')" "ms = m # ms1"
    by (auto simp: result_simps)
  from Cons.IH [OF ms1(1)] batch_column_of_resolves [OF m] i ms1(2) show ?case
    by (auto intro: resolves_append)
qed simp

text \<open>A batch that holds the projected columns of the stored rows.\<close>

definition projected_batch :: "nat list \<Rightarrow> scalar list list \<Rightarrow> scalar list list" where
  "projected_batch projection rows = map (\<lambda>j. map (\<lambda>row. row ! j) rows) projection"

definition remainder_column_ok :: "column_plan \<Rightarrow> scalar list list \<Rightarrow> bool" where
  "remainder_column_ok plan rows = (case plan of
       PlanHistorical j _ t \<Rightarrow> supports_historical_conversion t \<and> (\<forall>row \<in> set rows. \<exists>s. row ! j = SUtf8 s)
     | _ \<Rightarrow> True)"

lemma as_string_array_map:
  "as_string_array vs = Some ss \<longleftrightarrow> vs = map SUtf8 ss"
proof
  assume "as_string_array vs = Some ss"
  then have "list_all (\<lambda>v. case v of SUtf8 _ \<Rightarrow> True | _ \<Rightarrow> False) vs"
    "ss = map (\<lambda>v. case v of SUtf8 s \<Rightarrow> s | _ \<Rightarrow> None) vs"
    by (auto simp: as_string_array_def split: if_split_asm)
  then show "vs = map SUtf8 ss"
  proof (induction vs arbitrary: ss)
    case (Cons v vs)
    then show ?case by (cases v) simp_all
  qed simp
next
  assume "vs = map SUtf8 ss"
  then show "as_string_array vs = Some ss" by (auto simp: as_string_array_def list_all_iff comp_def)
qed

lemma historical_array_values:
  assumes "supports_historical_conversion t"
  shows "fst (historical_array X pointer t ss) = map (\<lambda>r. remainder_value X pointer t (SUtf8 r)) ss"
proof -
  have "t \<noteq> TEid \<and> t \<noteq> TJson" using assms by (auto simp: supports_historical_conversion_def)
  then show ?thesis
    by (simp add: historical_array_def convert_rows_def remainder_value_def Let_def split_def)
qed

lemma map_column_values:
  assumes "resolves p m plan" "remainder_column_ok plan rows"
  shows "\<exists>metrics'. map_column X (projected_batch p rows) (length rows) metrics f m =
    Inr (map (planned_value X f plan) rows, metrics')"
proof (cases plan)
  case (PlanDirect j)
  then obtain i where "m = BatchDirect i" "i < length p" "p ! i = j"
    using assms(1) by (cases m) (auto simp: resolves_def)
  with PlanDirect show ?thesis by (auto simp: map_column_def projected_batch_def planned_value_def)
next
  case (PlanHistorical j pointer t)
  then obtain i where m: "m = BatchHistorical i pointer t" "i < length p" "p ! i = j"
    using assms(1) by (cases m) (auto simp: resolves_def)
  from PlanHistorical assms(2) have t: "supports_historical_conversion t"
    and utf8: "\<forall>row \<in> set rows. \<exists>s. row ! j = SUtf8 s"
    by (auto simp: remainder_column_ok_def)
  from utf8 obtain s where s: "\<forall>row \<in> set rows. row ! j = SUtf8 (s row)" by metis
  then have col: "map (\<lambda>row. row ! j) rows = map SUtf8 (map s rows)" by simp
  then have "as_string_array (projected_batch p rows ! i) = Some (map s rows)"
    using m by (simp add: projected_batch_def as_string_array_map)
  moreover have "map (planned_value X f plan) rows = fst (historical_array X pointer t (map s rows))"
    using s by (simp add: historical_array_values [OF t] PlanHistorical planned_value_def)
  ultimately show ?thesis by (simp add: map_column_def m split_def Let_def)
next
  case PlanNull
  then have "m = BatchNull" using assms(1) by (cases m) (auto simp: resolves_def)
  with PlanNull show ?thesis
    by (simp add: map_column_def planned_value_def map_replicate_const [symmetric])
qed

lemma map_columns_values:
  assumes "list_all2 (\<lambda>f m. \<exists>i. active_index a f = Inr i \<and> resolves p m (cs ! i)) fs ms"
    and "\<And>f i. f \<in> set fs \<Longrightarrow> active_index a f = Inr i \<Longrightarrow> remainder_column_ok (cs ! i) rows"
  shows "\<exists>metrics'. map_columns X (projected_batch p rows) (length rows) metrics (zip fs ms) =
    Inr (map (\<lambda>f. map (planned_value X f (cs ! projr (active_index a f))) rows) fs, metrics')"
  using assms
proof (induction fs ms arbitrary: metrics rule: list_all2_induct)
  case (Cons f fs m ms)
  then obtain i where i: "active_index a f = Inr i" "resolves p m (cs ! i)" by auto
  from map_column_values [OF i(2) Cons.prems [OF _ i(1)], of X metrics f] obtain metrics1 where
    "map_column X (projected_batch p rows) (length rows) metrics f m =
      Inr (map (planned_value X f (cs ! i)) rows, metrics1)" by auto
  moreover obtain metrics2 where
    "map_columns X (projected_batch p rows) (length rows) metrics1 (zip fs ms) =
      Inr (map (\<lambda>f. map (planned_value X f (cs ! projr (active_index a f))) rows) fs, metrics2)"
    using Cons.IH Cons.prems by (meson list.set_intros(2))
  ultimately show ?case using i by simp
qed simp

section \<open>Plans of an accepted history\<close>

text \<open>The schemas that the catalog materializes.\<close>

definition materialized :: "(uuid \<Rightarrow> string) \<Rightarrow> schema \<Rightarrow> bool" where
  "materialized to_s s \<longleftrightarrow>
     (\<exists>i src v d fs. list_all user_field_ok fs \<and> schema_new to_s i src v d fs = Inr s)"

lemma materialized_ok: "materialized to_s s \<Longrightarrow> schema_ok s"
  by (auto simp: materialized_def intro: schema_new_ok)

lemma materialized_fields:
  assumes "materialized to_s s"
  obtains fs where "list_all user_field_ok fs" "sc_fields s = schema_fields_of fs"
    "sc_arrow_schema s = map (field_to_arrow to_s) (sc_fields s)"
  using assms by (auto simp: materialized_def schema_new_Inr)

text \<open>The value of an active field in a stored row.\<close>

definition adapted_value :: "'x scan_env_scheme \<Rightarrow> schema \<Rightarrow> scalar list \<Rightarrow> field \<Rightarrow> scalar" where
  "adapted_value X stored row f =
     (case find_position (\<lambda>g. fld_id g = fld_id f) (sc_fields stored) of
        Some j \<Rightarrow> row ! j
      | None \<Rightarrow> (case fld_historical_remainder_pointer f of
            Some pointer \<Rightarrow> remainder_value X pointer (fld_logical_type f)
              (row ! the (find_position (\<lambda>g. fld_id g = field_id_remainder) (sc_fields stored)))
          | None \<Rightarrow> null_scalar (fld_logical_type f)))"

lemma arrow_null_of [simp]: "arrow_null (logical_type_arrow_data_type t) = null_scalar t"
  by (cases t) simp_all

lemma field_to_arrow_data_type [simp]:
  "af_data_type (field_to_arrow to_s f) = logical_type_arrow_data_type (fld_logical_type f)"
  by (simp add: field_to_arrow_def Let_def)

lemma planned_value_adapts:
  assumes "plan_column stored r f = Inr plan"
    and "find_position (\<lambda>g. fld_id g = field_id_remainder) (sc_fields stored) = Some r"
  shows "planned_value X (field_to_arrow to_s f) plan row = adapted_value X stored row f"
  using assms by (auto simp: plan_column_def planned_value_def adapted_value_def Let_def split: option.split_asm if_split_asm)

text \<open>Adapted values have the type and the nullability of the active field.\<close>

definition stored_row_ok :: "'x engine_env_scheme \<Rightarrow> schema \<Rightarrow> scalar list \<Rightarrow> bool" where
  "stored_row_ok X s row \<longleftrightarrow> length row = length (sc_fields s) \<and>
     (\<forall>j < length row. scalar_ok (fld_logical_type (sc_fields s ! j)) (row ! j) \<and>
        (fld_nullability (sc_fields s ! j) = NonNull \<longrightarrow> \<not> scalar_is_null (row ! j)))"

lemma integer_i64_range: "engine_env_ok X \<Longrightarrow> integer_i64 X v = Some i \<Longrightarrow> in_i64 i"
  by (auto simp: integer_i64_def engine_env_ok_def in_range_def bind_eq_Some_conv split: option.split_asm if_split_asm)

lemma integer_u64_range: "engine_env_ok X \<Longrightarrow> integer_u64 X v = Some i \<Longrightarrow> in_u64 i"
  by (auto simp: integer_u64_def engine_env_ok_def in_range_def bind_eq_Some_conv split: option.split_asm if_split_asm)

lemma historical_float_ok:
  assumes "fp_format_ok F" "historical_float F v = Some x"
  shows "fp_is_finite x \<and> fp_ok F x"
proof -
  from assms(2) obtain n where n: "option_filter fp_is_finite (fp_parse F n) = Some x"
    by (auto simp: historical_float_def bind_eq_Some_conv)
  then have "fp_parse F n = Some x" "fp_is_finite x"
    by (cases "fp_parse F n"; simp add: option_filter_def split: if_split_asm)+
  with fp_parse_ok [OF assms(1)] show ?thesis by simp
qed

lemma historical_value_ok:
  assumes "engine_env_ok X" "historical_value X t v = Some w"
  shows "scalar_ok t w"
proof (cases t)
  case TDatetime
  with assms show ?thesis
    by (auto simp: historical_value_def scalar_ok_def bind_eq_Some_conv historical_datetime_def engine_env_ok_def
        chrono_ok_def split: if_split_asm)
qed (use assms in \<open>auto simp: historical_value_def scalar_ok_def bind_eq_Some_conv in_range_def
      integer_i64_range integer_u64_range split: if_split_asm
      dest: historical_float_ok [OF formats_ok(1)] historical_float_ok [OF formats_ok(2)]\<close>)

lemma remainder_value_ok: "engine_env_ok X \<Longrightarrow> scalar_ok t (remainder_value X pointer t v)"
  by (cases v) (auto simp: remainder_value_def convert_row_def historical_value_ok split: option.split json.split)

lemma adapted_value_ok:
  assumes "engine_env_ok X" "stored_row_ok X stored row" "plan_column stored r f = Inr plan"
  shows "scalar_ok (fld_logical_type f) (adapted_value X stored row f) \<and>
    (fld_nullability f = NonNull \<longrightarrow> \<not> scalar_is_null (adapted_value X stored row f))"
proof (cases "find_position (\<lambda>g. fld_id g = fld_id f) (sc_fields stored)")
  case (Some j)
  with find_position_Some [OF Some] assms show ?thesis
    by (auto simp: plan_column_def adapted_value_def stored_row_ok_def Let_def split: if_split_asm)
next
  case None
  with assms show ?thesis
    by (auto simp: plan_column_def adapted_value_def remainder_value_ok split: option.split if_split_asm)
qed

lemma system_field_attributes:
  assumes "materialized to_s s" "f \<in> set (sc_fields s)" "is_system (fld_id f)"
  shows "(fld_id f, fld_logical_type f, fld_nullability f) \<in>
    {(field_id_event_time, TDatetime, NonNull), (field_id_ingestion_time, TDatetime, NonNull),
     (field_id_event_id, TEid, NonNull), (field_id_remainder, TJson, Nullable)}"
proof -
  from assms(1) obtain fs where fs: "list_all user_field_ok fs" "sc_fields s = schema_fields_of fs"
    by (rule materialized_fields)
  have f: "f \<in> set (schema_fields_of fs)" using assms(2) fs(2) by simp
  have role: "fld_role f \<noteq> RoleData" using schema_fields_of_roles(1) [OF fs(1) f] assms(3) by simp
  have "f \<notin> set (map (\<lambda>(i, u). data_field_of u (i + 3)) (enumerate 0 fs))"
    using role by (auto simp: data_field_of_def)
  with f have "f \<in> {system_field_of field_id_event_time ''@event_time'' TDatetime NonNull RoleEventTime 0,
      system_field_of field_id_ingestion_time ''@ingestion_time'' TDatetime NonNull RoleIngestionTime 1,
      system_field_of field_id_event_id ''@event_id'' TEid NonNull RoleEventId 2,
      system_field_of field_id_remainder ''@rest'' TJson Nullable RoleRemainder (length fs + 3)}"
    unfolding schema_fields_of_def set_append Un_iff by (simp only: list.set) blast
  then show ?thesis by (elim insertE) (simp_all add: system_field_of_def)
qed

lemma system_field_present:
  assumes "materialized to_s s" "is_system i"
  shows "\<exists>f \<in> set (sc_fields s). fld_id f = i"
  using assms by (auto elim!: materialized_fields simp: is_system_def schema_fields_of_def system_field_of_def)

lemma same_identity_same_field:
  assumes "schema_ok s" "f \<in> set (sc_fields s)" "g \<in> set (sc_fields s)" "fld_id f = fld_id g"
  shows "f = g"
  using assms by (auto simp: schema_ok_def distinct_map dest: inj_onD)

lemma data_field_iff:
  assumes "schema_ok s"
  shows "f \<in> set (data_fields s) \<longleftrightarrow> f \<in> set (sc_fields s) \<and> \<not> is_system (fld_id f)"
  using assms by (auto simp: data_fields_def schema_ok_def list_all_iff)

text \<open>Fields of the same identity agree when one schema extends the other.\<close>

lemma additive_agree:
  assumes ok: "schema_ok a" "schema_ok s" and add: "additive s a"
    and f: "f \<in> set (data_fields a)" and g: "g \<in> set (data_fields s)" and id: "fld_id f = fld_id g"
  shows "field_key f = field_key g"
proof -
  from g obtain m where m: "m < length (data_fields s)" "data_fields s ! m = g" by (auto simp: in_set_conv_nth)
  note k = additive_nth [OF add m(1)]
  from k m(2) have "fld_id (data_fields a ! m) = fld_id f" by (simp add: field_key_def id)
  moreover have "data_fields a ! m \<in> set (data_fields a)" using k(1) by simp
  ultimately have "data_fields a ! m = f"
    using f same_identity_same_field [OF ok(1)] data_field_iff [OF ok(1)] by metis
  with k(2) m(2) show ?thesis by simp
qed

lemma identity_attributes_agree:
  assumes m: "materialized to_s a" "materialized to_s' s" and add: "additive s a \<or> additive a s"
    and f: "f \<in> set (sc_fields a)" and g: "g \<in> set (sc_fields s)" and id: "fld_id g = fld_id f"
  shows "fld_logical_type g = fld_logical_type f \<and> fld_nullability g = fld_nullability f"
proof (cases "is_system (fld_id f)")
  case True
  from system_field_attributes [OF m(1) f True] system_field_attributes [OF m(2) g] True id system_field_ids_distinct
  show ?thesis by auto
next
  case False
  note ok = materialized_ok [OF m(1)] materialized_ok [OF m(2)]
  have "f \<in> set (data_fields a)" "g \<in> set (data_fields s)"
    using False f g id by (simp_all add: data_field_iff [OF ok(1)] data_field_iff [OF ok(2)])
  with add additive_agree [OF ok(1,2)] additive_agree [OF ok(2,1)] id show ?thesis
    by (auto simp: field_key_def)
qed

lemma absent_field_nullable:
  assumes m: "materialized to_s a" "materialized to_s' s" and add: "additive s a \<or> additive a s"
    and f: "f \<in> set (sc_fields a)" and absent: "\<forall>g \<in> set (sc_fields s). fld_id g \<noteq> fld_id f"
  shows "fld_nullability f = Nullable \<and> supports_historical_conversion (fld_logical_type f)"
proof -
  note ok = materialized_ok [OF m(1)] materialized_ok [OF m(2)]
  have "\<not> is_system (fld_id f)" using system_field_present [OF m(2)] absent by auto
  then have data: "f \<in> set (data_fields a)" using f by (simp add: data_field_iff [OF ok(1)])
  then obtain n where n: "n < length (data_fields a)" "data_fields a ! n = f" by (auto simp: in_set_conv_nth)
  have not_there: "fld_id (data_fields s ! n) \<noteq> fld_id f" if "n < length (data_fields s)"
    using that absent data_field_iff [OF ok(2)] nth_mem [OF that] by auto
  have "additive s a"
    using add additive_nth [of a s n] n not_there by (auto simp: field_key_def)
  then have "fld_nullability f = Nullable"
    using additive_nth(2) [of s a n] additive_appended [of s a n] n not_there
    by (cases "n < length (data_fields s)") (auto simp: field_key_def)
  moreover have "fld_logical_type f \<noteq> TEid \<and> fld_logical_type f \<noteq> TJson"
    using data ok(1) by (auto simp: data_fields_def schema_ok_def list_all_iff)
  ultimately show ?thesis by (cases "fld_logical_type f") (simp_all add: supports_historical_conversion_def)
qed

lemma plan_column_total:
  assumes "materialized to_s a" "materialized to_s' s" "additive s a \<or> additive a s" "f \<in> set (sc_fields a)"
  shows "\<exists>plan. plan_column s r f = Inr plan"
proof (cases "find_position (\<lambda>g. fld_id g = fld_id f) (sc_fields s)")
  case (Some j)
  with find_position_Some [OF Some] identity_attributes_agree [OF assms, of "sc_fields s ! j"] show ?thesis
    by (simp add: plan_column_def Let_def)
next
  case None
  then have "\<forall>g \<in> set (sc_fields s). fld_id g \<noteq> fld_id f" by (simp add: find_position_None)
  from absent_field_nullable [OF assms this] None show ?thesis
    by (cases "fld_historical_remainder_pointer f") (simp_all add: plan_column_def)
qed

lemma remainder_position:
  assumes "materialized to_s s"
  obtains r where "find_position (\<lambda>f. fld_id f = field_id_remainder) (sc_fields s) = Some r" "r < length (sc_fields s)"
    "fld_logical_type (sc_fields s ! r) = TJson"
proof -
  have sys: "is_system field_id_remainder" by (simp add: is_system_def)
  have "find_position (\<lambda>f. fld_id f = field_id_remainder) (sc_fields s) \<noteq> None"
    unfolding find_position_None using system_field_present [OF assms sys] by blast
  then obtain r where r: "find_position (\<lambda>f. fld_id f = field_id_remainder) (sc_fields s) = Some r" by blast
  from find_position_Some [OF r] have bound: "r < length (sc_fields s)" and id: "fld_id (sc_fields s ! r) = field_id_remainder"
    by auto
  have "fld_logical_type (sc_fields s ! r) = TJson"
    using system_field_attributes [OF assms, of "sc_fields s ! r"] bound sys system_field_ids_distinct
    unfolding id by auto
  with r bound show thesis by (rule that)
qed

lemma plan_build_total:
  assumes "materialized to_s a" "materialized to_s' s" "additive s a \<or> additive a s" "sc_source_id a = sc_source_id s"
  shows "\<exists>plan. stored_schema_plan_build a s = Inr plan"
proof -
  obtain r where r: "find_position (\<lambda>f. fld_id f = field_id_remainder) (sc_fields s) = Some r"
    using remainder_position [OF assms(2)] by blast
  obtain columns where "traverse (plan_column s r) (sc_fields a) = Inr columns"
    using traverse_total [of "sc_fields a" "plan_column s r"] plan_column_total [OF assms(1-3)] by blast
  with r assms(4) show ?thesis by (simp add: stored_schema_plan_build_def)
qed

text \<open>The columns that the adapter hands to the scan.\<close>

lemma scan_columns:
  assumes m: "materialized to_s a" "materialized to_s' s" and "inj to_s"
    and build: "stored_schema_plan_build a s = Inr plan"
    and adapter: "ad_active_arrow_schema d = sc_arrow_schema a" "map_schema d file = Inr (mappings, projection)"
      "adapter_plan d file = Inr plan" "ad_projected_table_schema d = map (field_to_arrow to_s) fs"
    and fs: "set fs \<subseteq> set (sc_fields a)"
    and rows: "\<forall>row \<in> set rows. stored_row_ok X s row"
  shows "\<exists>metrics'. map_columns X (projected_batch projection rows) (length rows) metrics
      (zip (ad_projected_table_schema d) mappings) =
    Inr (map (\<lambda>f. map (\<lambda>row. adapted_value X s row f) rows) fs, metrics')"
proof -
  obtain r where r: "find_position (\<lambda>f. fld_id f = field_id_remainder) (sc_fields s) = Some r" "r < length (sc_fields s)"
    "fld_logical_type (sc_fields s ! r) = TJson"
    using remainder_position [OF m(2)] by blast
  with build have cols: "traverse (plan_column s r) (sc_fields a) = Inr (sp_columns plan)"
    by (auto simp: stored_schema_plan_build_def result_simps split: if_split_asm)
  have arrow: "sc_arrow_schema a = map (field_to_arrow to_s) (sc_fields a)"
    using m(1) by (blast elim: materialized_fields)
  have index: "\<exists>i < length (sc_fields a). active_index d (field_to_arrow to_s f) = Inr i \<and> sc_fields a ! i = f"
    if "f \<in> set (sc_fields a)" for f
  proof -
    have "find_position (\<lambda>x. x = field_to_arrow to_s f) (sc_arrow_schema a) \<noteq> None"
      using that by (auto simp: find_position_None arrow)
    then obtain i where i: "find_position (\<lambda>x. x = field_to_arrow to_s f) (sc_arrow_schema a) = Some i" by auto
    from find_position_Some [OF i] have i': "i < length (sc_fields a)" "field_to_arrow to_s (sc_fields a ! i) = field_to_arrow to_s f"
      by (auto simp: arrow)
    have "sc_fields a ! i = f"
      using same_identity_same_field [OF materialized_ok [OF m(1)], of "sc_fields a ! i" f] that i'
        field_to_arrow_eq(1) [OF assms(3) i'(2)] by simp
    with i i'(1) show ?thesis by (auto simp: active_index_def adapter(1))
  qed
  have column: "plan_column s r (sc_fields a ! i) = Inr (sp_columns plan ! i)" if "i < length (sc_fields a)" for i
    using cols that by (simp add: traverse_eq_Inr list_all2_conv_all_nth)
  have remainder: "remainder_column_ok (sp_columns plan ! i) rows" if "i < length (sc_fields a)" for i
  proof -
    have "\<exists>x. row ! r = SUtf8 x" if "row \<in> set rows" for row
    proof -
      have "stored_row_ok X s row" using rows that by blast
      then have "scalar_ok (fld_logical_type (sc_fields s ! r)) (row ! r)" using r(2) by (simp add: stored_row_ok_def)
      then have "scalar_ok TJson (row ! r)" by (simp add: r(3))
      then show ?thesis by (cases "row ! r") (simp_all add: scalar_ok_def)
    qed
    with column [OF that] show ?thesis
      by (cases "sp_columns plan ! i")
        (auto simp: remainder_column_ok_def plan_column_def Let_def split: option.split_asm if_split_asm)
  qed
  from adapter(2,3) have "map_fields d plan [] (ad_projected_table_schema d) = Inr (mappings, projection)"
    by (simp add: map_schema_def)
  from map_fields_resolves [OF this]
  have resolved: "list_all2 (\<lambda>f m. \<exists>i. active_index d f = Inr i \<and> resolves projection m (sp_columns plan ! i))
      (map (field_to_arrow to_s) fs) mappings"
    by (simp add: adapter(4))
  have ok: "remainder_column_ok (sp_columns plan ! i) rows"
    if "f \<in> set (map (field_to_arrow to_s) fs)" "active_index d f = Inr i" for f i
    using that fs index remainder by fastforce
  have value_eq: "planned_value X (field_to_arrow to_s f) (sp_columns plan ! projr (active_index d (field_to_arrow to_s f))) row =
      adapted_value X s row f" if "f \<in> set fs" for f row
    using index [of f] fs that column planned_value_adapts [OF _ r(1)] by fastforce
  have "\<exists>metrics'. map_columns X (projected_batch projection rows) (length rows) metrics
      (zip (map (field_to_arrow to_s) fs) mappings) =
    Inr (map (\<lambda>f. map (planned_value X f (sp_columns plan ! projr (active_index d f))) rows)
      (map (field_to_arrow to_s) fs), metrics')"
    using map_columns_values [OF resolved, of rows X metrics] ok by blast
  moreover have "map (\<lambda>f. map (planned_value X f (sp_columns plan ! projr (active_index d f))) rows)
      (map (field_to_arrow to_s) fs) = map (\<lambda>f. map (\<lambda>row. adapted_value X s row f) rows) fs"
    by (simp add: value_eq)
  ultimately show ?thesis unfolding adapter(4) by (simp only:)
qed

end
