(* ===== verification/Engine_Result.thy ===== *)
theory Engine_Result
  imports Engine_Scan "HOL-Library.Char_ord" "HOL-Library.List_Lexorder"
begin

text \<open>
  Execution limits (\<open>elucid-engine/src/limits.rs\<close>), the guard of an execution
  (\<open>execution.rs\<close>) and the encoding of a result (\<open>result.rs\<close>). A batch is a list of
  columns, a column the list of its values; the physical type of an array is the variant of its
  values. The stream of batches is the list of what it yields. The clock and the cancellation
  token are what the successive checks observe; the memory pool is the parameter \<open>try_grow\<close>.
  The target has 64-bit \<open>usize\<close>, so that the conversions between \<open>usize\<close> and \<open>u64\<close> hold.
\<close>

section \<open>Limits\<close>

datatype query_execution_limit =
    LimitScanBytes | LimitMemoryBytes | LimitScratchCapacityBytes | LimitResultRows | LimitResultBytes

record query_execution_limits =
  ql_timeout :: nat
  ql_maximum_scan_bytes :: nat
  ql_memory_bytes :: nat
  ql_scratch_path :: string
  ql_scratch_capacity_bytes :: nat
  ql_maximum_result_rows :: nat
  ql_maximum_result_bytes :: nat

datatype query_execution_limits_error =
    TimeoutMustBePositive | TimeoutUnsupported | LimitMustBePositive query_execution_limit
  | MemorySizeUnsupported | ScratchPathMustNotBeEmpty | ResultBytesTooSmall | ResultBytesExceedMemory

definition EMPTY_ENCODED_ROWS_BYTES :: nat where
  "EMPTY_ENCODED_ROWS_BYTES = 2"

definition MAXIMUM_ENCODED_QUERY_ROW_BYTES :: nat where
  "MAXIMUM_ENCODED_QUERY_ROW_BYTES = 1048576"

text \<open>
  The configuration has the components of the limits. \<open>later\<close> is the monotonic clock's
  \<open>Instant::now().checked_add\<close>, and \<open>usize_max\<close> the platform's.
\<close>

definition query_execution_limits_new ::
  "(nat \<Rightarrow> nat option) \<Rightarrow> nat \<Rightarrow> query_execution_limits \<Rightarrow>
   query_execution_limits_error + query_execution_limits" where
  "query_execution_limits_new later usize_max configuration =
     (if ql_timeout configuration = 0 then Inl TimeoutMustBePositive
      else if later (ql_timeout configuration) = None then Inl TimeoutUnsupported
      else sbind (for_each (\<lambda>(limit, value). ensure (value \<noteq> 0) (LimitMustBePositive limit))
          [(LimitScanBytes, ql_maximum_scan_bytes configuration),
           (LimitMemoryBytes, ql_memory_bytes configuration),
           (LimitScratchCapacityBytes, ql_scratch_capacity_bytes configuration),
           (LimitResultRows, ql_maximum_result_rows configuration),
           (LimitResultBytes, ql_maximum_result_bytes configuration)]) (\<lambda>_.
        if ql_scratch_path configuration = [] then Inl ScratchPathMustNotBeEmpty
        else if ql_maximum_result_bytes configuration < EMPTY_ENCODED_ROWS_BYTES then Inl ResultBytesTooSmall
        else if ql_maximum_result_bytes configuration > ql_memory_bytes configuration
        then Inl ResultBytesExceedMemory
        else if ql_memory_bytes configuration > usize_max then Inl MemorySizeUnsupported
        else if ql_maximum_result_rows configuration = 0 then Inl (LimitMustBePositive LimitResultRows)
        else Inr configuration))"

datatype query_output_row_limit_error = MustBePositive | ExceedsConfiguredMaximum nat

definition output_row_limit :: "query_execution_limits \<Rightarrow> nat \<Rightarrow> query_output_row_limit_error + nat" where
  "output_row_limit limits requested =
     (if requested = 0 then Inl MustBePositive
      else if requested > ql_maximum_result_rows limits
      then Inl (ExceedsConfiguredMaximum (ql_maximum_result_rows limits))
      else Inr requested)"

section \<open>The guard\<close>

definition ensure_active :: "nat \<Rightarrow> bool \<times> nat \<Rightarrow> engine_error + unit" where
  "ensure_active deadline observation = (case observation of (cancelled, now) \<Rightarrow>
     if cancelled then Inl engine_cancelled
     else if now \<ge> deadline then Inl engine_timeout
     else Inr ())"

text \<open>The \<open>k\<close>-th check of an execution sees the \<open>k\<close>-th observation.\<close>

record guard =
  gd_deadline :: nat
  gd_observations :: "nat \<Rightarrow> bool \<times> nat"

definition check_active :: "guard \<Rightarrow> nat \<Rightarrow> engine_error + nat" where
  "check_active g k = sbind (ensure_active (gd_deadline g) (gd_observations g k)) (\<lambda>_. Inr (Suc k))"

section \<open>Values\<close>

lemma json_member_size: "(k, v) \<in> set ms \<Longrightarrow> size v < Suc (size_list (size_prod (\<lambda>_. 0) size) ms)"
  by (induction ms) auto

function (sequential) canonicalize_json :: "json \<Rightarrow> json" where
  "canonicalize_json (JArray values) = JArray (map canonicalize_json values)"
| "canonicalize_json (JObject values) =
     JObject (map (\<lambda>(key, value). (key, canonicalize_json value)) (sort_key fst values))"
| "canonicalize_json scalar = scalar"
  by pat_completeness auto

termination canonicalize_json
  by (relation "measure size") (auto simp: json_member_size less_Suc_eq_le size_list_estimation')

record result_env = scan_env +
  number_from_f64 :: "fp \<Rightarrow> string option"

definition encode_float :: "'x result_env_scheme \<Rightarrow> fp \<Rightarrow> engine_error + json" where
  "encode_float X value = map_sum id JNumber
     (ok_or (number_from_f64 X value) (evaluation_invariant ''query produced a non-finite float''))"

definition downcast_error :: engine_error where
  "downcast_error = execution_invariant ''query result array has an unexpected physical type''"

definition event_id_try_from_slice :: "bytes \<Rightarrow> bytes option" where
  "event_id_try_from_slice bs = (if length bs = 16 then Some bs else None)"

definition encode_value :: "'x result_env_scheme \<Rightarrow> scalar \<Rightarrow> ir_field \<Rightarrow> engine_error + json" where
  "encode_value X value field =
     (if scalar_is_null value
      then if if_nullability field = NonNull
        then Inl (execution_invariant ''query produced null for a non-null typed field'')
        else Inr JNull
      else case if_logical_type field of
        TBool \<Rightarrow> (case value of SBoolean (Some v) \<Rightarrow> Inr (JBool v) | _ \<Rightarrow> Inl downcast_error)
      | TInt32 \<Rightarrow> (case value of SInt32 (Some v) \<Rightarrow> Inr (JNumber (int_to_string v)) | _ \<Rightarrow> Inl downcast_error)
      | TInt64 \<Rightarrow> (case value of SInt64 (Some v) \<Rightarrow> Inr (JString (int_to_string v)) | _ \<Rightarrow> Inl downcast_error)
      | TUInt32 \<Rightarrow> (case value of SUInt32 (Some v) \<Rightarrow> Inr (JNumber (int_to_string v)) | _ \<Rightarrow> Inl downcast_error)
      | TUInt64 \<Rightarrow> (case value of SUInt64 (Some v) \<Rightarrow> Inr (JString (int_to_string v)) | _ \<Rightarrow> Inl downcast_error)
      | TFloat32 \<Rightarrow> (case value of SFloat32 (Some v) \<Rightarrow> encode_float X v | _ \<Rightarrow> Inl downcast_error)
      | TFloat64 \<Rightarrow> (case value of SFloat64 (Some v) \<Rightarrow> encode_float X v | _ \<Rightarrow> Inl downcast_error)
      | TUtf8 \<Rightarrow> (case value of SUtf8 (Some v) \<Rightarrow> Inr (JString v) | _ \<Rightarrow> Inl downcast_error)
      | TDatetime \<Rightarrow> (case value of
            STimestampMillisecond (Some milliseconds) _ \<Rightarrow> map_sum id JString
              (ok_or (timestamp_millis_to_rfc3339 X milliseconds)
                (corrupt_object_invariant ''published datetime is outside the supported RFC 3339 range''))
          | _ \<Rightarrow> Inl downcast_error)
      | TEid \<Rightarrow> (case value of
            SFixedSizeBinary _ (Some v) \<Rightarrow> map_sum id (JString \<circ> event_id_display)
              (ok_or (event_id_try_from_slice v)
                (execution_invariant ''query produced an event identity with invalid width''))
          | _ \<Rightarrow> Inl downcast_error)
      | TJson \<Rightarrow> (case value of
            SUtf8 (Some v) \<Rightarrow> map_sum id canonicalize_json (ok_or (json_from_str X v) (corrupt_object SourceJson))
          | _ \<Rightarrow> Inl downcast_error))"

section \<open>Batches\<close>

record record_batch =
  rb_fields :: "(string \<times> arrow_data_type) list"
  rb_columns :: "scalar list list"
  rb_num_rows :: nat

definition validate_batch :: "record_batch \<Rightarrow> relation \<Rightarrow> engine_error + unit" where
  "validate_batch batch relation =
     (if length (rb_columns batch) \<noteq> length relation
      then Inl (execution_invariant ''query result width contradicts its typed relation'')
      else for_each (\<lambda>((name, data_type), logical).
          ensure (name = if_name logical \<and> data_type = logical_type_arrow_data_type (if_logical_type logical))
            (execution_invariant ''query result field contradicts its typed relation''))
        (zip (rb_fields batch) relation))"

definition encode_row :: "'x result_env_scheme \<Rightarrow> record_batch \<Rightarrow> relation \<Rightarrow> nat \<Rightarrow> engine_error + json list" where
  "encode_row X batch relation row_index =
     traverse (\<lambda>(array, field). encode_value X (array ! row_index) field) (zip (rb_columns batch) relation)"

section \<open>The builder\<close>

datatype query_truncation_reason = OutputRows | OutputBytes

datatype push_outcome = Accepted | Truncated query_truncation_reason

record 'm query_result_builder =
  qb_rows :: "json list list"
  qb_output_bytes :: nat
  qb_maximum_rows :: nat
  qb_maximum_bytes :: nat
  qb_maximum_row_bytes :: nat
  qb_memory_reservation :: 'm

type_synonym 'm memory_pool = "'m \<Rightarrow> nat \<Rightarrow> 'm option"

definition query_result_builder_new ::
  "'m memory_pool \<Rightarrow> 'm \<Rightarrow> query_execution_limits \<Rightarrow> nat \<Rightarrow> engine_error + 'm query_result_builder" where
  "query_result_builder_new try_grow reservation limits row_limit =
     sbind (ok_or (try_grow reservation EMPTY_ENCODED_ROWS_BYTES) resources_exhausted) (\<lambda>memory_reservation.
     Inr \<lparr>qb_rows = [], qb_output_bytes = EMPTY_ENCODED_ROWS_BYTES, qb_maximum_rows = row_limit,
          qb_maximum_bytes = ql_maximum_result_bytes limits,
          qb_maximum_row_bytes = MAXIMUM_ENCODED_QUERY_ROW_BYTES,
          qb_memory_reservation = memory_reservation\<rparr>)"

definition push_row ::
  "'m memory_pool \<Rightarrow> 'x result_env_scheme \<Rightarrow> 'm query_result_builder \<Rightarrow> record_batch \<Rightarrow> relation \<Rightarrow> nat \<Rightarrow>
   engine_error + push_outcome \<times> 'm query_result_builder" where
  "push_row try_grow X builder batch relation row_index =
     (if length (qb_rows builder) \<ge> qb_maximum_rows builder then Inr (Truncated OutputRows, builder)
      else
        sbind (encode_row X batch relation row_index) (\<lambda>row.
        sbind (ok_or (json_to_string X (JArray row)) (engine_execution SourceJson)) (\<lambda>encoded.
        let encoded_row_bytes = length encoded in
        if encoded_row_bytes > qb_maximum_row_bytes builder
        then Inl (resource_limit (EncodedRowBytes (qb_maximum_row_bytes builder)))
        else let separator_bytes = (if qb_rows builder = [] then 0 else 1) in
        sbind (ok_or (checked_add encoded_row_bytes separator_bytes)
                 (execution_invariant ''query result byte count overflowed'')) (\<lambda>additional_bytes.
        sbind (ok_or (checked_add (qb_output_bytes builder) additional_bytes)
                 (execution_invariant ''query result byte count overflowed'')) (\<lambda>candidate_bytes.
        if candidate_bytes > qb_maximum_bytes builder then Inr (Truncated OutputBytes, builder)
        else
          sbind (ok_or (try_grow (qb_memory_reservation builder) additional_bytes) resources_exhausted)
            (\<lambda>memory_reservation.
          Inr (Accepted, builder\<lparr>qb_rows := qb_rows builder @ [row], qb_output_bytes := candidate_bytes,
                                 qb_memory_reservation := memory_reservation\<rparr>)))))))"

section \<open>Encoding a result\<close>

datatype query_completion = CompleteResult | TruncatedResult query_truncation_reason

record query_column =
  qc_name :: string
  qc_logical_type :: logical_type
  qc_nullability :: nullability

record query_execution_statistics =
  qs_selected_segments :: nat
  qs_selected_parquet_bytes :: nat
  qs_output_rows :: nat
  qs_output_bytes :: nat
  qs_elapsed_milliseconds :: nat

record query_result =
  qr_columns :: "query_column list"
  qr_rows :: "json list list"
  qr_completion :: query_completion
  qr_diagnostics :: "diagnostic list"
  qr_statistics :: query_execution_statistics

text \<open>What the encoder reads of a \<open>QuerySnapshot\<close>, and the time that has elapsed when it finishes.\<close>

record encoded_snapshot =
  es_relation :: relation
  es_diagnostics :: "diagnostic list"
  es_segment_count :: nat
  es_selected_parquet_bytes :: nat
  es_elapsed_milliseconds :: nat

definition finish_result ::
  "encoded_snapshot \<Rightarrow> query_column list \<Rightarrow> 'm query_result_builder \<Rightarrow> query_completion \<Rightarrow> engine_error + query_result" where
  "finish_result snapshot columns builder completion =
     (if es_elapsed_milliseconds snapshot > u64_max
      then Inl (execution_invariant ''query elapsed time exceeds millisecond statistics'')
      else Inr \<lparr>qr_columns = columns, qr_rows = qb_rows builder, qr_completion = completion,
                qr_diagnostics = es_diagnostics snapshot,
                qr_statistics = \<lparr>qs_selected_segments = es_segment_count snapshot,
                  qs_selected_parquet_bytes = es_selected_parquet_bytes snapshot,
                  qs_output_rows = length (qb_rows builder), qs_output_bytes = qb_output_bytes builder,
                  qs_elapsed_milliseconds = es_elapsed_milliseconds snapshot\<rparr>\<rparr>)"

text \<open>The loop over the rows of a batch, and the loop over the batches.\<close>

fun push_rows ::
  "'m memory_pool \<Rightarrow> 'x result_env_scheme \<Rightarrow> guard \<Rightarrow> record_batch \<Rightarrow> relation \<Rightarrow> nat list \<Rightarrow> nat \<Rightarrow>
   'm query_result_builder \<Rightarrow> engine_error + query_truncation_reason option \<times> nat \<times> 'm query_result_builder" where
  "push_rows try_grow X g batch relation [] k builder = Inr (None, k, builder)"
| "push_rows try_grow X g batch relation (row_index # rest) k builder =
     sbind (check_active g k) (\<lambda>k.
     sbind (push_row try_grow X builder batch relation row_index) (\<lambda>(outcome, builder).
     case outcome of
       Accepted \<Rightarrow> push_rows try_grow X g batch relation rest k builder
     | Truncated reason \<Rightarrow> Inr (Some reason, k, builder)))"

fun encode_batches ::
  "'m memory_pool \<Rightarrow> 'x result_env_scheme \<Rightarrow> guard \<Rightarrow> encoded_snapshot \<Rightarrow> query_column list \<Rightarrow> nat \<Rightarrow>
   'm query_result_builder \<Rightarrow> (engine_error + record_batch) list \<Rightarrow> engine_error + query_result" where
  "encode_batches try_grow X g snapshot columns k builder [] =
     finish_result snapshot columns builder CompleteResult"
| "encode_batches try_grow X g snapshot columns k builder (batch # batches) =
     sbind (check_active g k) (\<lambda>k.
     sbind batch (\<lambda>batch.
     sbind (validate_batch batch (es_relation snapshot)) (\<lambda>_.
     sbind (push_rows try_grow X g batch (es_relation snapshot) [0..<rb_num_rows batch] k builder)
       (\<lambda>(truncated, k, builder).
     case truncated of
       Some reason \<Rightarrow> finish_result snapshot columns builder (TruncatedResult reason)
     | None \<Rightarrow> sbind (check_active g k) (\<lambda>k.
         encode_batches try_grow X g snapshot columns k builder batches)))))"

definition encode_query_result ::
  "'m memory_pool \<Rightarrow> 'm \<Rightarrow> 'x result_env_scheme \<Rightarrow> guard \<Rightarrow> encoded_snapshot \<Rightarrow> query_execution_limits \<Rightarrow> nat \<Rightarrow>
   (engine_error + record_batch) list \<Rightarrow> engine_error + query_result" where
  "encode_query_result try_grow reservation X g snapshot limits row_limit batches =
     sbind (check_active g 0) (\<lambda>k.
     let columns = map (\<lambda>f. \<lparr>qc_name = if_name f, qc_logical_type = if_logical_type f,
                             qc_nullability = if_nullability f\<rparr>) (es_relation snapshot) in
     sbind (query_result_builder_new try_grow reservation limits row_limit) (\<lambda>builder.
     encode_batches try_grow X g snapshot columns k builder batches))"

section \<open>Failures of DataFusion\<close>

datatype datafusion_error =
    DfResourcesExhausted | DfContext datafusion_error | DfDiagnostic datafusion_error
  | DfShared datafusion_error | DfCollection "datafusion_error list"
  | DfOther

fun contains_resource_exhaustion :: "datafusion_error \<Rightarrow> bool" where
  "contains_resource_exhaustion DfResourcesExhausted = True"
| "contains_resource_exhaustion (DfContext source) = contains_resource_exhaustion source"
| "contains_resource_exhaustion (DfDiagnostic source) = contains_resource_exhaustion source"
| "contains_resource_exhaustion (DfShared source) = contains_resource_exhaustion source"
| "contains_resource_exhaustion (DfCollection sources) = list_ex contains_resource_exhaustion sources"
| "contains_resource_exhaustion DfOther = False"

definition MAXIMUM_ERROR_CHAIN_DEPTH :: nat where
  "MAXIMUM_ERROR_CHAIN_DEPTH = 32"

text \<open>
  The chain of an error is what \<open>downcast_ref\<close> finds at the error, its source, the source of that,
  and so on.
\<close>

definition runtime_failure_kind_of :: "runtime_failure_kind option list \<Rightarrow> runtime_failure_kind option" where
  "runtime_failure_kind_of chain =
     (case find (\<lambda>f. f \<noteq> None) (take MAXIMUM_ERROR_CHAIN_DEPTH chain) of Some f \<Rightarrow> f | None \<Rightarrow> None)"

definition map_datafusion_error ::
  "(datafusion_error \<Rightarrow> runtime_failure_kind option list) \<Rightarrow> datafusion_error \<Rightarrow> engine_error" where
  "map_datafusion_error chain source =
     (if contains_resource_exhaustion source then resources_exhausted
      else case runtime_failure_kind_of (chain source) of
        Some CastFailure \<Rightarrow> cast_failed
      | Some EvaluationFailure \<Rightarrow> evaluation_failed
      | Some ExecutionFailure \<Rightarrow> engine_execution SourceDataFusion
      | None \<Rightarrow> engine_execution SourceDataFusion)"

section \<open>Canonical JSON\<close>

fun json_keys_distinct :: "json \<Rightarrow> bool" where
  "json_keys_distinct (JArray vs) = (\<forall>v \<in> set vs. json_keys_distinct v)"
| "json_keys_distinct (JObject ms) = (distinct (map fst ms) \<and> (\<forall>m \<in> set ms. json_keys_distinct (snd m)))"
| "json_keys_distinct _ = True"

fun json_sorted :: "json \<Rightarrow> bool" where
  "json_sorted (JArray vs) = (\<forall>v \<in> set vs. json_sorted v)"
| "json_sorted (JObject ms) = (sorted (map fst ms) \<and> (\<forall>m \<in> set ms. json_sorted (snd m)))"
| "json_sorted _ = True"

lemma canonicalize_json_sorted: "json_sorted (canonicalize_json v)"
  by (induction v rule: canonicalize_json.induct) (auto simp: comp_def case_prod_beta)

lemma canonicalize_json_id: "json_sorted v \<Longrightarrow> canonicalize_json v = v"
proof (induction v rule: canonicalize_json.induct)
  case (2 ms)
  then have "sort_key fst ms = ms" by (simp add: sorted_sort_id sort_key_id_if_sorted)
  with 2 show ?case by (auto intro!: map_idI)
qed (auto intro: map_idI)

lemma map_of_sort_key:
  assumes "distinct (map fst ms)"
  shows "map_of (sort_key fst ms) = map_of ms"
proof -
  from assms have "distinct (map fst (sort_key fst ms))" by (simp add: distinct_map)
  with assms show ?thesis by (subst map_of_inject_set) simp_all
qed

text \<open>Canonicalization keeps the members of an object.\<close>

lemma canonicalize_json_member:
  assumes "distinct (map fst ms)" "canonicalize_json (JObject ms) = JObject cs"
  shows "map_of cs key = map_option canonicalize_json (map_of ms key)"
proof -
  have "cs = map (\<lambda>(k, v). (k, canonicalize_json v)) (sort_key fst ms)" using assms(2) by simp
  then show ?thesis using assms(1) by (simp add: map_of_map map_of_sort_key)
qed

section \<open>Rows and bytes\<close>

definition encoded_length :: "'x result_env_scheme \<Rightarrow> json list \<Rightarrow> nat" where
  "encoded_length X row = (case json_to_string X (JArray row) of Some s \<Rightarrow> length s | None \<Rightarrow> 0)"

text \<open>The size of the rows as one compact JSON array: brackets, rows and commas.\<close>

definition rows_bytes :: "'x result_env_scheme \<Rightarrow> json list list \<Rightarrow> nat" where
  "rows_bytes X rows = 2 + sum_list (map (encoded_length X) rows) + (length rows - 1)"

lemma rows_bytes_snoc:
  "rows_bytes X (rows @ [row]) = rows_bytes X rows + (encoded_length X row + (if rows = [] then 0 else 1))"
  by (cases rows) (simp_all add: rows_bytes_def)

definition builder_ok :: "'x result_env_scheme \<Rightarrow> 'm query_result_builder \<Rightarrow> bool" where
  "builder_ok X b \<longleftrightarrow> qb_output_bytes b = rows_bytes X (qb_rows b) \<and> qb_output_bytes b \<le> qb_maximum_bytes b \<and>
     length (qb_rows b) \<le> qb_maximum_rows b \<and>
     list_all (\<lambda>row. json_to_string X (JArray row) \<noteq> None \<and> encoded_length X row \<le> qb_maximum_row_bytes b) (qb_rows b)"

definition same_limits :: "'m query_result_builder \<Rightarrow> 'm query_result_builder \<Rightarrow> bool" where
  "same_limits b c \<longleftrightarrow> qb_maximum_rows c = qb_maximum_rows b \<and> qb_maximum_bytes c = qb_maximum_bytes b \<and>
     qb_maximum_row_bytes c = qb_maximum_row_bytes b"

text \<open>Why a builder takes no further row.\<close>

definition stopped ::
  "'x result_env_scheme \<Rightarrow> relation \<Rightarrow> 'm query_result_builder \<Rightarrow> query_truncation_reason \<Rightarrow> record_batch \<times> nat \<Rightarrow> bool" where
  "stopped X relation b reason position = (case reason of
       OutputRows \<Rightarrow> length (qb_rows b) = qb_maximum_rows b
     | OutputBytes \<Rightarrow> (case encode_row X (fst position) relation (snd position) of
           Inr row \<Rightarrow> rows_bytes X (qb_rows b @ [row]) > qb_maximum_bytes b
         | Inl _ \<Rightarrow> False))"

lemma push_row_cases:
  assumes "push_row try_grow X b batch relation i = Inr (outcome, c)" "builder_ok X b"
  shows "case outcome of
      Accepted \<Rightarrow> (\<exists>row. encode_row X batch relation i = Inr row \<and> qb_rows c = qb_rows b @ [row]) \<and>
        builder_ok X c \<and> same_limits b c
    | Truncated reason \<Rightarrow> c = b \<and> stopped X relation b reason (batch, i)"
proof (cases "length (qb_rows b) \<ge> qb_maximum_rows b")
  case True
  with assms show ?thesis by (auto simp: push_row_def stopped_def builder_ok_def)
next
  case False
  with assms(1) obtain row encoded where row: "encode_row X batch relation i = Inr row"
    and encoded: "json_to_string X (JArray row) = Some encoded"
    and small: "length encoded \<le> qb_maximum_row_bytes b"
    by (auto simp: push_row_def result_simps Let_def split: if_split_asm)
  let ?more = "length encoded + (if qb_rows b = [] then 0 else 1)"
  have bytes: "rows_bytes X (qb_rows b @ [row]) = qb_output_bytes b + ?more"
    using assms(2) encoded by (simp add: rows_bytes_snoc encoded_length_def builder_ok_def)
  show ?thesis
  proof (cases "qb_output_bytes b + ?more > qb_maximum_bytes b")
    case True
    with assms(1) False row encoded small bytes show ?thesis
      by (auto simp: push_row_def result_simps Let_def stopped_def split: if_split_asm)
  next
    case fits: False
    with assms(1) False row encoded small obtain m where
      c: "outcome = Accepted" "c = b\<lparr>qb_rows := qb_rows b @ [row], qb_output_bytes := qb_output_bytes b + ?more,
        qb_memory_reservation := m\<rparr>"
      by (auto simp: push_row_def result_simps Let_def split: if_split_asm)
    from assms(2) False fits bytes row encoded small show ?thesis
      unfolding c by (simp add: builder_ok_def same_limits_def encoded_length_def)
  qed
qed

text \<open>A builder takes the rows at the leading positions, and stops only for a reason.\<close>

definition takes ::
  "'x result_env_scheme \<Rightarrow> relation \<Rightarrow> (record_batch \<times> nat) list \<Rightarrow> 'm query_result_builder \<Rightarrow>
   query_truncation_reason option \<Rightarrow> 'm query_result_builder \<Rightarrow> bool" where
  "takes X relation positions b truncated c \<longleftrightarrow>
     (\<exists>n rows. n \<le> length positions \<and>
        traverse (\<lambda>(batch, i). encode_row X batch relation i) (take n positions) = Inr rows \<and>
        qb_rows c = qb_rows b @ rows \<and> builder_ok X c \<and> same_limits b c \<and>
        (case truncated of
           None \<Rightarrow> n = length positions
         | Some reason \<Rightarrow> n < length positions \<and> stopped X relation c reason (positions ! n)))"

lemma takes_Nil: "builder_ok X b \<Longrightarrow> takes X relation [] b None b"
  by (auto simp: takes_def same_limits_def)

lemma takes_append:
  assumes "takes X relation ps b None c" "takes X relation qs c t d"
  shows "takes X relation (ps @ qs) b t d"
proof -
  from assms(1) obtain us where us: "traverse (\<lambda>(batch, i). encode_row X batch relation i) ps = Inr us"
      "qb_rows c = qb_rows b @ us" "same_limits b c"
    by (auto simp: takes_def)
  from assms(2) obtain n vs where "n \<le> length qs"
      "traverse (\<lambda>(batch, i). encode_row X batch relation i) (take n qs) = Inr vs"
      "qb_rows d = qb_rows c @ vs" "builder_ok X d" "same_limits c d"
      "case t of None \<Rightarrow> n = length qs | Some r \<Rightarrow> n < length qs \<and> stopped X relation d r (qs ! n)"
    by (auto simp: takes_def)
  with us show ?thesis
    unfolding takes_def
    by (intro exI [of _ "length ps + n"] exI [of _ "us @ vs"])
      (cases t; simp add: traverse_append same_limits_def)
qed

lemma takes_prefix:
  assumes "takes X relation ps b (Some r) c"
  shows "takes X relation (ps @ qs) b (Some r) c"
  using assms unfolding takes_def by (auto simp: nth_append)

lemma push_rows_takes:
  "push_rows try_grow X g batch relation is k b = Inr (t, k', c) \<Longrightarrow> builder_ok X b \<Longrightarrow>
   takes X relation (map (Pair batch) is) b t c"
proof (induction "is" arbitrary: k b)
  case Nil
  then show ?case by (auto intro: takes_Nil)
next
  case (Cons i rest)
  then obtain k1 outcome b1 where push: "push_row try_grow X b batch relation i = Inr (outcome, b1)"
    and more: "(case outcome of Accepted \<Rightarrow> push_rows try_grow X g batch relation rest k1 b1
        | Truncated r \<Rightarrow> Inr (Some r, k1, b1)) = Inr (t, k', c)"
    by (auto simp: result_simps)
  note cases = push_row_cases [OF push Cons.prems(2)]
  show ?case
  proof (cases outcome)
    case Accepted
    with cases have "takes X relation [(batch, i)] b None b1"
      by (auto simp: takes_def)
    moreover have "takes X relation (map (Pair batch) rest) b1 t c"
      using Cons.IH more cases Accepted by auto
    ultimately show ?thesis using takes_append by fastforce
  next
    case (Truncated r)
    with cases more Cons.prems(2) show ?thesis
      by (auto simp: takes_def same_limits_def intro!: exI [of _ 0])
  qed
qed

definition stream_positions :: "('e + record_batch) list \<Rightarrow> (record_batch \<times> nat) list" where
  "stream_positions batches = concat (map (\<lambda>batch. case batch of
       Inr batch \<Rightarrow> map (Pair batch) [0..<rb_num_rows batch] | Inl _ \<Rightarrow> []) batches)"

primrec truncation :: "query_completion \<Rightarrow> query_truncation_reason option" where
  "truncation CompleteResult = None"
| "truncation (TruncatedResult r) = Some r"

lemma encode_batches_takes:
  "encode_batches try_grow X g snapshot columns k b batches = Inr r \<Longrightarrow> builder_ok X b \<Longrightarrow>
   \<exists>c. takes X (es_relation snapshot) (stream_positions batches) b (truncation (qr_completion r)) c \<and>
     finish_result snapshot columns c (qr_completion r) = Inr r"
proof (induction batches arbitrary: k b)
  case Nil
  then show ?case
    by (auto simp: stream_positions_def finish_result_def intro!: exI [of _ b] takes_Nil split: if_split_asm)
next
  case (Cons x batches)
  from Cons.prems(1) obtain k1 batch t k2 c where x: "x = Inr batch"
    and push: "push_rows try_grow X g batch (es_relation snapshot) [0..<rb_num_rows batch] k1 b = Inr (t, k2, c)"
    and more: "(case t of Some r \<Rightarrow> finish_result snapshot columns c (TruncatedResult r)
        | None \<Rightarrow> sbind (check_active g k2) (\<lambda>k. encode_batches try_grow X g snapshot columns k c batches)) = Inr r"
    by (auto simp: result_simps)
  from push_rows_takes [OF push Cons.prems(2)]
  have takes: "takes X (es_relation snapshot) (map (Pair batch) [0..<rb_num_rows batch]) b t c" .
  have ps: "stream_positions (x # batches) = map (Pair batch) [0..<rb_num_rows batch] @ stream_positions batches"
    by (simp add: stream_positions_def x)
  show ?case
  proof (cases t)
    case None
    with takes have "builder_ok X c" by (auto simp: takes_def)
    with Cons.IH more None obtain d where
      "takes X (es_relation snapshot) (stream_positions batches) c (truncation (qr_completion r)) d"
      "finish_result snapshot columns d (qr_completion r) = Inr r"
      by (auto simp: result_simps)
    with takes None ps show ?thesis using takes_append by metis
  next
    case (Some reason)
    with more have r: "finish_result snapshot columns c (TruncatedResult reason) = Inr r" by simp
    then have completion: "qr_completion r = TruncatedResult reason"
      by (auto simp: finish_result_def split: if_split_asm)
    show ?thesis
      unfolding completion ps using takes Some r takes_prefix by (intro exI [of _ c]) auto
  qed
qed

lemma builder_new_ok:
  assumes "query_result_builder_new try_grow m limits row_limit = Inr b" "2 \<le> ql_maximum_result_bytes limits"
  shows "builder_ok X b" "qb_rows b = []" "qb_maximum_rows b = row_limit"
    "qb_maximum_bytes b = ql_maximum_result_bytes limits" "qb_maximum_row_bytes b = MAXIMUM_ENCODED_QUERY_ROW_BYTES"
  using assms by (auto simp: query_result_builder_new_def result_simps builder_ok_def rows_bytes_def
      EMPTY_ENCODED_ROWS_BYTES_def)

lemma limits_new_bytes:
  "query_execution_limits_new later m configuration = Inr limits \<Longrightarrow>
   limits = configuration \<and> 2 \<le> ql_maximum_result_bytes limits \<and> 0 < ql_maximum_result_rows limits \<and>
   ql_maximum_result_bytes limits \<le> ql_memory_bytes limits"
  by (auto simp: query_execution_limits_new_def result_simps EMPTY_ENCODED_ROWS_BYTES_def split: if_split_asm)

lemma output_row_limit_Inr:
  "output_row_limit limits requested = Inr n \<longleftrightarrow>
   n = requested \<and> 0 < requested \<and> requested \<le> ql_maximum_result_rows limits"
  by (auto simp: output_row_limit_def)

end
