(* ===== verification/Engine_Properties.thy ===== *)
theory Engine_Properties
  imports Engine_Aggregate Engine_Result Catalog_Properties
begin

text \<open>
  The properties of the query engine, and the small environment, evaluator and batches that
  instantiate them.
\<close>

section \<open>Scans of an accepted source\<close>

lemma sources_additive:
  assumes "list_all schema_ok schemas" "source_new i name display dg a schemas inputs = Inr src"
  shows "active_schema src \<in> set schemas" "\<forall>s \<in> set schemas. sc_source_id s = i"
    "\<forall>s \<in> set schemas. s = active_schema src \<or> additive s (active_schema src) \<or> additive (active_schema src) s"
proof -
  from assms obtain k where acc: "source_accepts i a schemas inputs" and k: "k < length schemas"
    and src: "active_schema src = schemas ! k"
    by (auto simp: source_new_Inr active_schema_def)
  from k src show "active_schema src \<in> set schemas" by simp
  from acc show "\<forall>s \<in> set schemas. sc_source_id s = i" by (simp add: source_accepts_def)
  have add: "additive (schemas ! m) (schemas ! n)" if "m < n" "n < length schemas" for m n
    using acc that by (simp add: source_accepts_def sorted_wrt_iff_nth_less)
  show "\<forall>s \<in> set schemas. s = active_schema src \<or> additive s (active_schema src) \<or> additive (active_schema src) s"
  proof
    fix s assume "s \<in> set schemas"
    then obtain m where m: "m < length schemas" "s = schemas ! m" by (auto simp: in_set_conv_nth)
    then show "s = active_schema src \<or> additive s (active_schema src) \<or> additive (active_schema src) s"
      unfolding src using add [of m k] add [of k m] k by (cases m k rule: linorder_cases) simp_all
  qed
qed

lemma additive_refl: "additive s s"
  by (simp add: additive_def)

lemma traverse_members:
  assumes "traverse f xs = Inr ys"
  shows "x \<in> set xs \<Longrightarrow> \<exists>y \<in> set ys. f x = Inr y" "y \<in> set ys \<Longrightarrow> \<exists>x \<in> set xs. f x = Inr y"
  using assms unfolding traverse_eq_Inr by (induction rule: list_all2_induct) auto

text \<open>The Arrow schema of a stored schema determines its plan.\<close>

lemma plan_column_arrow:
  assumes "inj to_s" "map (field_to_arrow to_s) (sc_fields s) = map (field_to_arrow to_s) (sc_fields t)"
  shows "plan_column s r f = plan_column t r f"
    "find_position (\<lambda>g. fld_id g = i) (sc_fields s) = find_position (\<lambda>g. fld_id g = i) (sc_fields t)"
proof -
  have len: "length (sc_fields s) = length (sc_fields t)" using assms(2) map_eq_imp_length_eq by blast
  have eq: "fld_id (sc_fields s ! n) = fld_id (sc_fields t ! n) \<and>
      fld_logical_type (sc_fields s ! n) = fld_logical_type (sc_fields t ! n) \<and>
      fld_nullability (sc_fields s ! n) = fld_nullability (sc_fields t ! n)" if "n < length (sc_fields s)" for n
  proof -
    have "field_to_arrow to_s (sc_fields s ! n) = field_to_arrow to_s (sc_fields t ! n)"
      using arg_cong [OF assms(2), of "\<lambda>xs. xs ! n"] that len by simp
    from field_to_arrow_eq [OF assms(1) this] show ?thesis by blast
  qed
  have ids: "map fld_id (sc_fields s) = map fld_id (sc_fields t)"
    using eq len by (intro nth_equalityI) auto
  have by_id: "find_position (\<lambda>g. fld_id g = i) fs = find_position (\<lambda>j. j = i) (map fld_id fs)" for fs i
    by (induction fs) simp_all
  show pos: "find_position (\<lambda>g. fld_id g = i) (sc_fields s) = find_position (\<lambda>g. fld_id g = i) (sc_fields t)" for i
    by (simp add: by_id ids)
  show "plan_column s r f = plan_column t r f"
  proof (cases "find_position (\<lambda>g. fld_id g = fld_id f) (sc_fields t)")
    case (Some j)
    with pos [of "fld_id f"] have "find_position (\<lambda>g. fld_id g = fld_id f) (sc_fields s) = Some j" by simp
    with Some eq [of j] find_position_Some [OF this] show ?thesis by (simp add: plan_column_def Let_def)
  qed (simp add: plan_column_def pos)
qed

lemma plan_build_arrow:
  assumes "inj to_s" "materialized to_s s" "materialized to_s t" "sc_source_id s = sc_source_id t"
    "sc_arrow_schema s = sc_arrow_schema t"
  shows "stored_schema_plan_build a s = stored_schema_plan_build a t"
proof -
  have "map (field_to_arrow to_s) (sc_fields s) = map (field_to_arrow to_s) (sc_fields t)"
    using assms by (auto elim!: materialized_fields)
  note arrow = plan_column_arrow [OF assms(1) this]
  have "plan_column s = plan_column t" by (intro ext) (rule arrow(1))
  then show ?thesis using assms(4,5) by (simp add: stored_schema_plan_build_def arrow(2))
qed

lemma map_fields_total:
  assumes "\<And>f. f \<in> set fs \<Longrightarrow> \<exists>i. active_index d f = Inr i"
  shows "\<exists>mappings projection'. map_fields d plan projection fs = Inr (mappings, projection')"
  using assms
proof (induction fs arbitrary: projection)
  case (Cons f fs)
  then obtain i where i: "active_index d f = Inr i" by fastforce
  obtain m p where m: "batch_column_of projection (sp_columns plan ! i) = (m, p)" by fastforce
  from Cons.IH [of p] Cons.prems obtain ms q where "map_fields d plan p fs = Inr (ms, q)" by auto
  with i m show ?case by simp
qed simp

text \<open>The adapter finds the plan of the file that it reads.\<close>

lemma adapter_finds_plan:
  assumes "inj to_s" "\<And>s. s \<in> set ss \<Longrightarrow> materialized to_s s" "\<And>s. s \<in> set ss \<Longrightarrow> sc_source_id s = i"
    and plans: "traverse (stored_schema_plan_build a) ss = Inr plans"
    and stored: "stored \<in> set ss"
    and d: "ad_table_schema d = ad_active_arrow_schema d" "ad_plans d = plans"
  obtains plan where "stored_schema_plan_build a stored = Inr plan" "adapter_plan d (sc_arrow_schema stored) = Inr plan"
proof -
  have arrow: "sp_stored_arrow_schema p = sc_arrow_schema s" if "stored_schema_plan_build a s = Inr p" for s p
    using that by (auto simp: stored_schema_plan_build_def result_simps split: if_split_asm)
  from traverse_members(1) [OF plans stored] obtain plan where
    plan: "stored_schema_plan_build a stored = Inr plan" "plan \<in> set plans" by blast
  with arrow have "find (\<lambda>plan. matches_file_schema plan (sc_arrow_schema stored)) plans \<noteq> None"
    by (auto simp: matches_file_schema_def find_None_iff)
  then obtain p where p: "find (\<lambda>plan. matches_file_schema plan (sc_arrow_schema stored)) plans = Some p" by auto
  then have "p \<in> set plans" "sp_stored_arrow_schema p = sc_arrow_schema stored"
    by (auto simp: find_Some_iff matches_file_schema_def)
  with traverse_members(2) [OF plans, of p] arrow obtain s where s: "s \<in> set ss"
    "stored_schema_plan_build a s = Inr p" "sc_arrow_schema s = sc_arrow_schema stored" by fastforce
  have "stored_schema_plan_build a s = stored_schema_plan_build a stored"
    using plan_build_arrow [OF assms(1) assms(2) [OF s(1)] assms(2) [OF stored] _ s(3)] assms(3) s(1) stored by simp
  with s(2) plan(1) p d that show thesis by (auto simp: adapter_plan_def)
qed

text \<open>
  C10. Scans under schema evolution. For a source that the catalog accepted, let segments be stored
  under any of its schemas. Every one of these schemas has a plan; the adapter finds the plan of
  the file it reads, and the columns that it makes of a batch, through the projection and its
  reuse of columns, are field by field and row by row the value of the stored field of the same
  identity, else the value at the field's historical pointer in the stored remainder, else null;
  and every such value has the active field's type and is null only where the field may be.
\<close>

theorem scan_refines_field_adaptation:
  assumes "inj to_s" "list_all (materialized to_s) schemas"
    and "source_new i name display dg a schemas inputs = Inr src"
    and "set stored_schemas \<subseteq> set schemas" "stored \<in> set stored_schemas"
    and "set fs \<subseteq> set (sc_fields (active_schema src))"
    and "engine_env_ok X" "list_all (stored_row_ok X stored) rows"
  shows "\<exists>plans. traverse (stored_schema_plan_build (active_schema src)) stored_schemas = Inr plans \<and>
    (let adapter = \<lparr>ad_active_arrow_schema = sc_arrow_schema (active_schema src),
           ad_projected_table_schema = map (field_to_arrow to_s) fs,
           ad_table_schema = sc_arrow_schema (active_schema src), ad_plans = plans\<rparr>
     in \<exists>mappings projection metrics'.
       map_schema adapter (sc_arrow_schema stored) = Inr (mappings, projection) \<and>
       map_batch try_new X (map (field_to_arrow to_s) fs) mappings
         (projected_batch projection rows) (length rows) metrics =
         sbind (try_new (map (\<lambda>f. map (\<lambda>row. adapted_value X stored row f) rows) fs) (length rows))
           (\<lambda>batch. Inr (batch, metrics')) \<and>
       list_all (\<lambda>f. list_all (\<lambda>row. scalar_ok (fld_logical_type f) (adapted_value X stored row f) \<and>
         (fld_nullability f = Nullable \<or> \<not> scalar_is_null (adapted_value X stored row f))) rows) fs)"
proof -
  let ?a = "active_schema src"
  have "list_all schema_ok schemas" using assms(2) materialized_ok by (auto simp: list_all_iff)
  note src = sources_additive [OF this assms(3)]
  have m: "materialized to_s s" if "s \<in> set schemas" for s using that assms(2) by (simp add: list_all_iff)
  have total: "\<exists>plan. stored_schema_plan_build ?a s = Inr plan" if "s \<in> set schemas" for s
    using plan_build_total [OF m [OF src(1)] m [OF that]] src that additive_refl by metis
  with assms(4) obtain plans where plans: "traverse (stored_schema_plan_build ?a) stored_schemas = Inr plans"
    using traverse_total [of stored_schemas "stored_schema_plan_build ?a"] by blast
  define d where "d = \<lparr>ad_active_arrow_schema = sc_arrow_schema ?a, ad_projected_table_schema = map (field_to_arrow to_s) fs,
    ad_table_schema = sc_arrow_schema ?a, ad_plans = plans\<rparr>"
  have stored: "stored \<in> set schemas" using assms(4,5) by blast
  have "materialized to_s s" "sc_source_id s = i" if "s \<in> set stored_schemas" for s
    using that m assms(4) src(2) by auto
  note finds = adapter_finds_plan [OF assms(1) this plans assms(5), of d]
  obtain plan where plan: "stored_schema_plan_build ?a stored = Inr plan"
    and found: "adapter_plan d (sc_arrow_schema stored) = Inr plan"
    by (rule finds) (simp_all add: d_def)
  have arrow_a: "sc_arrow_schema ?a = map (field_to_arrow to_s) (sc_fields ?a)"
    using m [OF src(1)] by (blast elim: materialized_fields)
  have "\<exists>i. active_index d f = Inr i" if f: "f \<in> set (map (field_to_arrow to_s) fs)" for f
  proof -
    have "find_position (\<lambda>x. x = f) (sc_arrow_schema ?a) \<noteq> None"
      using f assms(6) by (auto simp: find_position_None arrow_a)
    then show ?thesis by (auto simp: active_index_def d_def)
  qed
  from map_fields_total [of _ d, OF this] obtain mappings projection where
    "map_fields d plan [] (map (field_to_arrow to_s) fs) = Inr (mappings, projection)" by blast
  then have schema: "map_schema d (sc_arrow_schema stored) = Inr (mappings, projection)"
    by (simp add: map_schema_def found) (simp add: d_def)
  from scan_columns [OF m [OF src(1)] m [OF stored] assms(1) plan _ schema found, of fs rows X metrics] assms(6,8)
  obtain metrics' where columns: "map_columns X (projected_batch projection rows) (length rows) metrics
      (zip (map (field_to_arrow to_s) fs) mappings) =
      Inr (map (\<lambda>f. map (\<lambda>row. adapted_value X stored row f) rows) fs, metrics')"
    by (auto simp: d_def list_all_iff)
  have "scalar_ok (fld_logical_type f) (adapted_value X stored row f) \<and>
      (fld_nullability f = Nullable \<or> \<not> scalar_is_null (adapted_value X stored row f))"
    if "f \<in> set fs" "row \<in> set rows" for f row
  proof -
    have f: "f \<in> set (sc_fields ?a)" using that(1) assms(6) by blast
    from plan_column_total [OF m [OF src(1)] m [OF stored] _ f] src(3) stored additive_refl
    obtain c where "plan_column stored 0 f = Inr c" by metis
    with adapted_value_ok [OF assms(7)] assms(8) that(2) show ?thesis
      by (cases "fld_nullability f") (auto simp: list_all_iff)
  qed
  with plans schema columns show ?thesis
    unfolding Let_def
    by (intro exI [of _ plans] conjI exI [of _ mappings] exI [of _ projection] exI [of _ metrics'])
      (simp_all add: d_def map_batch_def list_all_iff)
qed

section \<open>Compact arrays\<close>

fun comma_join :: "string list \<Rightarrow> string" where
  "comma_join [] = []"
| "comma_join [s] = s"
| "comma_join (s # t # rest) = s @ CHR '','' # comma_join (t # rest)"

text \<open>\<open>serde_json\<close> prints an array without spaces.\<close>

definition compact_arrays :: "'x engine_env_scheme \<Rightarrow> bool" where
  "compact_arrays X \<longleftrightarrow> (\<forall>vs ss. list_all2 (\<lambda>v s. json_to_string X v = Some s) vs ss \<longrightarrow>
     json_to_string X (JArray vs) = Some (CHR ''['' # comma_join ss @ '']''))"

lemma length_comma_join: "length (comma_join ss) = sum_list (map length ss) + (length ss - 1)"
  by (induction ss rule: comma_join.induct) simp_all

lemma rows_bytes_text:
  assumes "compact_arrays X" "list_all (\<lambda>row. json_to_string X (JArray row) \<noteq> None) rows"
  shows "map_option length (json_to_string X (JArray (map JArray rows))) = Some (rows_bytes X rows)"
proof -
  let ?ss = "map (\<lambda>row. the (json_to_string X (JArray row))) rows"
  have "list_all2 (\<lambda>v s. json_to_string X v = Some s) (map JArray rows) ?ss"
    using assms(2) by (auto simp: list_all2_conv_all_nth list_all_length)
  with assms(1) have "json_to_string X (JArray (map JArray rows)) = Some (CHR ''['' # comma_join ?ss @ '']'')"
    by (simp only: compact_arrays_def)
  moreover have "map length ?ss = map (encoded_length X) rows"
    using assms(2) by (auto simp: list_all_iff encoded_length_def)
  ultimately show ?thesis by (simp add: length_comma_join rows_bytes_def comp_def del: map_map)
qed

lemma finish_result_rows:
  assumes "finish_result snapshot columns c completion = Inr r"
  shows "qr_rows r = qb_rows c" "qs_output_rows (qr_statistics r) = length (qb_rows c)"
    "qs_output_bytes (qr_statistics r) = qb_output_bytes c"
  using assms by (auto simp: finish_result_def split: if_split_asm)

text \<open>
  C11. Bounds of a result. When an execution returns a result under accepted limits, its rows are
  the encodings of a leading part of the rows that the stream yields, in order; there are at most
  as many as requested; the reported bytes are the size of the rows as one JSON array and within
  the limit; a complete result has all rows of the stream; and a truncated one has a next row,
  and either the requested number of rows, or the next row would exceed the byte limit.
\<close>

theorem result_is_a_bounded_prefix:
  assumes "query_execution_limits_new later usize_max configuration = Inr limits"
    and "output_row_limit limits requested = Inr row_limit"
    and "encode_query_result try_grow reservation X g snapshot limits row_limit batches = Inr r"
    and "compact_arrays X"
  shows "let positions = stream_positions batches; n = length (qr_rows r);
      encode = (\<lambda>(batch, i). encode_row X batch (es_relation snapshot) i) in
    n \<le> length positions \<and> traverse encode (take n positions) = Inr (qr_rows r) \<and> n \<le> requested \<and>
    qs_output_rows (qr_statistics r) = n \<and>
    map_option length (json_to_string X (JArray (map JArray (qr_rows r)))) = Some (qs_output_bytes (qr_statistics r)) \<and>
    qs_output_bytes (qr_statistics r) \<le> ql_maximum_result_bytes configuration \<and>
    (case qr_completion r of
       CompleteResult \<Rightarrow> n = length positions
     | TruncatedResult OutputRows \<Rightarrow> n = requested \<and> n < length positions
     | TruncatedResult OutputBytes \<Rightarrow> n < length positions \<and>
         (case encode (positions ! n) of
            Inr row \<Rightarrow> ql_maximum_result_bytes configuration < rows_bytes X (qr_rows r @ [row])
          | Inl _ \<Rightarrow> False))"
proof -
  note limits = limits_new_bytes [OF assms(1)] output_row_limit_Inr [THEN iffD1, OF assms(2)]
  from assms(3) obtain b k columns where b: "query_result_builder_new try_grow reservation limits row_limit = Inr b"
    and enc: "encode_batches try_grow X g snapshot columns k b batches = Inr r"
    by (auto simp: encode_query_result_def result_simps Let_def)
  have "2 \<le> ql_maximum_result_bytes limits" using limits by blast
  note new = builder_new_ok [OF b this]
  from new(1) encode_batches_takes [OF enc] obtain c where
    takes: "takes X (es_relation snapshot) (stream_positions batches) b (truncation (qr_completion r)) c"
    and fin: "finish_result snapshot columns c (qr_completion r) = Inr r" by blast
  note rows = finish_result_rows [OF fin]
  from takes new limits obtain n where n: "n \<le> length (stream_positions batches)"
    "traverse (\<lambda>(batch, i). encode_row X batch (es_relation snapshot) i) (take n (stream_positions batches)) = Inr (qb_rows c)"
    "case truncation (qr_completion r) of None \<Rightarrow> n = length (stream_positions batches)
     | Some reason \<Rightarrow> n < length (stream_positions batches) \<and>
         stopped X (es_relation snapshot) c reason (stream_positions batches ! n)"
    and c: "builder_ok X c" "same_limits b c"
    by (auto simp: takes_def)
  from traverse_length [OF n(2)] n(1) have len: "length (qb_rows c) = n" by simp
  from c new limits have max: "qb_maximum_rows c = requested" "qb_maximum_bytes c = ql_maximum_result_bytes configuration"
    by (auto simp: same_limits_def)
  from c(1) have "list_all (\<lambda>row. json_to_string X (JArray row) \<noteq> None) (qb_rows c)"
    by (auto simp: builder_ok_def list_all_iff)
  from rows_bytes_text [OF assms(4) this] c(1) have bytes:
    "map_option length (json_to_string X (JArray (map JArray (qb_rows c)))) = Some (qb_output_bytes c)"
    by (simp add: builder_ok_def)
  have "case qr_completion r of
       CompleteResult \<Rightarrow> n = length (stream_positions batches)
     | TruncatedResult OutputRows \<Rightarrow> n = requested \<and> n < length (stream_positions batches)
     | TruncatedResult OutputBytes \<Rightarrow> n < length (stream_positions batches) \<and>
         (case (\<lambda>(batch, i). encode_row X batch (es_relation snapshot) i) (stream_positions batches ! n) of
            Inr row \<Rightarrow> ql_maximum_result_bytes configuration < rows_bytes X (qb_rows c @ [row])
          | Inl _ \<Rightarrow> False)"
    unfolding max [symmetric] using n(3) len
    by (auto simp: stopped_def case_prod_beta split: query_completion.split query_truncation_reason.split)
  moreover have "n \<le> requested" "qb_output_bytes c \<le> ql_maximum_result_bytes configuration"
    using c(1) len max by (simp_all add: builder_ok_def)
  ultimately show ?thesis
    unfolding rows Let_def len using n(1,2) bytes by blast
qed

section \<open>An environment\<close>

text \<open>A printer of compact JSON and accessors for decimal integers.\<close>

fun print_json :: "json \<Rightarrow> string" where
  "print_json JNull = ''null''"
| "print_json (JBool b) = (if b then ''true'' else ''false'')"
| "print_json (JNumber n) = n"
| "print_json (JString s) = CHR 0x22 # s @ [CHR 0x22]"
| "print_json (JArray vs) = CHR ''['' # comma_join (map print_json vs) @ '']''"
| "print_json (JObject ms) =
     CHR ''{'' # comma_join (map (\<lambda>(k, v). CHR 0x22 # k @ CHR 0x22 # CHR '':'' # print_json v) ms) @ ''}''"

definition demo_engine :: result_env where
  "demo_engine = \<lparr>parse_from_rfc3339 = (\<lambda>_. None),
     json_from_str = (\<lambda>s. if s = ''{latency:7}'' then Some (JObject [(''latency'', JNumber ''7'')]) else None),
     json_to_string = (\<lambda>v. Some (print_json v)), json_float_to_string = (\<lambda>_ _. None),
     number_from_str = (\<lambda>s. if valid_signed_decimal s then Some s else None),
     number_as_i64 = (\<lambda>s. if valid_signed_decimal s then parse_int in_i64 s else None),
     number_as_u64 = (\<lambda>s. if valid_unsigned_decimal s then parse_int in_u64 s else None),
     number_as_f64 = (\<lambda>_. None), timestamp_millis_to_rfc3339 = (\<lambda>_. None),
     timestamp_millis_supported = (\<lambda>_. True), number_from_f64 = (\<lambda>_. None)\<rparr>"

lemma demo_engine_ok: "engine_env_ok demo_engine"
  by (auto simp: engine_env_ok_def chrono_ok_def demo_engine_def parse_int_def in_range_def Let_def
      split: if_split_asm prod.split_asm)

text \<open>The second schema reads the field that it adds from the remainder of rows stored under the first.\<close>

definition demo_v3 :: "user_field list" where
  "demo_v3 = [demo_user_field 100 ''status'' NonNull,
     (demo_user_field 101 ''latency'' Nullable)\<lparr>uf_historical_remainder_pointer := Some [''latency'']\<rparr>]"

definition demo_history :: "schema list" where
  "demo_history = [demo_schema 1 1 demo_v1, demo_schema 2 2 demo_v3]"

abbreviation demo_text :: "uuid \<Rightarrow> string" where
  "demo_text \<equiv> \<lambda>u. replicate (unat u) (CHR ''x'')"

lemma demo_v3_new: "schema_new demo_text 2 7 2 demo_digests demo_v3 = Inr (demo_schema 2 2 demo_v3)"
  by (simp add: schema_new_Inr demo_schema_def demo_v3_def demo_user_field_def i32_max_def)

lemma demo_history_materialized: "list_all (materialized demo_text) demo_history"
proof -
  have "list_all user_field_ok demo_v3"
    using demo_fields_ok(2) by (simp add: demo_v2_def demo_v3_def demo_user_field_def user_field_ok_def)
  with demo_v3_new have "materialized demo_text (demo_schema 2 2 demo_v3)" unfolding materialized_def by blast
  moreover have "materialized demo_text (demo_schema 1 1 demo_v1)"
    unfolding materialized_def using demo_fields_ok(1) demo_schema_new(1) by blast
  ultimately show ?thesis by (simp add: demo_history_def)
qed

definition demo_history_source :: source where
  "demo_history_source = \<lparr>src_id = 7, src_name = ''web'', src_display_name = ''Web'', src_declaration_digest = [],
     src_schemas = demo_history, src_active_schema_index = 1, src_inputs = []\<rparr>"

lemma demo_history_data:
  "data_fields (demo_schema i v fs) = map (\<lambda>(i, f). data_field_of f (i + 3)) (enumerate 0 fs)"
  by (simp add: data_fields_def demo_schema_def schema_fields_of_data)

lemma demo_history_new: "source_new 7 ''web'' ''Web'' [] 2 demo_history [] = Inr demo_history_source"
proof -
  have ok: "list_all schema_ok demo_history"
    using demo_history_materialized materialized_ok by (auto simp: list_all_iff)
  have "additive (demo_schema 1 1 demo_v1) (demo_schema 2 2 demo_v3)"
    by (simp add: additive_def demo_history_data demo_v1_def demo_v3_def data_field_of_def demo_user_field_def field_key_def)
  then have "source_accepts 7 2 demo_history []"
    by (simp add: source_accepts_def demo_history_def) (simp add: demo_schema_def)
  then show ?thesis
    unfolding source_new_Inr [OF ok]
    by (simp add: demo_history_source_def) (simp add: demo_history_def demo_schema_def)
qed

definition demo_row :: "scalar list" where
  "demo_row = [STimestampMillisecond (Some 1) (Some UTC_TIMEZONE), STimestampMillisecond (Some 2) (Some UTC_TIMEZONE),
     SFixedSizeBinary 16 (Some (replicate 16 0)), SInt64 (Some 500), SUtf8 (Some ''{latency:7}'')]"

lemma demo_row_ok: "stored_row_ok demo_engine (demo_schema 1 1 demo_v1) demo_row"
  unfolding stored_row_ok_def
  by (simp add: demo_schema_def schema_fields_of_def demo_v1_def demo_row_def scalar_ok_def system_field_of_def
      data_field_of_def demo_user_field_def in_i64_def event_id_ok_def less_Suc_eq numeral_eq_Suc)

definition demo_latency :: field where
  "demo_latency = data_field_of ((demo_user_field 101 ''latency'' Nullable)
     \<lparr>uf_historical_remainder_pointer := Some [''latency'']\<rparr>) 4"

lemma demo_latency_adapted: "adapted_value demo_engine (demo_schema 1 1 demo_v1) demo_row demo_latency = SInt64 (Some 7)"
proof -
  have "sc_fields (demo_schema 1 1 demo_v1) = schema_fields_of demo_v1" by (simp add: demo_schema_def)
  moreover have "find_position (\<lambda>g. fld_id g = 101) (schema_fields_of demo_v1) = None"
    "find_position (\<lambda>g. fld_id g = field_id_remainder) (schema_fields_of demo_v1) = Some 4"
    by (simp_all add: schema_fields_of_def demo_v1_def demo_user_field_def system_field_of_def data_field_of_def
        field_id_defs)
  moreover have "demo_row ! 4 = SUtf8 (Some ''{latency:7}'')" "fld_id demo_latency = 101"
    "fld_historical_remainder_pointer demo_latency = Some [''latency'']" "fld_logical_type demo_latency = TInt64"
    by (simp_all add: demo_row_def demo_latency_def data_field_of_def demo_user_field_def)
  moreover have "remainder_value demo_engine [''latency''] TInt64 (SUtf8 (Some ''{latency:7}'')) = SInt64 (Some 7)"
    by (simp add: remainder_value_def convert_row_def historical_value_def integer_i64_def as_number_def demo_engine_def
        valid_signed_decimal_def valid_unsigned_decimal_def strip_minus_def parse_int_def is_digit_def decimal_value_def
        digit_value_def in_range_def in_i64_def)
  ultimately show ?thesis by (simp add: adapted_value_def)
qed

theorem scan_refines_field_adaptation_witness:
  "adapted_value demo_engine (demo_schema 1 1 demo_v1) demo_row demo_latency = SInt64 (Some 7) \<and>
   (\<exists>plans mappings projection metrics'.
     traverse (stored_schema_plan_build (demo_schema 2 2 demo_v3)) [demo_schema 1 1 demo_v1] = Inr plans \<and>
     map_batch (\<lambda>columns n. Inr columns) demo_engine [field_to_arrow demo_text demo_latency] mappings
       (projected_batch projection [demo_row]) (length [demo_row]) (\<lambda>_. 0) = Inr ([[SInt64 (Some 7)]], metrics'))"
proof -
  have active: "active_schema demo_history_source = demo_schema 2 2 demo_v3"
    by (simp add: active_schema_def demo_history_source_def demo_history_def)
  have field: "set [demo_latency] \<subseteq> set (sc_fields (active_schema demo_history_source))"
    unfolding active by (simp add: demo_schema_def schema_fields_of_def demo_v3_def demo_latency_def)
  have stored: "set [demo_schema 1 1 demo_v1] \<subseteq> set demo_history" "demo_schema 1 1 demo_v1 \<in> set [demo_schema 1 1 demo_v1]"
    by (simp_all add: demo_history_def)
  have rows: "list_all (stored_row_ok demo_engine (demo_schema 1 1 demo_v1)) [demo_row]"
    using demo_row_ok by simp
  from scan_refines_field_adaptation [OF demo_text_inj demo_history_materialized demo_history_new stored field
      demo_engine_ok rows, of "\<lambda>columns n. Inr columns" "\<lambda>_. 0"]
  show ?thesis
    by (simp add: active Let_def demo_latency_adapted del: One_nat_def) blast
qed

definition demo_limits :: query_execution_limits where
  "demo_limits = \<lparr>ql_timeout = 1000, ql_maximum_scan_bytes = 1000, ql_memory_bytes = 1000, ql_scratch_path = ''/tmp'',
     ql_scratch_capacity_bytes = 1000, ql_maximum_result_rows = 10, ql_maximum_result_bytes = 12\<rparr>"

definition demo_batch :: record_batch where
  "demo_batch = \<lparr>rb_fields = [(''n'', ArrowInt32)], rb_columns = [[SInt32 (Some 1), SInt32 (Some 2), SInt32 None]],
     rb_num_rows = 3\<rparr>"

definition demo_result_relation :: relation where
  "demo_result_relation = [\<lparr>if_name = ''n'', if_logical_type = TInt32, if_nullability = Nullable,
     if_origin = OriginSystem 1\<rparr>]"

definition demo_snapshot :: encoded_snapshot where
  "demo_snapshot = \<lparr>es_relation = demo_result_relation, es_diagnostics = [], es_segment_count = 1,
     es_selected_parquet_bytes = 100, es_elapsed_milliseconds = 5\<rparr>"

definition demo_guard :: guard where
  "demo_guard = \<lparr>gd_deadline = 1000, gd_observations = (\<lambda>k. (False, k))\<rparr>"

lemma demo_engine_compact: "compact_arrays demo_engine"
proof -
  have "ss = map print_json vs" if "list_all2 (\<lambda>v s. json_to_string demo_engine v = Some s) vs ss" for vs ss
    using that by (induction rule: list_all2_induct) (simp_all add: demo_engine_def)
  then show ?thesis by (auto simp: compact_arrays_def demo_engine_def)
qed

lemma demo_digits: "nat_to_string (Suc 0) = ''1''" "nat_to_string 2 = ''2''"
  by (simp_all add: nat_to_string.simps char_of_eq_iff)

lemma demo_encoded:
  "encode_query_result (\<lambda>m n. Some (m + n)) (0 :: nat) demo_engine demo_guard demo_snapshot demo_limits 5 [Inr demo_batch] =
   Inr \<lparr>qr_columns = [\<lparr>qc_name = ''n'', qc_logical_type = TInt32, qc_nullability = Nullable\<rparr>],
        qr_rows = [[JNumber ''1''], [JNumber ''2'']], qr_completion = TruncatedResult OutputBytes, qr_diagnostics = [],
        qr_statistics = \<lparr>qs_selected_segments = 1, qs_selected_parquet_bytes = 100, qs_output_rows = 2,
          qs_output_bytes = 9, qs_elapsed_milliseconds = 5\<rparr>\<rparr>"
  by (simp add: encode_query_result_def check_active_def ensure_active_def demo_guard_def demo_snapshot_def
      demo_limits_def demo_batch_def demo_result_relation_def query_result_builder_new_def EMPTY_ENCODED_ROWS_BYTES_def
      validate_batch_def push_row_def encode_row_def encode_value_def int_to_string_def demo_digits
      demo_engine_def checked_add_def u64_max_def MAXIMUM_ENCODED_QUERY_ROW_BYTES_def finish_result_def
      upt_rec Let_def)

theorem result_is_a_bounded_prefix_witness:
  "\<exists>r. encode_query_result (\<lambda>m n. Some (m + n)) (0 :: nat) demo_engine demo_guard demo_snapshot demo_limits 5
      [Inr demo_batch] = Inr r \<and> qr_completion r = TruncatedResult OutputBytes \<and>
    map_option length (json_to_string demo_engine (JArray (map JArray (qr_rows r)))) = Some 9 \<and>
    length (qr_rows r) < length (stream_positions [Inr demo_batch :: engine_error + record_batch])"
proof -
  have limits: "query_execution_limits_new Some u64_max demo_limits = Inr demo_limits"
    by (simp add: query_execution_limits_new_def demo_limits_def EMPTY_ENCODED_ROWS_BYTES_def u64_max_def)
  have rows: "output_row_limit demo_limits 5 = Inr 5" by (simp add: output_row_limit_def demo_limits_def)
  from result_is_a_bounded_prefix [OF limits rows demo_encoded demo_engine_compact] demo_encoded show ?thesis
    by (simp add: Let_def)
qed

section \<open>Expressions\<close>

text \<open>
  C9. Type safety of lowered expressions. An expression of a well-typed pipeline lowers, and over a
  row of its relation the lowered expression evaluates to a value of the expression's type, null
  only where its nullability allows, or the query fails with an evaluation or cast error; it
  never runs into an internal failure. DataFusion is any evaluator with the documented semantics
  of literals, columns, connectives and comparisons.
\<close>

theorem lowered_expressions_are_type_safe:
  assumes "datafusion_ok X evaluate" "engine_env_ok X" "row_ok X r row" "ir_ok r e"
  shows "\<exists>p. lower_expression e = Inr p \<and>
    (case evaluate p row of
       Inr v \<Rightarrow> scalar_ok (ir_logical_type e) v \<and> (ir_nullability e = NonNull \<longrightarrow> \<not> scalar_is_null v)
     | Inl failure \<Rightarrow> failure = CastFailure \<or> failure = EvaluationFailure)"
proof -
  from lowered_expression_ok [OF assms] obtain p where p: "lower_expression e = Inr p"
    "result_ok (ir_logical_type e) (ir_nullability e) (evaluate p row)" by blast
  have "f = CastFailure \<or> f = EvaluationFailure" if "f \<noteq> ExecutionFailure" for f
    using that by (cases f) simp_all
  with p show ?thesis by (auto simp: result_ok_def split: sum.split_asm)
qed

text \<open>An evaluator that computes both operands.\<close>

definition compare_scalars :: "comparison \<Rightarrow> scalar \<Rightarrow> scalar \<Rightarrow> bool" where
  "compare_scalars op x y =
     (let less = (\<lambda>x y. case (scalar_rat x, scalar_rat y) of (Some p, Some q) \<Rightarrow> p < q | _ \<Rightarrow> False) in
      case op of CmpEq \<Rightarrow> x = y | CmpNotEq \<Rightarrow> x \<noteq> y | CmpLt \<Rightarrow> less x y | CmpGt \<Rightarrow> less y x
      | CmpLtEq \<Rightarrow> less x y \<or> x = y | CmpGtEq \<Rightarrow> less y x \<or> x = y)"

definition boolean_of :: "scalar \<Rightarrow> runtime_failure_kind + bool option" where
  "boolean_of v = (case v of SBoolean x \<Rightarrow> Inr x | _ \<Rightarrow> Inl ExecutionFailure)"

fun demo_evaluate :: "'x engine_env_scheme \<Rightarrow> df_expr \<Rightarrow> (string \<Rightarrow> scalar) \<Rightarrow> df_result" where
  "demo_evaluate X (DfLit v) row = Inr v"
| "demo_evaluate X (DfColumn n) row = Inr (row n)"
| "demo_evaluate X (DfNot e) row = sbind (sbind (demo_evaluate X e row) boolean_of) (\<lambda>x. Inr (SBoolean (map_option Not x)))"
| "demo_evaluate X (DfAnd a b) row =
     sbind (sbind (demo_evaluate X a row) boolean_of) (\<lambda>x. sbind (sbind (demo_evaluate X b row) boolean_of) (\<lambda>y.
     Inr (SBoolean (kleene_and x y))))"
| "demo_evaluate X (DfOr a b) row =
     sbind (sbind (demo_evaluate X a row) boolean_of) (\<lambda>x. sbind (sbind (demo_evaluate X b row) boolean_of) (\<lambda>y.
     Inr (SBoolean (kleene_or x y))))"
| "demo_evaluate X (DfBinaryExpr a op b) row =
     sbind (demo_evaluate X a row) (\<lambda>x. sbind (demo_evaluate X b row) (\<lambda>y.
     Inr (SBoolean (if scalar_is_null x \<or> scalar_is_null y then None else Some (compare_scalars op x y)))))"
| "demo_evaluate X (DfIsNull e) row = map_sum id (\<lambda>v. SBoolean (Some (scalar_is_null v))) (demo_evaluate X e row)"
| "demo_evaluate X (DfIsNotNull e) row = map_sum id (\<lambda>v. SBoolean (Some (\<not> scalar_is_null v))) (demo_evaluate X e row)"
| "demo_evaluate X (DfCall u [a]) row = sbind (demo_evaluate X a row) (\<lambda>v. call_udf X u [v])"
| "demo_evaluate X (DfCall u [a, b]) row =
     sbind (demo_evaluate X a row) (\<lambda>x. sbind (demo_evaluate X b row) (\<lambda>y. call_udf X u [x, y]))"
| "demo_evaluate X (DfCall u _) row = Inl ExecutionFailure"
| "demo_evaluate X (DfAlias e _) row = demo_evaluate X e row"

lemma boolean_ok: "scalar_ok TBool v \<Longrightarrow> \<exists>x. v = SBoolean x"
  by (cases v) (simp_all add: scalar_ok_def)

lemma demo_evaluate_ok: "datafusion_ok X (demo_evaluate X)"
proof -
  have "evaluates_connectives (demo_evaluate X)"
    unfolding evaluates_connectives_def
  proof (intro allI impI)
    fix row a b
    assume "boolean_result (demo_evaluate X a row)" "boolean_result (demo_evaluate X b row)"
    then consider k where "demo_evaluate X a row = Inl k"
      | x k where "demo_evaluate X a row = Inr (SBoolean x)" "demo_evaluate X b row = Inl k"
      | x y where "demo_evaluate X a row = Inr (SBoolean x)" "demo_evaluate X b row = Inr (SBoolean y)"
      by (cases "demo_evaluate X a row"; cases "demo_evaluate X b row")
        (auto simp: boolean_result_def dest!: boolean_ok)
    then show "demo_evaluate X (DfAnd a b) row \<in> connective_results kleene_and False (demo_evaluate X a row) (demo_evaluate X b row) \<and>
      demo_evaluate X (DfOr a b) row \<in> connective_results kleene_or True (demo_evaluate X a row) (demo_evaluate X b row)"
      by cases (simp_all add: connective_results_def boolean_of_def del: kleene_and.simps kleene_or.simps)
  qed
  moreover have "evaluates_comparisons (demo_evaluate X)"
    unfolding evaluates_comparisons_def
  proof (intro allI conjI impI)
    fix row a b op
    assume "(\<exists>k. demo_evaluate X a row = Inl k) \<or> (\<exists>k. demo_evaluate X b row = Inl k)"
    then show "\<exists>k. demo_evaluate X (DfBinaryExpr a op b) row = Inl k \<and> (demo_evaluate X a row = Inl k \<or> demo_evaluate X b row = Inl k)"
      by (cases "demo_evaluate X a row"; cases "demo_evaluate X b row") simp_all
  qed simp
  ultimately show ?thesis
    by (simp add: datafusion_ok_def evaluates_values_def evaluates_calls_def evaluates_not_def boolean_of_def)
qed

text \<open>The filter \<open>status / status >= 500\<close>, which fails over a row whose status is zero.\<close>

definition demo_field :: ir_field where
  "demo_field = \<lparr>if_name = ''status'', if_logical_type = TInt64, if_nullability = NonNull,
     if_origin = OriginSchema 100\<rparr>"

definition demo_quotient :: ir_expression where
  "demo_quotient = IrExpression (IrBinary OpDivide (expression_field demo_field)
     (expression_field demo_field)) TInt64 NonNull"

definition demo_expression :: ir_expression where
  "demo_expression = IrExpression (IrBinary OpGreaterThanOrEqual demo_quotient
     (expression_literal (LInt64 500))) TBool NonNull"

lemma demo_expression_ok: "ir_ok [demo_field] demo_expression"
  by (simp add: demo_expression_def demo_quotient_def expression_field_def demo_field_def expression_literal_def
      is_literal_def binary_typed_def combine_nullability_def in_i64_def is_numeric_def arithmetic_op_def logical_op_def)

lemma demo_row_value_ok: "row_ok demo_engine [demo_field] (\<lambda>_. SInt64 (Some i))" if "in_i64 i"
  using that by (simp add: row_ok_def demo_field_def scalar_ok_def relation_field_def)

theorem lowered_expressions_are_type_safe_witness:
  "\<exists>p. lower_expression demo_expression = Inr p \<and>
     demo_evaluate demo_engine p (\<lambda>_. SInt64 (Some 0)) = Inl EvaluationFailure \<and>
     demo_evaluate demo_engine p (\<lambda>_. SInt64 (Some 7)) = Inr (SBoolean (Some False))"
proof -
  from lowered_expressions_are_type_safe [OF demo_evaluate_ok demo_engine_ok demo_row_value_ok demo_expression_ok, of 7]
  obtain p where p: "lower_expression demo_expression = Inr p" by (auto simp: in_i64_def)
  then have "p = DfBinaryExpr (DfCall (CheckedBinaryUdf OpDivide TInt64) [DfColumn ''status'', DfColumn ''status''])
      CmpGtEq (DfLit (SInt64 (Some 500)))"
    by (simp add: demo_expression_def demo_quotient_def expression_field_def demo_field_def expression_literal_def
        lower_binary_def checked_binary_udf_def is_numeric_def field_expression_def comparison_operator_def)
  then have "demo_evaluate demo_engine p (\<lambda>_. SInt64 (Some 0)) = Inl EvaluationFailure"
    "demo_evaluate demo_engine p (\<lambda>_. SInt64 (Some 7)) = Inr (SBoolean (Some False))"
    by (simp_all add: call_udf_def checked_binary_def checked_integer_def checked_div_def in_range_def in_i64_def
        compare_scalars_def scalar_rat_def)
  with p show ?thesis by blast
qed

section \<open>Arithmetic and casts\<close>

text \<open>
  C13. Constants mean what the engine computes. When the analysis folds an arithmetic operator over
  literals of one numeric type, the folded literal is the value that the engine's checked
  operator computes from them at run time, nulls included; and it reports a constant that cannot
  be evaluated exactly when the engine's operator fails with an evaluation error.
\<close>

theorem constant_folding_agrees_with_execution:
  assumes "literal_ok l" "literal_ok r" "literal_logical_type l = t" "literal_logical_type r = t"
    "is_numeric t" "arithmetic_op op"
  shows "case fold_binary op (expression_literal l) (expression_literal r) t sp of
      Inr (Some e) \<Rightarrow> (\<exists>v. e = expression_literal v \<and> checked_binary op t (literal_scalar l) (literal_scalar r) = Inr (literal_scalar v))
    | Inr None \<Rightarrow> False
    | Inl d \<Rightarrow> diag_code d = ConstantEvaluationFailed \<and>
        checked_binary op t (literal_scalar l) (literal_scalar r) = Inl EvaluationFailure"
  using checked_binary_folds [OF assms, of sp] unfolding folded_result_def .

theorem constant_folding_agrees_with_execution_witness:
  "fold_binary OpMultiply (expression_literal (LInt64 5)) (expression_literal (LInt64 100)) TInt64 \<lparr>sp_start = 0, sp_end = 3\<rparr> =
     Inr (Some (expression_literal (LInt64 500))) \<and>
   checked_binary OpMultiply TInt64 (SInt64 (Some 5)) (SInt64 (Some 100)) = Inr (SInt64 (Some 500))"
proof -
  have "fold_binary OpMultiply (expression_literal (LInt64 5)) (expression_literal (LInt64 100)) TInt64 \<lparr>sp_start = 0, sp_end = 3\<rparr> =
      Inr (Some (expression_literal (LInt64 500)))"
    by (simp add: fold_binary_def fold_literals_def fold_integer_def checked_mul_def in_range_def in_i64_def)
  with constant_folding_agrees_with_execution [of "LInt64 5" "LInt64 100" TInt64 OpMultiply "\<lparr>sp_start = 0, sp_end = 3\<rparr>"]
  show ?thesis by (auto simp: in_i64_def is_numeric_def arithmetic_op_def expression_literal_def)
qed

text \<open>
  C14. Numeric casts are exact. A cast of a number to a numeric type succeeds exactly when that type
  has the number, and then gives the number itself, never a rounded one; otherwise a strict cast
  fails the query and a null-on-failure cast gives null.
\<close>

theorem numeric_casts_are_exact:
  assumes "scalar_ok s v" "\<not> scalar_is_null v" "is_numeric s" "is_numeric t"
  shows "\<exists>q. scalar_rat v = Some q \<and>
    (if type_holds t q
     then \<exists>w. scalar_ok t w \<and> scalar_rat w = Some q \<and> cast_value X Abort s t v = Inr w \<and> cast_value X NullResult s t v = Inr w
     else cast_value X Abort s t v = Inl CastFailure \<and> cast_value X NullResult s t v = Inr (null_scalar t))"
proof -
  have types: "s \<noteq> TJson" "s \<noteq> TUtf8" "t \<noteq> TJson" "t \<noteq> TUtf8" using assms(3,4) by (auto simp: is_numeric_def)
  from numeric_value_of_ok [OF assms(1-3)] obtain n where
    n: "numeric_value_of v s = Inr n" "numeric_ok n" "scalar_rat v = Some (numeric_rat n)" by blast
  note exact = numeric_to_scalar_exact [OF n(2) assms(4)]
  show ?thesis
  proof (cases "s = t")
    case True
    with scalar_ok_holds [OF assms(1)] assms n(3) types show ?thesis
      by (simp add: cast_value_def convert_scalar_def convert_non_json_def)
  next
    case False
    with types assms n(1) have "convert_scalar X v s t = numeric_to_scalar n t"
      by (simp add: convert_scalar_def convert_non_json_def)
    with exact n(3) show ?thesis
      by (cases "numeric_to_scalar n t") (auto simp: cast_value_def split: invalid_cast.split)
  qed
qed

theorem numeric_casts_are_exact_witness:
  "(\<exists>w. cast_value demo_engine Abort TInt64 TInt32 (SInt64 (Some 500)) = Inr w \<and> scalar_ok TInt32 w \<and> scalar_rat w = Some 500) \<and>
   cast_value demo_engine Abort TInt64 TUInt32 (SInt64 (Some (- 1))) = Inl CastFailure"
proof -
  have num: "is_numeric TInt64" "is_numeric TInt32" "is_numeric TUInt32" by (simp_all add: is_numeric_def)
  have ok: "scalar_ok TInt64 (SInt64 (Some 500))" "scalar_ok TInt64 (SInt64 (Some (- 1)))"
    by (simp_all add: scalar_ok_def in_i64_def)
  have nonnull: "\<not> scalar_is_null (SInt64 (Some i))" for i by simp
  have holds: "type_holds TInt32 500" "\<not> type_holds TUInt32 (- 1)"
    by (simp_all add: type_holds_def in_i32_def in_u32_def)
  from numeric_casts_are_exact [OF ok(1) nonnull num(1,2), of demo_engine] holds(1)
    numeric_casts_are_exact [OF ok(2) nonnull num(1,3), of demo_engine] holds(2)
  show ?thesis by (auto simp: scalar_rat_def)
qed

text \<open>
  C15. Lossless casts never fail. A cast that the analysis inserts to widen a numeric type gives, for
  every value of the source type, the same number in the target type, and null for null, whatever
  the environment.
\<close>

theorem lossless_casts_never_fail:
  assumes "scalar_ok s v" "can_widen s t" "s \<noteq> t"
  shows "\<exists>w. cast_value X (failure_behavior Lossless) s t v = Inr w \<and> scalar_ok t w \<and>
    scalar_rat w = scalar_rat v \<and> scalar_is_null w = scalar_is_null v"
  using lossless_cast_total [OF assms, of X] by simp

theorem lossless_casts_never_fail_witness:
  "\<exists>w. cast_value demo_engine (failure_behavior Lossless) TInt32 TInt64 (SInt32 (Some (- 7))) = Inr w \<and>
     scalar_ok TInt64 w \<and> scalar_rat w = Some (- 7)"
proof -
  have "scalar_ok TInt32 (SInt32 (Some (- 7)))" by (simp add: scalar_ok_def in_i32_def)
  moreover have "can_widen TInt32 TInt64" by simp
  ultimately show ?thesis
    using lossless_casts_never_fail [of TInt32 "SInt32 (Some (- 7))" TInt64 demo_engine] by (auto simp: scalar_rat_def)
qed

section \<open>Aggregates\<close>

text \<open>
  An aggregate over partitions, each a sequence of batches: every partition has an accumulator of
  its own, and the states of the partitions are merged into one more.
\<close>

definition partitioned_count :: "count_mode \<Rightarrow> scalar list list list \<Rightarrow> runtime_failure_kind + scalar" where
  "partitioned_count mode partitions =
     sbind (traverse (\<lambda>batches. map_sum id count_state (fold_result count_update_batch batches (count_new mode))) partitions)
       (\<lambda>states. map_sum id count_evaluate (count_merge_batch (count_new mode) states))"

definition partitioned_sum :: "sum_kind \<Rightarrow> scalar list list list \<Rightarrow> runtime_failure_kind + scalar" where
  "partitioned_sum kind partitions =
     sbind (traverse (\<lambda>batches. map_sum id sum_scalar (fold_result sum_update_batch batches (sum_new kind))) partitions)
       (\<lambda>states. map_sum id sum_scalar (sum_merge_batch (sum_new kind) states))"

lemma traverse_map: "traverse f (map g xs) = traverse (\<lambda>x. f (g x)) xs"
  by (induction xs) simp_all

lemma partitioned_count_concat: "partitioned_count mode partitions = partition_counts mode (map concat partitions)"
  by (simp add: partitioned_count_def partition_counts_def traverse_map count_batches.update_batches)

lemma partitioned_sum_concat: "partitioned_sum kind partitions = partition_sums kind (map concat partitions)"
  by (simp add: partitioned_sum_def partition_sums_def traverse_map sum_batches.update_batches)

text \<open>
  C12. Aggregates are those of the whole column. However the rows are split into partitions and these
  into batches, and whatever the values are, counting gives the number of rows counted, all of
  them or those whose value is not null, when it fits the result type, and an evaluation error
  otherwise. The sum of unsigned integers is their exact sum over the values that are not null,
  null if there are none, or an evaluation error when that sum exceeds the result type. The sum
  of signed integers is either that exact sum, which then fits the result type, or an evaluation
  error.
\<close>

theorem aggregates_refine_exact_values:
  fixes partitions :: "scalar list list list"
  defines "rows \<equiv> concat (concat partitions)"
  shows "partitioned_count mode partitions =
      (let n = int (length (counted mode rows)) in
       if in_i64 n then Inr (SInt64 (Some n)) else Inl EvaluationFailure) \<and>
    (list_all unsigned_input rows \<longrightarrow> partitioned_sum SumUnsignedKind partitions =
      (if pred_option in_u64 (exact_sum rows) then Inr (SUInt64 (exact_sum rows)) else Inl EvaluationFailure)) \<and>
    (list_all signed_input rows \<longrightarrow> partitioned_sum SumSignedKind partitions = Inl EvaluationFailure \<or>
      partitioned_sum SumSignedKind partitions = Inr (SInt64 (exact_sum rows)) \<and> pred_option in_i64 (exact_sum rows))"
proof (intro conjI impI)
  have flat: "concat (map concat partitions) = rows" unfolding rows_def by (induction partitions) simp_all
  then have parts: "list_all (list_all P) (map concat partitions)" if "list_all P rows" for P
    using that by (auto simp: list_all_iff)
  show "partitioned_count mode partitions =
      (let n = int (length (counted mode rows)) in
       if in_i64 n then Inr (SInt64 (Some n)) else Inl EvaluationFailure)"
    unfolding partitioned_count_concat count_partitions flat
    by (simp add: count_update_batch_exact Let_def count_evaluate_def) (simp add: count_new_def)
  show "partitioned_sum SumUnsignedKind partitions =
      (if pred_option in_u64 (exact_sum rows) then Inr (SUInt64 (exact_sum rows)) else Inl EvaluationFailure)"
    if "list_all unsigned_input rows"
    using unsigned_partitions [OF parts [OF that]] unsigned_sum_exact [OF that]
    unfolding partitioned_sum_concat flat by simp
  show "partitioned_sum SumSignedKind partitions = Inl EvaluationFailure \<or>
      partitioned_sum SumSignedKind partitions = Inr (SInt64 (exact_sum rows)) \<and> pred_option in_i64 (exact_sum rows)"
    if "list_all signed_input rows"
    using signed_partitions [OF parts [OF that]] unfolding partitioned_sum_concat flat .
qed

theorem aggregates_refine_exact_values_witness:
  "partitioned_count AllRows [[[SInt64 (Some 1)], [SInt64 (Some 1)]], [[SInt64 (Some 1)]]] = Inr (SInt64 (Some 3)) \<and>
   partitioned_count NonNullRows [[[SUtf8 (Some ''a'')], [SUtf8 None]]] = Inr (SInt64 (Some 1)) \<and>
   partitioned_sum SumUnsignedKind [[[SUInt64 (Some 1)], [SUInt64 None]], [[SUInt64 (Some 5)]]] = Inr (SUInt64 (Some 6)) \<and>
   partitioned_sum SumSignedKind [[[SInt64 (Some 9223372036854775807)]], [[SInt64 (Some 1)]]] = Inl EvaluationFailure"
  using aggregates_refine_exact_values [where mode = AllRows and
      partitions = "[[[SInt64 (Some 1)], [SInt64 (Some 1)]], [[SInt64 (Some 1)]]]"]
    aggregates_refine_exact_values [where mode = NonNullRows and partitions = "[[[SUtf8 (Some ''a'')], [SUtf8 None]]]"]
    aggregates_refine_exact_values [where partitions = "[[[SUInt64 (Some 1)], [SUInt64 None]], [[SUInt64 (Some 5)]]]"]
    aggregates_refine_exact_values [where partitions = "[[[SInt64 (Some 9223372036854775807)]], [[SInt64 (Some 1)]]]"]
  by (simp add: unsigned_input_def signed_input_def scalar_ok_def in_u64_def in_i64_def counted_def exact_sum_def
      scalar_int_def Let_def)

text \<open>
  A signed sum is checked at every row: the same three values sum within the result type in one
  order and fail in another.
\<close>

lemma signed_sum_depends_on_order:
  "sum_update_batch (sum_new SumSignedKind) [SInt64 (Some 1), SInt64 (Some (- 1)), SInt64 (Some 9223372036854775807)] =
     Inr (SumSigned (Some 9223372036854775807))"
  "sum_update_batch (sum_new SumSignedKind) [SInt64 (Some 9223372036854775807), SInt64 (Some 1), SInt64 (Some (- 1))] =
     Inl EvaluationFailure"
  by (simp_all add: sum_add_input_def add_integer_def checked_int_add_def in_range_def in_i64_def)

end
