(* ===== verification/Spec2Isabelle.thy ===== *)
theory Spec2Isabelle
  imports Spool_Properties Query_Properties Engine_Properties
begin

text \<open>
  A verification of the event store Elucid (\<open>src/elucid\<close>).

  The durable admission spool (\<open>elucid-ingestion\<close>):
  \<^item> \<open>Spool_Frame\<close>: values, errors and the byte formats of frames and of the checkpoint file;
  \<^item> \<open>Spool_Recovery\<close>: the scan at startup and the reader of committed batches, as an instance of
    the interface \<open>Framed_Log\<close>;
  \<^item> \<open>Checkpoint_Plan\<close>: which batches a checkpoint may pass;
  \<^item> \<open>Spool\<close>: reservations, appends, the checkpoint and reclamation;
  \<^item> \<open>Spool_System\<close>: the operations interleaved as a step relation, with its invariant;
  \<^item> \<open>Spool_Runs\<close>, \<open>Spool_Properties\<close>: runs and the properties.
\<close>

section \<open>Event identities\<close>

text \<open>
  C35. The text of an event identity has one spelling: the accepted texts are exactly the 32
  lower-case hexadecimal digits that the identity prints, and printing inverts parsing.
\<close>

theorem event_id_text_is_canonical:
  "event_id_from_str text = Inr event \<longleftrightarrow> event_id_ok event \<and> text = event_id_display event"
  by (rule event_id.dec_iff)

section \<open>Error codes\<close>

text \<open>
  C8. The public error codes have one text each: parsing accepts exactly the texts that the codes
  print, so that no two codes share a text.
\<close>

theorem error_code_text_is_canonical:
  "error_code_from_str text = Inr code \<longleftrightarrow> text = error_code_as_str code"
  using error_code.dec_iff [of "text" code] by simp

end
